(* ===== verification/Prelude.thy ===== *)
theory Prelude
  imports Main "HOL-Library.Word" "HOL-Library.Monad_Syntax"
begin

unbundle bit_operations_syntax

text \<open>
  Shared ground of the development: the machine types of the x86-64 monitor, the C
  conversions between them, the little-endian layout of a \<open>long\<close> in memory, byte buffers
  of the monitor process, the C string functions of \<open>string.h\<close> that the monitor calls, and
  the fact collections the component theories feed and use.

  A call that can block for ever is a function into an option: the value None means that
  the call does not return (see the header of the root theory).
\<close>

named_theorems prim_simps \<open>how each primitive acts on each observable of the state\<close>
named_theorems frame_simps \<open>what a primitive leaves alone\<close>

section \<open>Machine types and C conversions\<close>

type_synonym byte = "8 word"
type_synonym word32 = "32 word"
type_synonym word64 = "64 word"

text \<open>\<open>sext32 x\<close> is \<open>(int) x\<close> used again at 64 bits: truncate, then sign-extend.\<close>

definition sext32 :: "word64 \<Rightarrow> word64" where
  "sext32 x = scast (ucast x :: word32)"

text \<open>\<open>zext32 x\<close> is \<open>(socklen_t) x\<close> (an unsigned 32-bit type) used again at 64 bits.\<close>

definition zext32 :: "word64 \<Rightarrow> word64" where
  "zext32 x = ucast (ucast x :: word32)"

lemma ucast_sext32 [simp]: "(ucast (sext32 x) :: word32) = ucast x"
  unfolding sext32_def by (rule bit_word_eqI) (auto simp: bit_simps)

lemma bit_sext32: "bit (sext32 x) n \<longleftrightarrow> n < 64 \<and> bit x (if n < 31 then n else 31)"
  by (auto simp: sext32_def bit_simps not_less min_def)

lemma bit_zext32: "bit (zext32 x) n \<longleftrightarrow> n < 32 \<and> bit x n"
  by (auto simp: zext32_def bit_simps)

lemma sext32_idem [simp]: "sext32 (sext32 x) = sext32 x"
  by (simp add: sext32_def) (simp add: sext32_def [symmetric])

lemma zext32_eq_mask: "zext32 x = x AND mask 32"
  by (rule bit_word_eqI) (auto simp: bit_zext32 bit_simps)

section \<open>The bytes of a long\<close>

definition byte_of :: "word64 \<Rightarrow> nat \<Rightarrow> byte" where
  "byte_of w i = ucast (drop_bit (8 * i) w)"

fun word_of_bytes :: "byte list \<Rightarrow> word64" where
  "word_of_bytes [] = 0"
| "word_of_bytes (b # bs) = ucast b OR push_bit 8 (word_of_bytes bs)"

lemma bit_byte_of: "bit (byte_of w i) n \<longleftrightarrow> n < 8 \<and> bit w (8 * i + n)"
  by (auto simp: byte_of_def bit_simps)

lemma bit_word_of_bytes:
  "bit (word_of_bytes bs) n \<longleftrightarrow> n < 64 \<and> n div 8 < length bs \<and> bit (bs ! (n div 8)) (n mod 8)"
proof (induction bs arbitrary: n)
  case Nil
  then show ?case by simp
next
  case (Cons b bs)
  show ?case
  proof (cases "n < 8")
    case True
    then show ?thesis by (auto simp: bit_simps)
  next
    case False
    then have n: "n div 8 = Suc ((n - 8) div 8)" "n mod 8 = (n - 8) mod 8"
      by (auto simp: le_div_geq le_mod_geq)
    have "\<not> bit b n"
      using False bit_imp_le_length [of b n] by auto
    then show ?thesis
      using False Cons.IH [of "n - 8"] by (auto simp: bit_simps n)
  qed
qed

lemma byte_of_word_of_bytes:
  assumes "i < length bs" and "i < 8"
  shows "byte_of (word_of_bytes bs) i = bs ! i"
proof (rule bit_word_eqI)
  fix n :: nat
  assume n: "n < LENGTH(8)"
  then have "(8 * i + n) div 8 = i" "(8 * i + n) mod 8 = n"
    by auto
  with assms n show "bit (byte_of (word_of_bytes bs) i) n \<longleftrightarrow> bit (bs ! i) n"
    by (auto simp: bit_byte_of bit_word_of_bytes)
qed

lemma word_of_bytes_byte_of: "word_of_bytes (map (byte_of w) [0..<8]) = w"
proof (rule bit_word_eqI)
  fix n :: nat
  assume "n < LENGTH(64)"
  then have "n div 8 < 8" by auto
  then show "bit (word_of_bytes (map (byte_of w) [0..<8])) n \<longleftrightarrow> bit w n"
    by (auto simp: bit_word_of_bytes bit_byte_of nth_map simp del: upt_rec_numeral)
qed

lemma byte_of_minus_1 [simp]: "i < 8 \<Longrightarrow> byte_of (- 1) i = - 1"
  by (rule bit_word_eqI) (simp add: bit_byte_of)

section \<open>Buffers of the monitor process\<close>

text \<open>
  A monitor buffer is the memory from its base address on, a function from byte offsets; an
  access past the end of the C object reads or writes whatever follows it there.
  \<open>local_load\<close> and \<open>local_store\<close> are the accesses through \<open>(long *) localBuf\<close>, at a
  byte offset.
\<close>

type_synonym buffer = "nat \<Rightarrow> byte"

definition local_load :: "buffer \<Rightarrow> nat \<Rightarrow> word64" where
  "local_load b off = word_of_bytes (map (\<lambda>i. b (off + i)) [0..<8])"

definition local_store :: "buffer \<Rightarrow> nat \<Rightarrow> word64 \<Rightarrow> buffer" where
  "local_store b off w = (\<lambda>i. if off \<le> i \<and> i < off + 8 then byte_of w (i - off) else b i)"

lemma byte_of_local_load [simp]: "i < 8 \<Longrightarrow> byte_of (local_load b off) i = b (off + i)"
  by (simp add: local_load_def byte_of_word_of_bytes del: upt_rec_numeral)

lemma local_load_store [simp]: "local_load (local_store b off w) off = w"
proof -
  have "map (\<lambda>i. local_store b off w (off + i)) [0..<8] = map (byte_of w) [0..<8]"
    by (rule map_cong) (auto simp: local_store_def)
  then show ?thesis
    by (simp only: local_load_def word_of_bytes_byte_of)
qed

text \<open>\<open>memset(b, 0, n)\<close>.\<close>

definition memset0 :: "buffer \<Rightarrow> nat \<Rightarrow> buffer" where
  "memset0 b n = (\<lambda>i. if i < n then 0 else b i)"

section \<open>The C string functions\<close>

text \<open>
  \<open>strnlen(b, n)\<close>; \<open>strncmp(a, b, n)\<close> and \<open>memcmp(a, b, n)\<close> as the difference of the
  first bytes that differ (as unsigned characters), 0 if there is none. The argument \<open>i\<close> is
  the offset reached, the structural argument the number of bytes left.
\<close>

fun strnlen_from :: "buffer \<Rightarrow> nat \<Rightarrow> nat \<Rightarrow> nat" where
  "strnlen_from b i 0 = 0"
| "strnlen_from b i (Suc n) = (if b i = 0 then 0 else Suc (strnlen_from b (Suc i) n))"

definition strnlen :: "buffer \<Rightarrow> nat \<Rightarrow> nat" where
  "strnlen b n = strnlen_from b 0 n"

fun strncmp_from :: "buffer \<Rightarrow> buffer \<Rightarrow> nat \<Rightarrow> nat \<Rightarrow> int" where
  "strncmp_from a b i 0 = 0"
| "strncmp_from a b i (Suc n) =
     (if a i \<noteq> b i then uint (a i) - uint (b i)
      else if a i = 0 then 0
      else strncmp_from a b (Suc i) n)"

definition strncmp :: "buffer \<Rightarrow> buffer \<Rightarrow> nat \<Rightarrow> int" where
  "strncmp a b n = strncmp_from a b 0 n"

fun memcmp_from :: "buffer \<Rightarrow> buffer \<Rightarrow> nat \<Rightarrow> nat \<Rightarrow> int" where
  "memcmp_from a b i 0 = 0"
| "memcmp_from a b i (Suc n) =
     (if a i \<noteq> b i then uint (a i) - uint (b i) else memcmp_from a b (Suc i) n)"

definition memcmp :: "buffer \<Rightarrow> buffer \<Rightarrow> nat \<Rightarrow> int" where
  "memcmp a b n = memcmp_from a b 0 n"

lemma strnlen_from_le: "strnlen_from b i n \<le> n"
  by (induction b i n rule: strnlen_from.induct) auto

lemma strnlen_le [simp]: "strnlen b n \<le> n"
  by (simp add: strnlen_def strnlen_from_le)

lemma strnlen_from_full:
  "strnlen_from b i n = n \<longleftrightarrow> (\<forall>j<n. b (i + j) \<noteq> 0)"
  by (induction b i n rule: strnlen_from.induct) (auto simp: All_less_Suc2)

lemma strnlen_full: "strnlen b n = n \<longleftrightarrow> (\<forall>j<n. b j \<noteq> 0)"
  by (simp add: strnlen_def strnlen_from_full)

lemma strnlen_from_before: "j < strnlen_from b i n \<Longrightarrow> b (i + j) \<noteq> 0"
proof (induction b i n arbitrary: j rule: strnlen_from.induct)
  case (2 b i n)
  then show ?case by (cases j) (auto split: if_splits)
qed simp

lemma strnlen_from_at: "strnlen_from b i n < n \<Longrightarrow> b (i + strnlen_from b i n) = 0"
  by (induction b i n rule: strnlen_from.induct) auto

lemma strnlen_before: "j < strnlen b n \<Longrightarrow> b j \<noteq> 0"
  using strnlen_from_before [of j b 0 n] by (simp add: strnlen_def)

lemma strnlen_at: "strnlen b n < n \<Longrightarrow> b (strnlen b n) = 0"
  using strnlen_from_at [of b 0 n] by (simp add: strnlen_def)

lemma strncmp_from_0:
  "\<forall>j<n. a (i + j) \<noteq> 0 \<Longrightarrow> strncmp_from a b i n = 0 \<longleftrightarrow> (\<forall>j<n. a (i + j) = b (i + j))"
  by (induction a b i n rule: strncmp_from.induct)
    (auto simp: All_less_Suc2 word_uint_eq_iff [symmetric])

text \<open>Where the first string has no terminator in range, \<open>strncmp\<close> compares every byte.\<close>

lemma strncmp_0:
  "\<forall>j<n. a j \<noteq> 0 \<Longrightarrow> strncmp a b n = 0 \<longleftrightarrow> (\<forall>j<n. a j = b j)"
  using strncmp_from_0 [of n a 0 b] by (simp add: strncmp_def)

lemma memcmp_from_0: "memcmp_from a b i n = 0 \<longleftrightarrow> (\<forall>j<n. a (i + j) = b (i + j))"
  by (induction a b i n rule: memcmp_from.induct)
    (auto simp: All_less_Suc2 word_uint_eq_iff [symmetric])

lemma memcmp_0: "memcmp a b n = 0 \<longleftrightarrow> (\<forall>j<n. a j = b j)"
  by (simp add: memcmp_def memcmp_from_0)

section \<open>Option binds\<close>

lemma bind_Some_iff [simp]: "Option.bind (Some x) f = f x"
  by simp

lemmas bindE = Option.bind_eq_Some_conv

end
