(* ===== verification/Ptrace.thy ===== *)
theory Ptrace
  imports Prelude
begin

text \<open>
  The tracees and the operating-system interface the monitor drives them through. A tracee
  is its ptrace state, its registers, its memory and its ptrace options. The functions below
  give the documented effect, on one tracee, of the \<open>ptrace\<close> requests of \<open>sys/ptrace.h\<close>
  that the monitor issues and of the \<open>wait\<close> status macros of \<open>sys/wait.h\<close>.

  What a tracee and the kernel do between two stops is not code of the repository: it is the
  parameter \<open>run\<close> of every definition that waits. It gets the rest of the outside world
  (files, sockets, clock: a value of any type), the pid and the tracee, and returns the outside
  world and the tracee at its next stop.
\<close>

section \<open>Tracees\<close>

datatype pstate =
    InUser              \<comment> \<open>running user code, last resumed from an exit or signal stop\<close>
  | InSyscall           \<comment> \<open>running in the kernel, last resumed from an entry stop\<close>
  | EntryStop           \<comment> \<open>syscall-enter-stop\<close>
  | ExitStop            \<comment> \<open>syscall-exit-stop\<close>
  | SignalStop byte     \<comment> \<open>signal-delivery-stop\<close>
  | Exited byte         \<comment> \<open>exited with this status\<close>
  | Killed byte         \<comment> \<open>terminated by this signal\<close>

record user_regs_struct =
  rax :: word64
  orig_rax :: word64
  rdi :: word64
  rsi :: word64
  rdx :: word64
  r10 :: word64
  r8 :: word64
  r9 :: word64
  rip :: word64
  rsp :: word64

record proc =
  ps :: pstate
  regs :: user_regs_struct
  mem :: "word64 \<Rightarrow> byte option"   \<comment> \<open>None: no page mapped there\<close>
  opts :: word32

type_synonym 'k env = "'k \<Rightarrow> int \<Rightarrow> proc \<Rightarrow> 'k \<times> proc"

fun is_stop :: "pstate \<Rightarrow> bool" where
  "is_stop EntryStop = True"
| "is_stop ExitStop = True"
| "is_stop (SignalStop _) = True"
| "is_stop _ = False"

fun is_running :: "pstate \<Rightarrow> bool" where
  "is_running InUser = True"
| "is_running InSyscall = True"
| "is_running _ = False"

fun is_dead :: "pstate \<Rightarrow> bool" where
  "is_dead (Exited _) = True"
| "is_dead (Killed _) = True"
| "is_dead _ = False"

abbreviation stopped :: "proc \<Rightarrow> bool" where
  "stopped p \<equiv> is_stop (ps p)"

section \<open>Memory\<close>

definition load8 :: "(word64 \<Rightarrow> byte option) \<Rightarrow> word64 \<Rightarrow> byte list option" where
  "load8 m a = those (map (\<lambda>i. m (a + of_nat i)) [0..<8])"

definition store8 ::
    "(word64 \<Rightarrow> byte option) \<Rightarrow> word64 \<Rightarrow> word64 \<Rightarrow> (word64 \<Rightarrow> byte option)" where
  "store8 m a w =
     (\<lambda>x. let d = unat (x - a) in if d < 8 then Some (byte_of w d) else m x)"

definition mapped :: "(word64 \<Rightarrow> byte option) \<Rightarrow> word64 \<Rightarrow> nat \<Rightarrow> bool" where
  "mapped m a n \<longleftrightarrow> (\<forall>i<n. m (a + of_nat i) \<noteq> None)"

text \<open>\<open>PTRACE_PEEKDATA\<close>: the word at an address, or -1 when the request fails.\<close>

definition peekdata :: "proc \<Rightarrow> word64 \<Rightarrow> word64" where
  "peekdata p a =
     (if stopped p
      then (case load8 (mem p) a of Some bs \<Rightarrow> word_of_bytes bs | None \<Rightarrow> - 1)
      else - 1)"

text \<open>\<open>PTRACE_POKEDATA\<close>: no effect when the request fails.\<close>

definition pokedata :: "proc \<Rightarrow> word64 \<Rightarrow> word64 \<Rightarrow> proc" where
  "pokedata p a w =
     (if stopped p \<and> load8 (mem p) a \<noteq> None then p\<lparr>mem := store8 (mem p) a w\<rparr> else p)"

lemma those_map_Some: "those (map f xs) = Some ys \<longleftrightarrow> (\<forall>x\<in>set xs. f x \<noteq> None) \<and> ys = map (the \<circ> f) xs"
  by (induction xs arbitrary: ys) (auto split: option.splits)

lemma those_map_None: "those (map f xs) = None \<longleftrightarrow> (\<exists>x\<in>set xs. f x = None)"
  by (induction xs) (auto split: option.splits)

lemma load8_Some:
  "load8 m a = Some bs \<longleftrightarrow> mapped m a 8 \<and> bs = map (\<lambda>i. the (m (a + of_nat i))) [0..<8]"
  unfolding load8_def mapped_def those_map_Some by (auto simp del: upt_rec_numeral)

lemma load8_None: "load8 m a = None \<longleftrightarrow> \<not> mapped m a 8"
  using load8_Some [of m a] by (cases "load8 m a") auto

lemma byte_of_peekdata:
  "stopped p \<Longrightarrow> mapped (mem p) a 8 \<Longrightarrow> i < 8 \<Longrightarrow>
   byte_of (peekdata p a) i = the (mem p (a + of_nat i))"
  using load8_Some [of "mem p" a "map (\<lambda>i. the (mem p (a + of_nat i))) [0..<8]"]
  by (simp add: peekdata_def byte_of_word_of_bytes del: upt_rec_numeral)

lemma pokedata_mapped:
  "stopped p \<Longrightarrow> mapped (mem p) a 8 \<Longrightarrow> pokedata p a w = p\<lparr>mem := store8 (mem p) a w\<rparr>"
  by (simp add: pokedata_def load8_None)

lemma store8_outside: "8 \<le> unat (x - a) \<Longrightarrow> store8 m a w x = m x"
  by (simp add: store8_def)

lemma store8_inside: "unat (x - a) < 8 \<Longrightarrow> store8 m a w x = Some (byte_of w (unat (x - a)))"
  by (simp add: store8_def)

lemma mapped_store8: "mapped m b n \<Longrightarrow> mapped (store8 m a w) b n"
  by (auto simp: mapped_def store8_def Let_def)

lemma mapped_sub:
  "mapped m a n \<Longrightarrow> i + k \<le> n \<Longrightarrow> mapped m (a + of_nat i) k"
  unfolding mapped_def
proof (intro allI impI)
  fix j
  assume all: "\<forall>i<n. m (a + of_nat i) \<noteq> None" and "i + k \<le> n" and "j < k"
  then have "i + j < n" by simp
  with all have "m (a + of_nat (i + j)) \<noteq> None" by blast
  then show "m (a + of_nat i + of_nat j) \<noteq> None" by (simp add: add.assoc)
qed

lemma pokedata_frame [simp]:
  "ps (pokedata p a w) = ps p" "regs (pokedata p a w) = regs p" "opts (pokedata p a w) = opts p"
  by (simp_all add: pokedata_def)

section \<open>The other requests\<close>

text \<open>\<open>PTRACE_SYSCALL\<close>: resume up to the next syscall stop.\<close>

fun resumed :: "pstate \<Rightarrow> pstate" where
  "resumed EntryStop = InSyscall"
| "resumed ExitStop = InUser"
| "resumed (SignalStop _) = InUser"
| "resumed x = x"

definition ptrace_syscall :: "proc \<Rightarrow> proc" where
  "ptrace_syscall p = p\<lparr>ps := resumed (ps p)\<rparr>"

text \<open>
  \<open>PTRACE_POKEUSER\<close> at the offsets \<open>8 * RAX\<close> and \<open>8 * ORIG_RAX\<close> of \<open>sys/reg.h\<close>, the
  only ones the monitor writes.
\<close>

definition pokeuser :: "proc \<Rightarrow> nat \<Rightarrow> word64 \<Rightarrow> proc" where
  "pokeuser p off w =
     (if \<not> stopped p then p
      else if off = 8 * 10 then p\<lparr>regs := (regs p)\<lparr>rax := w\<rparr>\<rparr>
      else if off = 8 * 15 then p\<lparr>regs := (regs p)\<lparr>orig_rax := w\<rparr>\<rparr>
      else p)"

text \<open>\<open>PTRACE_SETREGS\<close> and \<open>PTRACE_SETOPTIONS\<close>; the latter replaces all options.\<close>

definition setregs :: "proc \<Rightarrow> user_regs_struct \<Rightarrow> proc" where
  "setregs p r = (if stopped p then p\<lparr>regs := r\<rparr> else p)"

definition setoptions :: "proc \<Rightarrow> word32 \<Rightarrow> proc" where
  "setoptions p d = (if stopped p then p\<lparr>opts := d\<rparr> else p)"

text \<open>\<open>kill(pid, SIGKILL)\<close>.\<close>

definition kill9 :: "proc \<Rightarrow> proc" where
  "kill9 p = (if is_dead (ps p) then p else p\<lparr>ps := Killed 9\<rparr>)"

text \<open>
  \<open>struct ptrace_syscall_info\<close>: the field \<open>op\<close> and the union of \<open>entry\<close> (\<open>nr\<close> and six
  \<open>args\<close>) and \<open>exit\<close> (\<open>rval\<close>, and a byte \<open>is_error\<close> in the second word), as its seven
  64-bit words; before them the stack pointer. Reading \<open>entry\<close> after an exit stop reads the same words.
\<close>

record ptrace_syscall_info =
  si_op :: byte
  stack_pointer :: word64
  si_words :: "word64 list"

definition entry_nr :: "ptrace_syscall_info \<Rightarrow> word64" where
  "entry_nr i = si_words i ! 0"

definition entry_args :: "ptrace_syscall_info \<Rightarrow> nat \<Rightarrow> word64" where
  "entry_args i n = si_words i ! Suc n"

definition exit_rval :: "ptrace_syscall_info \<Rightarrow> word64" where
  "exit_rval i = si_words i ! 0"

abbreviation (input) PTRACE_SYSCALL_INFO_NONE :: byte where "PTRACE_SYSCALL_INFO_NONE \<equiv> 0"
abbreviation (input) PTRACE_SYSCALL_INFO_ENTRY :: byte where "PTRACE_SYSCALL_INFO_ENTRY \<equiv> 1"
abbreviation (input) PTRACE_SYSCALL_INFO_EXIT :: byte where "PTRACE_SYSCALL_INFO_EXIT \<equiv> 2"

text \<open>
  \<open>PTRACE_GET_SYSCALL_INFO\<close> into a zeroed struct. At an exit stop the kernel fills the
  struct up to \<open>is_error\<close>, which is 1 for results in the error range [-4095, -1].
\<close>

definition get_syscall_info :: "proc \<Rightarrow> ptrace_syscall_info" where
  "get_syscall_info p =
     (case ps p of
        EntryStop \<Rightarrow> \<lparr>si_op = PTRACE_SYSCALL_INFO_ENTRY, stack_pointer = rsp (regs p),
          si_words = [orig_rax (regs p), rdi (regs p), rsi (regs p), rdx (regs p),
                      r10 (regs p), r8 (regs p), r9 (regs p)]\<rparr>
      | ExitStop \<Rightarrow> \<lparr>si_op = PTRACE_SYSCALL_INFO_EXIT, stack_pointer = rsp (regs p),
          si_words = [rax (regs p), if - 4095 \<le> rax (regs p) then 1 else 0, 0, 0, 0, 0, 0]\<rparr>
      | _ \<Rightarrow> \<lparr>si_op = PTRACE_SYSCALL_INFO_NONE,
          stack_pointer = (if stopped p then rsp (regs p) else 0), si_words = replicate 7 0\<rparr>)"

lemma ptrace_syscall_sel [simp]:
  "ps (ptrace_syscall p) = resumed (ps p)" "regs (ptrace_syscall p) = regs p"
  "mem (ptrace_syscall p) = mem p" "opts (ptrace_syscall p) = opts p"
  by (simp_all add: ptrace_syscall_def)

lemma pokeuser_sel [simp]:
  "ps (pokeuser p n w) = ps p" "mem (pokeuser p n w) = mem p" "opts (pokeuser p n w) = opts p"
  by (simp_all add: pokeuser_def)

lemma setregs_sel [simp]:
  "ps (setregs p r) = ps p" "mem (setregs p r) = mem p" "opts (setregs p r) = opts p"
  by (simp_all add: setregs_def)

lemma setoptions_sel [simp]:
  "ps (setoptions p d) = ps p" "mem (setoptions p d) = mem p" "regs (setoptions p d) = regs p"
  by (simp_all add: setoptions_def)

lemma entry_info_sel:
  "ps p = EntryStop \<Longrightarrow> si_op (get_syscall_info p) = PTRACE_SYSCALL_INFO_ENTRY"
  "ps p = EntryStop \<Longrightarrow> entry_nr (get_syscall_info p) = orig_rax (regs p)"
  "ps p = EntryStop \<Longrightarrow> map (entry_args (get_syscall_info p)) [0..<6] =
     [rdi (regs p), rsi (regs p), rdx (regs p), r10 (regs p), r8 (regs p), r9 (regs p)]"
  by (simp_all add: get_syscall_info_def entry_nr_def entry_args_def upt_rec)

lemma exit_info_sel:
  "ps p = ExitStop \<Longrightarrow> si_op (get_syscall_info p) = PTRACE_SYSCALL_INFO_EXIT"
  "ps p = ExitStop \<Longrightarrow> exit_rval (get_syscall_info p) = rax (regs p)"
  "ps p = ExitStop \<Longrightarrow> 0 < n \<Longrightarrow> n < 6 \<Longrightarrow> entry_args (get_syscall_info p) n = 0"
  by (auto simp: get_syscall_info_def exit_rval_def entry_args_def eval_nat_numeral less_Suc_eq)

section \<open>Wait statuses\<close>

abbreviation (input) PTRACE_O_TRACESYSGOOD :: word32 where "PTRACE_O_TRACESYSGOOD \<equiv> 1"
abbreviation (input) PTRACE_O_EXITKILL :: word32 where "PTRACE_O_EXITKILL \<equiv> 0x100000"

text \<open>
  The status word that \<open>waitpid\<close> stores, and the macros that read it. A syscall stop reports
  \<open>SIGTRAP\<close> (5), with bit 7 set under \<open>PTRACE_O_TRACESYSGOOD\<close>.
\<close>

definition wait_status :: "proc \<Rightarrow> word32" where
  "wait_status p =
     (case ps p of
        Exited c \<Rightarrow> push_bit 8 (ucast c)
      | Killed g \<Rightarrow> ucast g AND 0x7f
      | SignalStop g \<Rightarrow> push_bit 8 (ucast g) OR 0x7f
      | _ \<Rightarrow> push_bit 8 (if opts p AND PTRACE_O_TRACESYSGOOD \<noteq> 0 then 0x85 else 5) OR 0x7f)"

definition WTERMSIG :: "word32 \<Rightarrow> word32" where
  "WTERMSIG st = st AND 0x7f"

definition WIFEXITED :: "word32 \<Rightarrow> bool" where
  "WIFEXITED st \<longleftrightarrow> WTERMSIG st = 0"

text \<open>\<open>((signed char) ((status & 0x7f) + 1) >> 1) > 0\<close>\<close>

definition WIFSIGNALED :: "word32 \<Rightarrow> bool" where
  "WIFSIGNALED st \<longleftrightarrow> 0 < sint (ucast ((st AND 0x7f) + 1) :: byte) div 2"

text \<open>
  The documented alternation of syscall stops under \<open>PTRACE_SYSCALL\<close>: a tracee resumed in
  a system call next stops at its exit or dies in it; one resumed in user code next stops at
  the entry of a system call, at a signal, or dies.
\<close>

fun after_syscall :: "pstate \<Rightarrow> bool" where
  "after_syscall ExitStop = True"
| "after_syscall (Exited _) = True"
| "after_syscall (Killed g) = (0 < g \<and> g < 0x7f)"
| "after_syscall _ = False"

fun after_user :: "pstate \<Rightarrow> bool" where
  "after_user EntryStop = True"
| "after_user (SignalStop _) = True"
| "after_user (Exited _) = True"
| "after_user (Killed g) = (0 < g \<and> g < 0x7f)"
| "after_user _ = False"

definition ptrace_alternates :: "'k env \<Rightarrow> bool" where
  "ptrace_alternates run \<longleftrightarrow>
     (\<forall>k i p. (ps p = InSyscall \<longrightarrow> after_syscall (ps (snd (run k i p)))) \<and>
              (ps p = InUser \<longrightarrow> after_user (ps (snd (run k i p)))))"

end
