(* ===== verification/Mappings.thy ===== *)
theory Mappings
  imports Prelude
begin

text \<open>
  \<open>mappings.c\<close>: the list of the master's memory mappings, a doubly linked list with a
  dummy head, in an explicit store of nodes. \<open>maps_rep\<close> relates a store to the list of
  its entries; the three operations refine \<open>append\<close>, "delete the first with this address"
  and \<open>find\<close> on that list. The locale \<open>mapping_store\<close> is the interface its clients
  (the executors of mmap, mprotect and munmap) use.
\<close>

section \<open>Nodes and the three operations\<close>

record variantMMap =
  addr :: word64
  len :: word64
  prot :: word32
  flags :: word32

text \<open>
  A node pointer is an address of the store, \<open>NULL\<close> is None. \<open>fresh\<close> is the next address
  \<open>malloc\<close> returns: an allocation succeeds and gives an address not in use.
\<close>

record node =
  entry :: variantMMap
  nxt :: "nat option"
  prv :: "nat option"

record mapheap =
  cells :: "nat \<Rightarrow> node option"
  fresh :: nat

text \<open>\<open>node dummy = {{}, NULL, NULL}; node *mappings = &dummy;\<close>\<close>

definition dummy :: node where
  "dummy = \<lparr>entry = \<lparr>addr = 0, len = 0, prot = 0, flags = 0\<rparr>, nxt = None, prv = None\<rparr>"

definition mappings :: nat where
  "mappings = 0"

definition initial_heap :: mapheap where
  "initial_heap = \<lparr>cells = [mappings \<mapsto> dummy], fresh = 1\<rparr>"

text \<open>
  \<open>while (current->next != NULL) current = current->next;\<close> A dangling pointer and a cycle
  both give None, the call that does not return.
\<close>

partial_function (option) last_node :: "(nat \<Rightarrow> node option) \<Rightarrow> nat \<Rightarrow> nat option" where
  "last_node h c = (case h c of None \<Rightarrow> None
     | Some n \<Rightarrow> (case nxt n of None \<Rightarrow> Some c | Some c' \<Rightarrow> last_node h c'))"

definition addMapping ::
    "word64 \<Rightarrow> word64 \<Rightarrow> word32 \<Rightarrow> word32 \<Rightarrow> mapheap \<Rightarrow> mapheap option" where
  "addMapping a l pr fl mh =
     (let new = fresh mh;
          nd = \<lparr>entry = \<lparr>addr = a, len = l, prot = pr, flags = fl\<rparr>, nxt = None, prv = None\<rparr>;
          h = (cells mh)(new \<mapsto> nd)
      in do {
        current \<leftarrow> last_node h mappings;
        cn \<leftarrow> h current;
        let h = h(current \<mapsto> cn\<lparr>nxt := Some new\<rparr>);
        nn \<leftarrow> h new;
        Some \<lparr>cells = h(new \<mapsto> nn\<lparr>prv := Some current\<rparr>), fresh = Suc new\<rparr>
      })"

partial_function (option) remove_from ::
    "word64 \<Rightarrow> nat option \<Rightarrow> (nat \<Rightarrow> node option) \<Rightarrow> (int \<times> (nat \<Rightarrow> node option)) option" where
  "remove_from a current h =
     (case current of
        None \<Rightarrow> Some (- 1, h)
      | Some c \<Rightarrow>
          (case h c of
             None \<Rightarrow> None
           | Some n \<Rightarrow>
               if addr (entry n) = a then do {
                 p \<leftarrow> prv n;
                 pn \<leftarrow> h p;
                 let h = h(p \<mapsto> pn\<lparr>nxt := nxt n\<rparr>);
                 h \<leftarrow> (case nxt n of
                         None \<Rightarrow> Some h
                       | Some q \<Rightarrow> do { qn \<leftarrow> h q; Some (h(q \<mapsto> qn\<lparr>prv := prv n\<rparr>)) });
                 Some (0, h(c := None))
               }
               else remove_from a (nxt n) h))"

definition removeMapping :: "word64 \<Rightarrow> mapheap \<Rightarrow> (int \<times> mapheap) option" where
  "removeMapping a mh = do {
     hd \<leftarrow> cells mh mappings;
     (r, h) \<leftarrow> remove_from a (nxt hd) (cells mh);
     Some (r, mh\<lparr>cells := h\<rparr>)
   }"

text \<open>The test of \<open>findMapping\<close>: a zero length stands for an exact match of the address.\<close>

definition covers :: "variantMMap \<Rightarrow> word64 \<Rightarrow> bool" where
  "covers e target \<longleftrightarrow>
     (addr e = target \<and> len e = 0) \<or>
     (len e > 0 \<and> target \<ge> addr e \<and> target < addr e + len e)"

partial_function (option) find_from ::
    "word64 \<Rightarrow> nat option \<Rightarrow> (nat \<Rightarrow> node option) \<Rightarrow> nat option option" where
  "find_from target current h =
     (case current of
        None \<Rightarrow> Some None
      | Some c \<Rightarrow>
          (case h c of
             None \<Rightarrow> None
           | Some n \<Rightarrow>
               if covers (entry n) target then Some (Some c)
               else find_from target (nxt n) h))"

text \<open>The pointer \<open>&current->entry\<close> is the address of its node.\<close>

definition findMapping :: "word64 \<Rightarrow> mapheap \<Rightarrow> nat option option" where
  "findMapping target mh = do {
     hd \<leftarrow> cells mh mappings;
     find_from target (nxt hd) (cells mh)
   }"

text \<open>
  \<open>printMappings\<close>: the lines it prints, each a number and an entry.
\<close>

partial_function (option) print_from ::
    "nat \<Rightarrow> nat option \<Rightarrow> (nat \<Rightarrow> node option) \<Rightarrow> (nat \<times> variantMMap) list option" where
  "print_from count current h =
     (case current of
        None \<Rightarrow> Some []
      | Some c \<Rightarrow>
          (case h c of
             None \<Rightarrow> None
           | Some n \<Rightarrow> do {
               rest \<leftarrow> print_from (Suc count) (nxt n) h;
               Some ((count, entry n) # rest)
             }))"

definition printMappings :: "mapheap \<Rightarrow> (nat \<times> variantMMap) list option" where
  "printMappings mh = do {
     hd \<leftarrow> cells mh mappings;
     print_from 0 (nxt hd) (cells mh)
   }"

section \<open>The list a store represents\<close>

text \<open>
  \<open>dll h p c xs\<close>: from node pointer \<open>c\<close>, whose predecessor is \<open>p\<close>, the store \<open>h\<close> holds
  the doubly linked list of the addresses and entries \<open>xs\<close>.
\<close>

fun dll :: "(nat \<Rightarrow> node option) \<Rightarrow> nat \<Rightarrow> nat option \<Rightarrow> (nat \<times> variantMMap) list \<Rightarrow> bool" where
  "dll h p c [] \<longleftrightarrow> c = None"
| "dll h p c ((a, e) # xs) \<longleftrightarrow>
     c = Some a \<and> (\<exists>n. h a = Some n \<and> entry n = e \<and> prv n = Some p \<and> dll h a (nxt n) xs)"

definition maps_nodes :: "mapheap \<Rightarrow> (nat \<times> variantMMap) list \<Rightarrow> bool" where
  "maps_nodes mh xs \<longleftrightarrow>
     (\<exists>hd. cells mh mappings = Some hd \<and> dll (cells mh) mappings (nxt hd) xs) \<and>
     distinct (mappings # map fst xs) \<and> (\<forall>a \<in> set (mappings # map fst xs). a < fresh mh)"

definition maps_rep :: "mapheap \<Rightarrow> variantMMap list \<Rightarrow> bool" where
  "maps_rep mh es \<longleftrightarrow> (\<exists>xs. maps_nodes mh xs \<and> es = map snd xs)"

text \<open>Deleting the first entry with an address.\<close>

fun delete_first :: "word64 \<Rightarrow> variantMMap list \<Rightarrow> variantMMap list" where
  "delete_first a [] = []"
| "delete_first a (e # es) = (if addr e = a then es else e # delete_first a es)"

lemma dll_upd [simp]: "b \<notin> fst ` set xs \<Longrightarrow> dll (h(b := v)) p c xs = dll h p c xs"
proof (induction xs arbitrary: p c)
  case (Cons x xs)
  then show ?case by (cases x) auto
qed simp

lemma initial_heap_rep: "maps_rep initial_heap []"
  by (auto simp: maps_rep_def maps_nodes_def initial_heap_def mappings_def dummy_def)

section \<open>The operations on the represented list\<close>

lemma last_node_dll:
  "h c = Some n \<Longrightarrow> dll h c (nxt n) xs \<Longrightarrow> last_node h c = Some (last (c # map fst xs))"
proof (induction xs arbitrary: c n)
  case Nil
  then show ?case by (simp add: last_node.simps)
next
  case (Cons x xs)
  obtain a e where x: "x = (a, e)" by (cases x)
  with Cons.prems obtain m where m: "nxt n = Some a" "h a = Some m" "dll h a (nxt m) xs"
    by auto
  then have "last_node h a = Some (last (a # map fst xs))"
    using Cons.IH by blast
  then show ?case
    using Cons.prems(1) m(1) x by (subst last_node.simps) simp
qed

lemma dll_snoc:
  assumes "h p = Some pn" and "dll h p (nxt pn) xs" and "distinct (p # map fst xs)"
    and "new \<notin> set (p # map fst xs)" and "z = last (p # map fst xs)" and "h z = Some zn"
    and "h2 = h(z \<mapsto> zn\<lparr>nxt := Some new\<rparr>, new \<mapsto> nn)" and "entry nn = e" and "prv nn = Some z"
    and "nxt nn = None"
  shows "\<exists>pn'. h2 p = Some pn' \<and> entry pn' = entry pn \<and> prv pn' = prv pn \<and>
               dll h2 p (nxt pn') (xs @ [(new, e)])"
  using assms
proof (induction xs arbitrary: p pn)
  case Nil
  then show ?case by auto
next
  case (Cons x xs)
  obtain a f where x: "x = (a, f)" by (cases x)
  with Cons.prems obtain m where m: "nxt pn = Some a" "h a = Some m" "entry m = f"
      "prv m = Some p" "dll h a (nxt m) xs"
    by auto
  have pz: "p \<noteq> z" and pnew: "p \<noteq> new"
    using Cons.prems(3,4,5) x last_in_set [of "map fst xs"] by (auto split: if_splits)
  have "\<exists>m'. h2 a = Some m' \<and> entry m' = entry m \<and> prv m' = prv m \<and>
             dll h2 a (nxt m') (xs @ [(new, e)])"
    by (rule Cons.IH [OF m(2,5)]) (use Cons.prems x in auto)
  with m pz pnew Cons.prems(1,7) x show ?case by auto
qed

fun del_node :: "word64 \<Rightarrow> (nat \<times> variantMMap) list \<Rightarrow> (nat \<times> variantMMap) list" where
  "del_node a [] = []"
| "del_node a ((b, e) # xs) = (if addr e = a then xs else (b, e) # del_node a xs)"

lemma map_snd_del_node: "map snd (del_node a xs) = delete_first a (map snd xs)"
  by (induction a xs rule: del_node.induct) auto

lemma set_del_node: "set (del_node a xs) \<subseteq> set xs"
  by (induction a xs rule: del_node.induct) auto

lemma distinct_del_node: "distinct (map fst xs) \<Longrightarrow> distinct (map fst (del_node a xs))"
proof (induction a xs rule: del_node.induct)
  case (2 a b e xs)
  have "fst ` set (del_node a xs) \<subseteq> fst ` set xs"
    using set_del_node by blast
  with 2 show ?case by auto
qed simp

lemma remove_from_absent:
  "dll h p c xs \<Longrightarrow> a \<notin> addr ` snd ` set xs \<Longrightarrow> remove_from a c h = Some (- 1, h)"
proof (induction xs arbitrary: p c)
  case Nil
  then show ?case by (simp add: remove_from.simps)
next
  case (Cons x xs)
  then show ?case by (cases x) (auto simp: remove_from.simps [of a "Some b" for b])
qed

lemma remove_from_present:
  assumes "h p = Some pn" and "dll h p (nxt pn) xs" and "distinct (p # map fst xs)"
    and "a \<in> addr ` snd ` set xs"
  shows "\<exists>h'. remove_from a (nxt pn) h = Some (0, h') \<and>
              (\<exists>pn'. h' p = Some pn' \<and> entry pn' = entry pn \<and> prv pn' = prv pn \<and>
                     dll h' p (nxt pn') (del_node a xs)) \<and>
              (\<forall>x. x \<notin> set (p # map fst xs) \<longrightarrow> h' x = h x)"
  using assms
proof (induction xs arbitrary: p pn)
  case Nil
  then show ?case by simp
next
  case (Cons x xs)
  obtain b e where x: "x = (b, e)" by (cases x)
  with Cons.prems obtain n where n: "nxt pn = Some b" "h b = Some n" "entry n = e"
      "prv n = Some p" "dll h b (nxt n) xs"
    by auto
  show ?case
  proof (cases "addr e = a")
    case True
    show ?thesis
    proof (cases xs)
      case Nil
      with n Cons.prems True x show ?thesis
        by (auto simp: remove_from.simps [of a "Some b"])
    next
      case (Cons y ys)
      obtain q f where y: "y = (q, f)" by (cases y)
      with n Cons obtain qn where "nxt n = Some q" "h q = Some qn" "entry qn = f"
          "prv qn = Some b" "dll h q (nxt qn) ys"
        by auto
      with n Cons.prems True x y Cons show ?thesis
        by (auto simp: remove_from.simps [of a "Some b"])
    qed
  next
    case False
    have "\<exists>h'. remove_from a (nxt n) h = Some (0, h') \<and>
              (\<exists>pn'. h' b = Some pn' \<and> entry pn' = entry n \<and> prv pn' = prv n \<and>
                     dll h' b (nxt pn') (del_node a xs)) \<and>
              (\<forall>x. x \<notin> set (b # map fst xs) \<longrightarrow> h' x = h x)"
      by (rule Cons.IH [OF n(2,5)]) (use Cons.prems x False in auto)
    with n False Cons.prems x show ?thesis
      by (auto simp: remove_from.simps [of a "Some b"])
  qed
qed

lemma find_from_dll:
  "dll h p c xs \<Longrightarrow>
   find_from t c h = Some (map_option fst (List.find (\<lambda>(b, e). covers e t) xs))"
proof (induction xs arbitrary: p c)
  case Nil
  then show ?case by (simp add: find_from.simps)
next
  case (Cons x xs)
  then show ?case by (cases x) (auto simp: find_from.simps [of t "Some b" for b])
qed

lemma dll_entry: "dll h p c xs \<Longrightarrow> (b, e) \<in> set xs \<Longrightarrow> \<exists>n. h b = Some n \<and> entry n = e"
  by (induction xs arbitrary: p c) auto

section \<open>Refinement of the represented list\<close>

lemma addMapping_nodes:
  assumes "maps_nodes mh xs"
  shows "\<exists>mh'. addMapping a l p f mh = Some mh' \<and>
     maps_nodes mh' (xs @ [(fresh mh, \<lparr>addr = a, len = l, prot = p, flags = f\<rparr>)])"
proof -
  let ?e = "\<lparr>addr = a, len = l, prot = p, flags = f\<rparr>"
  let ?nd = "\<lparr>entry = ?e, nxt = None, prv = None\<rparr>"
  let ?new = "fresh mh"
  let ?h = "(cells mh)(?new \<mapsto> ?nd)"
  obtain hd where hd: "cells mh mappings = Some hd" "dll (cells mh) mappings (nxt hd) xs"
    and dist: "distinct (mappings # map fst xs)"
    and bnd: "\<forall>a \<in> set (mappings # map fst xs). a < fresh mh"
    using assms by (auto simp: maps_nodes_def)
  have new: "?new \<notin> set (mappings # map fst xs)"
    using bnd by (meson less_irrefl)
  have h0: "?h mappings = Some hd" and dl: "dll ?h mappings (nxt hd) xs"
    using hd new by auto
  define z where "z = last (mappings # map fst xs)"
  have z: "last_node ?h mappings = Some z"
    unfolding z_def by (rule last_node_dll [OF h0 dl])
  have zin: "z \<in> set (mappings # map fst xs)"
    unfolding z_def by (rule last_in_set) simp
  have zn: "\<exists>zn. ?h z = Some zn"
  proof (cases "z = mappings")
    case True
    then show ?thesis using h0 by simp
  next
    case False
    then obtain e where "(z, e) \<in> set xs" using zin by auto
    then show ?thesis using dll_entry [OF dl] by blast
  qed
  then obtain zn where zn: "?h z = Some zn" by blast
  have znew: "z \<noteq> ?new" using zin new by auto
  let ?h2 = "?h(z \<mapsto> zn\<lparr>nxt := Some ?new\<rparr>, ?new \<mapsto> ?nd\<lparr>prv := Some z\<rparr>)"
  have "\<exists>pn'. ?h2 mappings = Some pn' \<and> entry pn' = entry hd \<and> prv pn' = prv hd \<and>
               dll ?h2 mappings (nxt pn') (xs @ [(?new, ?e)])"
    by (rule dll_snoc [OF h0 dl dist new z_def zn refl]) simp_all
  moreover have "addMapping a l p f mh = Some \<lparr>cells = ?h2, fresh = Suc ?new\<rparr>"
    using z zn znew by (simp add: addMapping_def Let_def)
  ultimately show ?thesis
    using dist new bnd by (auto simp: maps_nodes_def less_Suc_eq)
qed

lemma addMapping_rep:
  assumes "maps_rep mh es"
  shows "\<exists>mh'. addMapping a l p f mh = Some mh' \<and>
               maps_rep mh' (es @ [\<lparr>addr = a, len = l, prot = p, flags = f\<rparr>])"
proof -
  obtain xs where "maps_nodes mh xs" and es: "es = map snd xs"
    using assms by (auto simp: maps_rep_def)
  then obtain mh' where "addMapping a l p f mh = Some mh'"
      "maps_nodes mh' (xs @ [(fresh mh, \<lparr>addr = a, len = l, prot = p, flags = f\<rparr>)])"
    using addMapping_nodes by blast
  moreover have "es @ [\<lparr>addr = a, len = l, prot = p, flags = f\<rparr>] =
      map snd (xs @ [(fresh mh, \<lparr>addr = a, len = l, prot = p, flags = f\<rparr>)])"
    by (simp add: es)
  ultimately show ?thesis
    unfolding maps_rep_def by blast
qed

lemma removeMapping_rep:
  assumes "maps_rep mh es"
  shows "\<exists>mh'. removeMapping a mh = Some (if a \<in> addr ` set es then 0 else - 1, mh') \<and>
               maps_rep mh' (delete_first a es)"
proof -
  obtain xs hd where es: "es = map snd xs"
    and hd: "cells mh mappings = Some hd" "dll (cells mh) mappings (nxt hd) xs"
    and dist: "distinct (mappings # map fst xs)"
    and bnd: "\<forall>a \<in> set (mappings # map fst xs). a < fresh mh"
    using assms by (auto simp: maps_rep_def maps_nodes_def)
  show ?thesis
  proof (cases "a \<in> addr ` snd ` set xs")
    case False
    then have "delete_first a es = es"
      unfolding es by (induction xs) auto
    moreover have "removeMapping a mh = Some (- 1, mh)"
      using remove_from_absent [OF hd(2) False] hd(1) by (simp add: removeMapping_def)
    moreover have "a \<notin> addr ` set es"
      using False by (simp add: es)
    ultimately show ?thesis
      using assms by simp
  next
    case True
    obtain h' hd' where h': "remove_from a (nxt hd) (cells mh) = Some (0, h')"
        "h' mappings = Some hd'" "dll h' mappings (nxt hd') (del_node a xs)"
      using remove_from_present [OF hd dist True] by blast
    have sub: "fst ` set (del_node a xs) \<subseteq> fst ` set xs"
      using set_del_node [of a xs] by (rule image_mono)
    have "distinct (mappings # map fst (del_node a xs))"
      using dist sub distinct_del_node [of xs a] by auto
    moreover have "\<forall>b \<in> set (mappings # map fst (del_node a xs)). b < fresh mh"
      using bnd set_del_node [of a xs] by auto
    ultimately have "maps_nodes (mh\<lparr>cells := h'\<rparr>) (del_node a xs)"
      using h'(2,3) by (simp add: maps_nodes_def)
    then have "maps_rep (mh\<lparr>cells := h'\<rparr>) (delete_first a es)"
      unfolding maps_rep_def es map_snd_del_node [symmetric] by blast
    moreover have "removeMapping a mh = Some (0, mh\<lparr>cells := h'\<rparr>)"
      using h'(1) hd(1) by (simp add: removeMapping_def)
    moreover have "a \<in> addr ` set es"
      using True by (simp add: es)
    ultimately show ?thesis
      by simp
  qed
qed

text \<open>\<open>entry_at\<close> reads through the pointer that \<open>findMapping\<close> returns.\<close>

definition entry_at :: "mapheap \<Rightarrow> nat \<Rightarrow> variantMMap option" where
  "entry_at mh c = map_option entry (cells mh c)"

lemma findMapping_rep:
  assumes "maps_rep mh es"
  shows "\<exists>r. findMapping t mh = Some r \<and>
     (case r of None \<Rightarrow> List.find (\<lambda>e. covers e t) es = None
      | Some c \<Rightarrow> \<exists>e. entry_at mh c = Some e \<and> List.find (\<lambda>e. covers e t) es = Some e)"
proof -
  obtain xs hd where es: "es = map snd xs"
    and hd: "cells mh mappings = Some hd" "dll (cells mh) mappings (nxt hd) xs"
    using assms by (auto simp: maps_rep_def maps_nodes_def)
  have map_find: "List.find (\<lambda>e. covers e t) (map snd xs) =
      map_option snd (List.find (\<lambda>(b, e). covers e t) xs)"
    by (induction xs) auto
  show ?thesis
  proof (cases "List.find (\<lambda>(b, e). covers e t) xs")
    case None
    then show ?thesis
      using hd find_from_dll [OF hd(2), of t] map_find
      by (simp add: findMapping_def es)
  next
    case (Some be)
    obtain b e where be: "be = (b, e)" by (cases be)
    have "(b, e) \<in> set xs"
      using Some be by (auto simp: find_Some_iff in_set_conv_nth)
    then have "entry_at mh b = Some e"
      using dll_entry [OF hd(2)] by (auto simp: entry_at_def)
    then show ?thesis
      using hd find_from_dll [OF hd(2), of t] map_find Some be
      by (simp add: findMapping_def es)
  qed
qed

lemma print_from_dll: "dll h p c xs \<Longrightarrow> print_from k c h = Some (enumerate k (map snd xs))"
proof (induction xs arbitrary: p c k)
  case Nil
  then show ?case by (simp add: print_from.simps)
next
  case (Cons x xs)
  then show ?case by (cases x) (auto simp: print_from.simps [of k "Some b" for k b])
qed

lemma printMappings_rep: "maps_rep mh es \<Longrightarrow> printMappings mh = Some (enumerate 0 es)"
  by (auto simp: maps_rep_def maps_nodes_def printMappings_def print_from_dll)

section \<open>The interface to the executors\<close>

locale mapping_store =
  fixes rep :: "'h \<Rightarrow> variantMMap list \<Rightarrow> bool"
    and add :: "word64 \<Rightarrow> word64 \<Rightarrow> word32 \<Rightarrow> word32 \<Rightarrow> 'h \<Rightarrow> 'h option"
    and remove :: "word64 \<Rightarrow> 'h \<Rightarrow> (int \<times> 'h) option"
    and search :: "word64 \<Rightarrow> 'h \<Rightarrow> 'p option option"
    and deref :: "'h \<Rightarrow> 'p \<Rightarrow> variantMMap option"
    and print :: "'h \<Rightarrow> (nat \<times> variantMMap) list option"
  assumes add_rep: "rep h es \<Longrightarrow>
      \<exists>h'. add a l p f h = Some h' \<and> rep h' (es @ [\<lparr>addr = a, len = l, prot = p, flags = f\<rparr>])"
    and remove_rep: "rep h es \<Longrightarrow>
      \<exists>h'. remove a h = Some (if a \<in> addr ` set es then 0 else - 1, h') \<and>
           rep h' (delete_first a es)"
    and search_rep: "rep h es \<Longrightarrow> \<exists>r. search t h = Some r \<and>
      (case r of None \<Rightarrow> List.find (\<lambda>e. covers e t) es = None
       | Some c \<Rightarrow> \<exists>e. deref h c = Some e \<and> List.find (\<lambda>e. covers e t) es = Some e)"
    and print_rep: "rep h es \<Longrightarrow> print h = Some (enumerate 0 es)"
begin

text \<open>What a client reads through the pointer it gets is the first entry that covers.\<close>

lemma search_found:
  assumes "rep h es" and "List.find (\<lambda>e. covers e t) es = Some e"
  shows "\<exists>c. search t h = Some (Some c) \<and> deref h c = Some e"
proof -
  obtain r where r: "search t h = Some r" and
    c: "case r of None \<Rightarrow> List.find (\<lambda>e. covers e t) es = None
        | Some c \<Rightarrow> \<exists>e. deref h c = Some e \<and> List.find (\<lambda>e. covers e t) es = Some e"
    using search_rep [OF assms(1)] by blast
  show ?thesis using r c assms(2) by (cases r) auto
qed

lemma search_missing:
  assumes "rep h es" and "List.find (\<lambda>e. covers e t) es = None"
  shows "search t h = Some None"
proof -
  obtain r where r: "search t h = Some r" and
    c: "case r of None \<Rightarrow> List.find (\<lambda>e. covers e t) es = None
        | Some c \<Rightarrow> \<exists>e. deref h c = Some e \<and> List.find (\<lambda>e. covers e t) es = Some e"
    using search_rep [OF assms(1)] by blast
  show ?thesis using r c assms(2) by (cases r) auto
qed

text \<open>A new mapping is found at every address it covers that no older one covers.\<close>

lemma search_added:
  assumes "rep h es" and "List.find (\<lambda>e. covers e t) es = None"
    and "covers \<lparr>addr = a, len = l, prot = p, flags = f\<rparr> t"
  shows "\<exists>h' c. add a l p f h = Some h' \<and> search t h' = Some (Some c) \<and>
                deref h' c = Some \<lparr>addr = a, len = l, prot = p, flags = f\<rparr>"
proof -
  let ?e = "\<lparr>addr = a, len = l, prot = p, flags = f\<rparr>"
  obtain h' where "add a l p f h = Some h'" and h': "rep h' (es @ [?e])"
    using add_rep [OF assms(1)] by blast
  moreover have "List.find (\<lambda>e. covers e t) (es @ [?e]) = Some ?e"
    using assms(2,3) by (induction es) (auto split: if_splits)
  ultimately show ?thesis
    using search_found [OF h'] by blast
qed

text \<open>Adding a mapping at a new address and removing it again restores the list.\<close>

lemma add_remove:
  assumes "rep h es" and "a \<notin> addr ` set es"
  shows "\<exists>h1 h2. add a l p f h = Some h1 \<and> remove a h1 = Some (0, h2) \<and> rep h2 es"
proof -
  let ?e = "\<lparr>addr = a, len = l, prot = p, flags = f\<rparr>"
  obtain h1 where h1: "add a l p f h = Some h1" "rep h1 (es @ [?e])"
    using add_rep [OF assms(1)] by blast
  have "delete_first a (es @ [?e]) = es"
    using assms(2) by (induction es) auto
  then show ?thesis
    using h1 remove_rep [OF h1(2), of a] by auto
qed

end

interpretation maps: mapping_store maps_rep addMapping removeMapping findMapping entry_at printMappings
  by unfold_locales (fact addMapping_rep removeMapping_rep findMapping_rep printMappings_rep)+

end
