(* ===== verification/Syscalls.thy ===== *)
theory Syscalls
  imports Prelude
begin

text \<open>
  The x86-64 system call numbers of \<open>sys/syscall.h\<close> that the monitor names, and
  \<open>sys/syscall_util.h\<close>: the names it prints for them. The numbers are those of the
  machine that \<open>sys/reg.h\<close> (ORIG_RAX, RAX) fixes.
\<close>

abbreviation (input) SYS_read :: word64 where "SYS_read \<equiv> 0"
abbreviation (input) SYS_write :: word64 where "SYS_write \<equiv> 1"
abbreviation (input) SYS_close :: word64 where "SYS_close \<equiv> 3"
abbreviation (input) SYS_poll :: word64 where "SYS_poll \<equiv> 7"
abbreviation (input) SYS_lseek :: word64 where "SYS_lseek \<equiv> 8"
abbreviation (input) SYS_mmap :: word64 where "SYS_mmap \<equiv> 9"
abbreviation (input) SYS_mprotect :: word64 where "SYS_mprotect \<equiv> 10"
abbreviation (input) SYS_munmap :: word64 where "SYS_munmap \<equiv> 11"
abbreviation (input) SYS_brk :: word64 where "SYS_brk \<equiv> 12"
abbreviation (input) SYS_rt_sigaction :: word64 where "SYS_rt_sigaction \<equiv> 13"
abbreviation (input) SYS_rt_sigprocmask :: word64 where "SYS_rt_sigprocmask \<equiv> 14"
abbreviation (input) SYS_pread64 :: word64 where "SYS_pread64 \<equiv> 17"
abbreviation (input) SYS_access :: word64 where "SYS_access \<equiv> 21"
abbreviation (input) SYS_getpid :: word64 where "SYS_getpid \<equiv> 39"
abbreviation (input) SYS_socket :: word64 where "SYS_socket \<equiv> 41"
abbreviation (input) SYS_shutdown :: word64 where "SYS_shutdown \<equiv> 48"
abbreviation (input) SYS_bind :: word64 where "SYS_bind \<equiv> 49"
abbreviation (input) SYS_listen :: word64 where "SYS_listen \<equiv> 50"
abbreviation (input) SYS_getsockname :: word64 where "SYS_getsockname \<equiv> 51"
abbreviation (input) SYS_setsockopt :: word64 where "SYS_setsockopt \<equiv> 54"
abbreviation (input) SYS_execve :: word64 where "SYS_execve \<equiv> 59"
abbreviation (input) SYS_getcwd :: word64 where "SYS_getcwd \<equiv> 79"
abbreviation (input) SYS_chdir :: word64 where "SYS_chdir \<equiv> 80"
abbreviation (input) SYS_unlink :: word64 where "SYS_unlink \<equiv> 87"
abbreviation (input) SYS_fchmod :: word64 where "SYS_fchmod \<equiv> 91"
abbreviation (input) SYS_fchown :: word64 where "SYS_fchown \<equiv> 93"
abbreviation (input) SYS_getuid :: word64 where "SYS_getuid \<equiv> 102"
abbreviation (input) SYS_getgid :: word64 where "SYS_getgid \<equiv> 104"
abbreviation (input) SYS_geteuid :: word64 where "SYS_geteuid \<equiv> 107"
abbreviation (input) SYS_getegid :: word64 where "SYS_getegid \<equiv> 108"
abbreviation (input) SYS_arch_prctl :: word64 where "SYS_arch_prctl \<equiv> 158"
abbreviation (input) SYS_set_tid_address :: word64 where "SYS_set_tid_address \<equiv> 218"
abbreviation (input) SYS_fadvise64 :: word64 where "SYS_fadvise64 \<equiv> 221"
abbreviation (input) SYS_exit_group :: word64 where "SYS_exit_group \<equiv> 231"
abbreviation (input) SYS_openat :: word64 where "SYS_openat \<equiv> 257"
abbreviation (input) SYS_newfstatat :: word64 where "SYS_newfstatat \<equiv> 262"
abbreviation (input) SYS_pselect6 :: word64 where "SYS_pselect6 \<equiv> 270"
abbreviation (input) SYS_set_robust_list :: word64 where "SYS_set_robust_list \<equiv> 273"
abbreviation (input) SYS_utimensat :: word64 where "SYS_utimensat \<equiv> 280"
abbreviation (input) SYS_accept4 :: word64 where "SYS_accept4 \<equiv> 288"
abbreviation (input) SYS_prlimit64 :: word64 where "SYS_prlimit64 \<equiv> 302"
abbreviation (input) SYS_getrandom :: word64 where "SYS_getrandom \<equiv> 318"
abbreviation (input) SYS_statx :: word64 where "SYS_statx \<equiv> 332"
abbreviation (input) SYS_rseq :: word64 where "SYS_rseq \<equiv> 334"

text \<open>The cases of the switch of \<open>getSyscallName\<close>, in its order.\<close>

definition syscall_names :: "(word64 \<times> string) list" where
  "syscall_names =
    [(SYS_read, ''read''), (SYS_close, ''close''), (SYS_mmap, ''mmap''),
     (SYS_mprotect, ''mprotect''), (SYS_brk, ''brk''), (SYS_access, ''access''),
     (SYS_execve, ''execve''), (SYS_arch_prctl, ''arch_prctl''),
     (SYS_set_tid_address, ''set_tid_address''), (SYS_fadvise64, ''fadvise64''),
     (SYS_openat, ''openat''), (SYS_newfstatat, ''newfstatat''),
     (SYS_set_robust_list, ''set_robust_list''), (SYS_prlimit64, ''prlimit64''),
     (SYS_getrandom, ''getrandom''), (SYS_statx, ''statx''), (SYS_rseq, ''rseq''),
     (SYS_exit_group, ''exit_group''), (SYS_munmap, ''munmap''), (SYS_write, ''write''),
     (SYS_pread64, ''pread64''), (SYS_rt_sigaction, ''rt_sigaction''),
     (SYS_rt_sigprocmask, ''rt_sigprocmask''), (SYS_utimensat, ''utimensat''),
     (SYS_unlink, ''unlink''), (SYS_fchown, ''fchown''), (SYS_fchmod, ''fchmod''),
     (SYS_getuid, ''getuid''), (SYS_geteuid, ''geteuid''), (SYS_getgid, ''getgid''),
     (SYS_getegid, ''getegid''), (SYS_lseek, ''lseek''), (SYS_getcwd, ''getcwd''),
     (SYS_getpid, ''getpid''), (SYS_chdir, ''chdir''), (SYS_socket, ''socket''),
     (SYS_setsockopt, ''setsockopt''), (SYS_bind, ''bind''), (SYS_listen, ''listen''),
     (SYS_accept4, ''accept4''), (SYS_poll, ''poll''), (SYS_shutdown, ''shutdown''),
     (SYS_getsockname, ''getsockname''), (SYS_pselect6, ''pselect6'')]"

definition getSyscallName :: "word64 \<Rightarrow> string" where
  "getSyscallName n =
     (case map_of syscall_names n of Some name \<Rightarrow> name | None \<Rightarrow> ''unknown'')"

end
