(* ===== verification/Variant.thy ===== *)
theory Variant
  imports Ptrace Mappings Syscalls
begin

text \<open>
  \<open>variant.h\<close> and the control half of \<open>variant.c\<close>: the state of the monitor process, the
  creation of a variant, waiting for it, resuming it, and the two ways of running one system
  call in both variants. Each operation takes the pointers to its variants and the state.
  First the state and the operations, then, for every operation, what it does to the
  observables the later theories reason about.
\<close>

section \<open>The state of the monitor\<close>

text \<open>
  The two \<open>variant\<close> variables of \<open>main\<close>; a \<open>variant *\<close> is one of their addresses.
\<close>

datatype vptr = Vmaster | Vreplica

instantiation vptr :: enum
begin

definition enum_vptr_def: "enum_class.enum = [Vmaster, Vreplica]"
definition enum_all_vptr_def: "enum_class.enum_all P \<longleftrightarrow> P Vmaster \<and> P Vreplica"
definition enum_ex_vptr_def: "enum_class.enum_ex P \<longleftrightarrow> P Vmaster \<or> P Vreplica"

instance
proof
  show "(UNIV :: vptr set) = set enum_class.enum"
    by (auto simp: enum_vptr_def intro: vptr.exhaust)
  show "distinct (enum_class.enum :: vptr list)"
    by (simp add: enum_vptr_def)
  fix P :: "vptr \<Rightarrow> bool"
  show "enum_class.enum_all P \<longleftrightarrow> Ball UNIV P"
    by (simp add: enum_all_vptr_def) (metis vptr.exhaust)
  show "enum_class.enum_ex P \<longleftrightarrow> Bex UNIV P"
    by (simp add: enum_ex_vptr_def) (metis vptr.exhaust)
qed

end

lemma vptr_all: "(\<forall>v. P v) \<longleftrightarrow> P Vmaster \<and> P Vreplica"
  by (metis vptr.exhaust)

abbreviation (input) VSTATE_RUNNING :: int where "VSTATE_RUNNING \<equiv> 0"
abbreviation (input) VSTATE_WAIT :: int where "VSTATE_WAIT \<equiv> 1"
abbreviation (input) VTYPE_master :: int where "VTYPE_master \<equiv> 1"
abbreviation (input) VTYPE_replica :: int where "VTYPE_replica \<equiv> 0"

record variant =
  pid :: int
  state :: int
  vtype :: int
  syscallNum :: word64
  syscallInfo :: ptrace_syscall_info

text \<open>
  The whole state: the tracees by pid and the rest of the outside world; the variants; the
  global buffers of \<open>variant.c\<close> and \<open>newfstatat.c\<close>; the list of mappings.
\<close>

record 'k mvee =
  procs :: "int \<Rightarrow> proc"
  world :: 'k
  vars :: "vptr \<Rightarrow> variant"
  bufA :: buffer
  bufB :: buffer
  newfstatat_bufA :: buffer
  newfstatat_bufB :: buffer
  mmaps :: mapheap

definition proc_of :: "'k mvee \<Rightarrow> vptr \<Rightarrow> proc" where
  "proc_of s v = procs s (pid (vars s v))"

definition upd_proc :: "vptr \<Rightarrow> (proc \<Rightarrow> proc) \<Rightarrow> 'k mvee \<Rightarrow> 'k mvee" where
  "upd_proc v f s = s\<lparr>procs := (procs s)(pid (vars s v) := f (proc_of s v))\<rparr>"

definition upd_var :: "vptr \<Rightarrow> (variant \<Rightarrow> variant) \<Rightarrow> 'k mvee \<Rightarrow> 'k mvee" where
  "upd_var v f s = s\<lparr>vars := (vars s)(v := f (vars s v))\<rparr>"

text \<open>\<open>v->syscallInfo.entry.args[n]\<close>, \<open>.entry.nr\<close> and \<open>.exit.rval\<close>.\<close>

definition arg :: "'k mvee \<Rightarrow> vptr \<Rightarrow> nat \<Rightarrow> word64" where
  "arg s v n = entry_args (syscallInfo (vars s v)) n"

definition nr :: "'k mvee \<Rightarrow> vptr \<Rightarrow> word64" where
  "nr s v = entry_nr (syscallInfo (vars s v))"

definition rval :: "'k mvee \<Rightarrow> vptr \<Rightarrow> word64" where
  "rval s v = exit_rval (syscallInfo (vars s v))"

section \<open>Creating a variant\<close>

text \<open>
  The child branch of \<open>createVariant\<close>: pinning to the core may fail; \<open>execvpe\<close> either stops
  the traced child in the new image or returns and the child exits. \<open>affinity_ok\<close> and the
  image \<open>execvpe\<close> loads (None when it fails) are the outcomes of these calls.
\<close>

definition child_start :: "bool \<Rightarrow> proc option \<Rightarrow> proc \<Rightarrow> proc" where
  "child_start affinity_ok img child =
     (if \<not> affinity_ok then child\<lparr>ps := Exited 1\<rparr>
      else (case img of
              Some p \<Rightarrow> p\<lparr>ps := SignalStop 5, opts := 0\<rparr>
            | None \<Rightarrow> child\<lparr>ps := Exited 1\<rparr>))"

text \<open>
  In the parent: \<open>fork\<close> returns the pid (a parameter, with the child it creates), which is
  stored in \<open>v->pid\<close>. That \<open>fork\<close> fails is not a case of the model.
\<close>

definition createVariant ::
    "vptr \<Rightarrow> int \<Rightarrow> proc \<Rightarrow> bool \<Rightarrow> proc option \<Rightarrow> 'k mvee \<Rightarrow> 'k mvee" where
  "createVariant v fork_pid child affinity_ok img s =
     upd_var v (\<lambda>x. x\<lparr>pid := fork_pid\<rparr>)
       (s\<lparr>procs := (procs s)(fork_pid := child_start affinity_ok img child)\<rparr>)"

definition configureChildProc :: "vptr \<Rightarrow> 'k mvee \<Rightarrow> 'k mvee" where
  "configureChildProc v s =
     (let s = upd_proc v (\<lambda>p. setoptions p PTRACE_O_EXITKILL) s;
          s = upd_proc v (\<lambda>p. setoptions p PTRACE_O_TRACESYSGOOD) s
      in s)"

definition initVariant ::
    "vptr \<Rightarrow> int \<Rightarrow> int \<Rightarrow> proc \<Rightarrow> bool \<Rightarrow> proc option \<Rightarrow> 'k mvee \<Rightarrow> 'k mvee" where
  "initVariant v vt fork_pid child affinity_ok img s =
     (let s = upd_var v (\<lambda>x. x\<lparr>syscallNum := 0\<rparr>) s;
          s = upd_var v (\<lambda>x. x\<lparr>vtype := vt\<rparr>) s;
          s = createVariant v fork_pid child affinity_ok img s;
          s = configureChildProc v s
      in s)"

section \<open>Waiting and resuming\<close>

text \<open>
  \<open>waitpid(v->pid, &status, __WALL)\<close>: a running tracee runs to its next stop; one whose stop
  has been reported already does not change state any more, and the call never returns. For
  one whose end has been reported the real call fails with \<open>ECHILD\<close> and leaves \<open>status\<close>
  undefined, which is no value either; no executor waits for such a tracee.
\<close>

definition waitpid :: "'k env \<Rightarrow> vptr \<Rightarrow> 'k mvee \<Rightarrow> (word32 \<times> 'k mvee) option" where
  "waitpid run v s =
     (if is_running (ps (proc_of s v))
      then (let (k, p) = run (world s) (pid (vars s v)) (proc_of s v)
            in Some (wait_status p, upd_proc v (\<lambda>_. p) (s\<lparr>world := k\<rparr>)))
      else None)"

definition checkVariantExit :: "word32 \<Rightarrow> int" where
  "checkVariantExit status =
     (if WIFEXITED status then - 1 else if WIFSIGNALED status then - 1 else 0)"

definition waitVariant :: "'k env \<Rightarrow> vptr \<Rightarrow> 'k mvee \<Rightarrow> (int \<times> 'k mvee) option" where
  "waitVariant run v s = do {
     (status, s) \<leftarrow> waitpid run v s;
     Some (checkVariantExit status, s)
   }"

definition resumeVariantFromWait :: "vptr \<Rightarrow> 'k mvee \<Rightarrow> 'k mvee" where
  "resumeVariantFromWait v s =
     upd_var v (\<lambda>x. x\<lparr>state := VSTATE_RUNNING\<rparr>) (upd_proc v ptrace_syscall s)"

definition resumeVariantFromExit :: "vptr \<Rightarrow> 'k mvee \<Rightarrow> 'k mvee" where
  "resumeVariantFromExit v s =
     upd_var v (\<lambda>x. x\<lparr>syscallNum := syscallNum x + 1\<rparr>) (upd_proc v ptrace_syscall s)"

definition requestSyscallInfo :: "vptr \<Rightarrow> 'k mvee \<Rightarrow> 'k mvee" where
  "requestSyscallInfo v s =
     upd_var v (\<lambda>x. x\<lparr>syscallInfo := get_syscall_info (proc_of s v)\<rparr>) s"



definition setSyscall :: "vptr \<Rightarrow> word64 \<Rightarrow> 'k mvee \<Rightarrow> 'k mvee" where
  "setSyscall v call = upd_proc v (\<lambda>p. pokeuser p (8 * 15) call)"

definition setNopSyscall :: "vptr \<Rightarrow> 'k mvee \<Rightarrow> 'k mvee" where
  "setNopSyscall v = setSyscall v SYS_getpid"

definition setSyscallReturnValue :: "vptr \<Rightarrow> word64 \<Rightarrow> 'k mvee \<Rightarrow> 'k mvee" where
  "setSyscallReturnValue v r = upd_proc v (\<lambda>p. pokeuser p (8 * 10) r)"

text \<open>
  The line \<open>printSyscallDebug\<close> writes for every stop: whether the variant is the master, and
  the number and name of the call, or its result.
\<close>

datatype debug_line = Debug_ENT bool word64 string | Debug_EXIT bool int

definition printSyscallDebug :: "variant \<Rightarrow> debug_line" where
  "printSyscallDebug v =
     (let isEntry = (si_op (syscallInfo v) = PTRACE_SYSCALL_INFO_ENTRY)
      in if isEntry
         then Debug_ENT (vtype v = VTYPE_master) (entry_nr (syscallInfo v))
                (getSyscallName (entry_nr (syscallInfo v)))
         else Debug_EXIT (vtype v = VTYPE_master) (sint (exit_rval (syscallInfo v))))"

section \<open>One system call in both variants\<close>

definition runMasterReplicateRet ::
    "'k env \<Rightarrow> vptr \<Rightarrow> vptr \<Rightarrow> 'k mvee \<Rightarrow> (int \<times> 'k mvee) option" where
  "runMasterReplicateRet run master replica s = do {
     let s = resumeVariantFromWait master s;
     (r, s) \<leftarrow> waitVariant run master s;
     if r \<noteq> 0 then Some (- 1, s) else do {
       let s = requestSyscallInfo master s;
       let masterRVal = sext32 (rval s master);
       let s = setNopSyscall replica s;
       let s = resumeVariantFromWait replica s;
       (r, s) \<leftarrow> waitVariant run replica s;
       if r \<noteq> 0 then Some (- 1, s) else do {
         let s = setSyscallReturnValue replica masterRVal s;
         let s = resumeVariantFromExit master s;
         let s = resumeVariantFromExit replica s;
         Some (0, s)
       }
     }
   }"

definition runBothCopyMasterRet ::
    "'k env \<Rightarrow> vptr \<Rightarrow> vptr \<Rightarrow> 'k mvee \<Rightarrow> (int \<times> 'k mvee) option" where
  "runBothCopyMasterRet run master replica s = do {
     let s = resumeVariantFromWait master s;
     (r, s) \<leftarrow> waitVariant run master s;
     if r \<noteq> 0 then Some (- 1, s) else do {
       let s = requestSyscallInfo master s;
       let masterRVal = sext32 (rval s master);
       let s = resumeVariantFromWait replica s;
       (r, s) \<leftarrow> waitVariant run replica s;
       if r \<noteq> 0 then Some (- 1, s) else do {
         let s = setSyscallReturnValue replica masterRVal s;
         let s = resumeVariantFromExit master s;
         let s = resumeVariantFromExit replica s;
         Some (0, s)
       }
     }
   }"

section \<open>What the operations do to the observables\<close>

text \<open>The two variants are different processes.\<close>

definition pids_ok :: "'k mvee \<Rightarrow> bool" where
  "pids_ok s \<longleftrightarrow> pid (vars s Vmaster) \<noteq> pid (vars s Vreplica)"

lemma pid_inj: "pids_ok s \<Longrightarrow> pid (vars s v) = pid (vars s w) \<longleftrightarrow> v = w"
  by (cases v; cases w) (auto simp: pids_ok_def)

lemma upd_proc_sel [simp, frame_simps]:
  "vars (upd_proc v f s) = vars s" "world (upd_proc v f s) = world s"
  "bufA (upd_proc v f s) = bufA s" "bufB (upd_proc v f s) = bufB s"
  "newfstatat_bufA (upd_proc v f s) = newfstatat_bufA s"
  "newfstatat_bufB (upd_proc v f s) = newfstatat_bufB s" "mmaps (upd_proc v f s) = mmaps s"
  by (simp_all add: upd_proc_def)

lemma upd_var_sel [simp, frame_simps]:
  "procs (upd_var v f s) = procs s" "world (upd_var v f s) = world s"
  "bufA (upd_var v f s) = bufA s" "bufB (upd_var v f s) = bufB s"
  "newfstatat_bufA (upd_var v f s) = newfstatat_bufA s"
  "newfstatat_bufB (upd_var v f s) = newfstatat_bufB s" "mmaps (upd_var v f s) = mmaps s"
  "vars (upd_var v f s) w = (if w = v then f (vars s v) else vars s w)"
  by (simp_all add: upd_var_def)

lemma proc_of_upd_proc [simp]:
  "pids_ok s \<Longrightarrow> proc_of (upd_proc v f s) w = (if w = v then f (proc_of s v) else proc_of s w)"
  by (simp add: proc_of_def upd_proc_def pid_inj)

lemma proc_of_upd_var [simp]:
  "pid (f (vars s v)) = pid (vars s v) \<Longrightarrow> proc_of (upd_var v f s) w = proc_of s w"
  by (simp add: proc_of_def)

lemma proc_of_world [simp]: "proc_of (s\<lparr>world := k\<rparr>) v = proc_of s v"
  by (simp add: proc_of_def)

lemma pids_ok_world [simp]: "pids_ok (s\<lparr>world := k\<rparr>) = pids_ok s"
  by (simp add: pids_ok_def)

lemma pids_ok_upd_proc [simp]: "pids_ok (upd_proc v f s) = pids_ok s"
  by (simp add: pids_ok_def)

lemma pids_ok_upd_var [simp]:
  "pid (f (vars s v)) = pid (vars s v) \<Longrightarrow> pids_ok (upd_var v f s) = pids_ok s"
  by (cases v) (auto simp: pids_ok_def)

lemmas ctl_defs = resumeVariantFromWait_def resumeVariantFromExit_def requestSyscallInfo_def
  setSyscall_def setNopSyscall_def setSyscallReturnValue_def

text \<open>\<open>checkVariantExit\<close> on the statuses that \<open>waitpid\<close> reports.\<close>

lemma push8_mask: "push_bit 8 (x :: word32) AND 0x7f = 0"
proof -
  have "push_bit 8 x AND mask 7 = 0"
    by (rule bit_word_eqI) (auto simp: bit_simps)
  then show ?thesis by (simp add: mask_eq_exp_minus_1)
qed

lemma push8_or_mask: "(push_bit 8 (x :: word32) OR 0x7f) AND 0x7f = 0x7f"
  using push8_mask [of x] by (simp add: word_bw_comms word_ao_dist bit.conj_disj_distrib2)

lemma check_exited: "ps p = Exited c \<Longrightarrow> checkVariantExit (wait_status p) = - 1"
  by (simp add: checkVariantExit_def WIFEXITED_def WTERMSIG_def wait_status_def push8_mask)

lemma check_stop:
  "is_stop (ps p) \<Longrightarrow> checkVariantExit (wait_status p) = 0"
  by (cases "ps p")
    (simp_all add: checkVariantExit_def WIFEXITED_def WTERMSIG_def WIFSIGNALED_def wait_status_def
      push8_or_mask)

lemma sint_byte_small:
  assumes "(w :: byte) < 128"
  shows "sint w = uint w"
proof -
  have "uint w < 2 ^ 7"
    using assms by (simp add: word_less_def)
  then have "signed_take_bit 7 (uint w) = uint w"
    by (intro signed_take_bit_int_eq_self) (simp_all add: order_trans [OF _ uint_ge_0])
  then show ?thesis
    by (simp add: sint_uint)
qed

lemma check_killed:
  assumes "ps p = Killed g" and "0 < g" and "g < 0x7f"
  shows "checkVariantExit (wait_status p) = - 1"
proof -
  have g: "0 < unat g" "unat g < 127"
    using assms(2,3) by (simp_all add: word_less_nat_alt)
  have u: "unat (ucast g :: word32) = unat g"
    using g by (simp add: unsigned_ucast_eq take_bit_nat_eq_self)
  then have "(ucast g AND mask 7 :: word32) = ucast g"
    using g by (intro less_mask_eq) (simp add: word_less_nat_alt)
  then have m: "(ucast g AND 0x7f :: word32) = ucast g"
    by (simp add: mask_eq_exp_minus_1)
  have "unat (ucast g + 1 :: word32) = unat g + 1"
    using g u by (simp add: unat_word_ariths)
  then have c: "unat (ucast (ucast g + 1 :: word32) :: byte) = unat g + 1"
    using g by (simp add: unsigned_ucast_eq take_bit_nat_eq_self)
  then have "sint (ucast (ucast g + 1 :: word32) :: byte) = uint (ucast (ucast g + 1 :: word32) :: byte)"
    using g by (intro sint_byte_small) (simp add: word_less_nat_alt)
  also have "\<dots> = uint g + 1"
    using arg_cong [OF c, of int] by simp
  finally have "sint (ucast (ucast g + 1 :: word32) :: byte) = uint g + 1" .
  moreover have "0 < (uint g + 1) div 2"
    using assms(2) unfolding word_less_def by simp
  ultimately show ?thesis
    using g assms(1)
    by (simp add: checkVariantExit_def WIFEXITED_def WTERMSIG_def WIFSIGNALED_def wait_status_def m)
qed

lemma check_after:
  "after_syscall (ps p) \<or> after_user (ps p) \<Longrightarrow>
   checkVariantExit (wait_status p) = (if is_dead (ps p) then - 1 else 0)"
  by (cases "ps p") (auto simp: check_exited check_stop check_killed)

lemma checkVariantExit_range: "checkVariantExit st \<in> {0, - 1}"
  by (simp add: checkVariantExit_def)

text \<open>
  What a wait gives: the new process image, at whatever stop \<open>run\<close> says, and nothing else
  changed. Under the alternation of stops a wait in a system call that does not find the
  tracee dead finds it at the exit stop.
\<close>

lemma waitVariant_Some:
  "waitVariant run v s = Some (r, s') \<longleftrightarrow>
   is_running (ps (proc_of s v)) \<and>
   (\<exists>k p. run (world s) (pid (vars s v)) (proc_of s v) = (k, p) \<and>
      r = checkVariantExit (wait_status p) \<and> s' = upd_proc v (\<lambda>_. p) (s\<lparr>world := k\<rparr>))"
  by (auto simp: waitVariant_def waitpid_def bindE split: prod.splits if_splits)

lemma waitVariant_None:
  "waitVariant run v s = None \<longleftrightarrow> \<not> is_running (ps (proc_of s v))"
  by (auto simp: waitVariant_def waitpid_def split: prod.splits)

lemma run_exit_stop:
  assumes "ptrace_alternates run" and "run k i q = (k', p)" and "ps q = InSyscall"
    and "checkVariantExit (wait_status p) = 0"
  shows "ps p = ExitStop"
proof -
  have "after_syscall (ps p)"
    using assms(1-3) unfolding ptrace_alternates_def by (metis snd_conv)
  with assms(4) check_after [of p] show ?thesis
    by (cases "ps p") auto
qed

end
