(* ===== verification/VariantMem.thy ===== *)
theory VariantMem
  imports Variant
begin

text \<open>
  The memory half of \<open>variant.c\<close>, as compiled with \<open>USE_PTRACE_TRANSFER\<close>
  (\<open>compile_options.h\<close>): reading and writing a variant's memory a word at a time, the
  transfer between variants through \<open>bufA\<close>, and the comparison of strings and of memory
  through \<open>bufA\<close> and \<open>bufB\<close>. Sizes are \<open>size_t\<close> and \<open>ssize_t\<close> values of 64 bits.
  After the definitions: what the loops read and write, byte by byte.
\<close>

definition BUF_SIZE :: word64 where
  "BUF_SIZE = 10000000"

section \<open>Reading and writing\<close>

text \<open>
  The loop of \<open>readVariantMem\<close>; \<open>pk\<close> is \<open>PTRACE_PEEKDATA\<close> on the variant. Every round
  stores a whole long into the local buffer.
\<close>

function read_loop ::
    "(word64 \<Rightarrow> word64) \<Rightarrow> word64 \<Rightarrow> buffer \<Rightarrow> word64 \<Rightarrow> word64 \<Rightarrow> word64 \<times> buffer" where
  "read_loop pk remoteBuf localBuf bytesRemaining bytesTransferred =
     (if bytesRemaining > 0 then
        let bytesToTransfer = (if bytesRemaining > 8 then 8 else bytesRemaining);
            localBuf = local_store localBuf (8 * unat (bytesTransferred div 8))
                         (pk (remoteBuf + bytesTransferred))
        in read_loop pk remoteBuf localBuf (bytesRemaining - bytesToTransfer)
             (bytesTransferred + bytesToTransfer)
      else (bytesTransferred, localBuf))"
  by pat_completeness auto
termination
  by (relation "measure (\<lambda>(pk, rb, lb, rem, tr). unat rem)")
    (auto simp: unat_sub word_le_nat_alt word_less_nat_alt)

declare read_loop.simps [simp del]

definition read_mem ::
    "(word64 \<Rightarrow> word64) \<Rightarrow> buffer \<Rightarrow> word64 \<Rightarrow> word64 \<Rightarrow> word64 \<times> buffer" where
  "read_mem pk localBuf remoteBuf sz =
     (if sz > BUF_SIZE then (- 1, localBuf) else read_loop pk remoteBuf localBuf sz 0)"

definition readVariantMem ::
    "vptr \<Rightarrow> buffer \<Rightarrow> word64 \<Rightarrow> word64 \<Rightarrow> 'k mvee \<Rightarrow> word64 \<times> buffer" where
  "readVariantMem v localBuf remoteBuf sz s =
     read_mem (peekdata (proc_of s v)) localBuf remoteBuf sz"

text \<open>
  The loop of \<open>writeVariantMem\<close> on the traced process. The first comparison is signed, the
  second one is not (\<open>ssize_t\<close> against \<open>size_t\<close>).
\<close>

function write_loop ::
    "buffer \<Rightarrow> word64 \<Rightarrow> word64 \<Rightarrow> word64 \<Rightarrow> word64 \<Rightarrow> proc \<Rightarrow> word64 \<times> proc" where
  "write_loop localBuf remoteBuf sz bytesRemaining bytesTransferred p =
     (if 0 <s bytesRemaining then
        if bytesRemaining \<ge> 8 then
          write_loop localBuf remoteBuf sz (bytesRemaining - 8) (bytesTransferred + 8)
            (pokedata p (remoteBuf + bytesTransferred)
              (local_load localBuf (8 * unat (bytesTransferred div 8))))
        else
          write_loop localBuf remoteBuf sz 0 (bytesTransferred + bytesRemaining)
            (pokedata p (remoteBuf + sz - 8) (local_load localBuf (8 * unat (sz - 8))))
      else (bytesTransferred, p))"
  by pat_completeness auto
termination
proof (relation "measure (\<lambda>(lb, rb, sz, rem, tr, p). unat rem)")
  show "wf (measure (\<lambda>(lb :: buffer, rb :: word64, sz :: word64, rem :: word64, tr :: word64,
      p :: proc). unat rem))"
    by simp
next
  fix lb rb sz rem tr p
  assume "0 <s (rem :: word64)"
  then have "rem \<noteq> 0" by auto
  then show "((lb, rb, sz, 0, tr + rem,
        pokedata p (rb + sz - 8) (local_load lb (8 * unat (sz - 8)))), lb, rb, sz, rem, tr, p)
      \<in> measure (\<lambda>(lb, rb, sz, rem, tr, p). unat rem)"
    by (simp add: unat_gt_0)
qed (auto simp: unat_sub word_le_nat_alt)

declare write_loop.simps [simp del]

text \<open>\<open>memcpy(&data, localBuf, sz)\<close> over the long \<open>data\<close>, for \<open>sz < 8\<close>.\<close>

definition memcpy_long :: "word64 \<Rightarrow> buffer \<Rightarrow> nat \<Rightarrow> word64" where
  "memcpy_long d localBuf n =
     word_of_bytes (map (\<lambda>i. if i < n then localBuf i else byte_of d i) [0..<8])"

definition write_proc :: "buffer \<Rightarrow> word64 \<Rightarrow> word64 \<Rightarrow> proc \<Rightarrow> word64 \<times> proc" where
  "write_proc localBuf remoteBuf sz p =
     (if sz < 8 then
        let d = peekdata p remoteBuf;
            d = memcpy_long d localBuf (unat sz)
        in (sz, pokedata p remoteBuf d)
      else write_loop localBuf remoteBuf sz sz 0 p)"

definition writeVariantMem ::
    "vptr \<Rightarrow> buffer \<Rightarrow> word64 \<Rightarrow> word64 \<Rightarrow> 'k mvee \<Rightarrow> word64 \<times> 'k mvee" where
  "writeVariantMem v localBuf remoteBuf sz s =
     (let (w, p) = write_proc localBuf remoteBuf sz (proc_of s v)
      in (w, upd_proc v (\<lambda>_. p) s))"

definition transferVariantMem ::
    "vptr \<Rightarrow> word64 \<Rightarrow> vptr \<Rightarrow> word64 \<Rightarrow> word64 \<Rightarrow> 'k mvee \<Rightarrow> int \<times> 'k mvee" where
  "transferVariantMem sourceV sourceVBuf destV destVBuf sz s =
     (if sz > BUF_SIZE then (- 1, s)
      else
        let (r, b) = readVariantMem sourceV (bufA s) sourceVBuf sz s;
            s = s\<lparr>bufA := b\<rparr>
        in if r \<noteq> sz then (- 1, s)
           else
             let (w, s) = writeVariantMem destV (bufA s) destVBuf sz s
             in if w \<noteq> sz then (- 1, s) else (0, s))"

section \<open>Comparing\<close>

text \<open>
  The loop of \<open>variantStrCmp\<close>. It gives the buffer and either the value returned from inside
  the loop (Inl) or the \<open>curSize\<close> and \<open>stringLen\<close> with which the loop ends (Inr).
\<close>

function strcmp_loop ::
    "(word64 \<Rightarrow> word64) \<Rightarrow> word64 \<Rightarrow> buffer \<Rightarrow> word64 \<Rightarrow> word64 \<Rightarrow>
     buffer \<times> (int + word64 \<times> word64)" where
  "strcmp_loop pk v1Buf b curSize stringLen =
     (if curSize < BUF_SIZE then
        let b = snd (read_mem pk b v1Buf curSize);
            stringLen = of_nat (strnlen b (unat curSize))
        in if stringLen = BUF_SIZE then (b, Inl (- 1))
           else if stringLen \<noteq> curSize then (b, Inl (- 1))
           else strcmp_loop pk v1Buf b (curSize + 100) stringLen
      else (b, Inr (curSize, stringLen)))"
  by pat_completeness auto
termination
proof (relation "measure (\<lambda>(pk, a, b, cs, sl). unat (BUF_SIZE + 100) - unat cs)", goal_cases)
  case (2 pk v1Buf b cs sl x xa)
  then have "unat cs < 10000000"
    by (simp add: BUF_SIZE_def word_less_nat_alt)
  moreover from this have "unat (cs + 100) = unat cs + 100"
    by (simp add: unat_word_ariths)
  ultimately show ?case
    by (simp add: BUF_SIZE_def)
qed simp

declare strcmp_loop.simps [simp del]

text \<open>
  \<open>stringLen\<close> is not initialised before the loop; the loop is entered at least once, which
  assigns it.
\<close>

definition variantStrCmp :: "vptr \<Rightarrow> word64 \<Rightarrow> vptr \<Rightarrow> word64 \<Rightarrow> 'k mvee \<Rightarrow> int \<times> 'k mvee" where
  "variantStrCmp v1 v1Buf v2 v2Buf s =
     (let s = s\<lparr>bufA := memset0 (bufA s) (unat BUF_SIZE)\<rparr>;
          s = s\<lparr>bufB := memset0 (bufB s) (unat BUF_SIZE)\<rparr>;
          (b, res) = strcmp_loop (peekdata (proc_of s v1)) v1Buf (bufA s) 100 0;
          s = s\<lparr>bufA := b\<rparr>
      in case res of
           Inl r \<Rightarrow> (r, s)
         | Inr (curSize, stringLen) \<Rightarrow>
             let (_, b) = readVariantMem v2 (bufB s) v2Buf curSize s;
                 s = s\<lparr>bufB := b\<rparr>;
                 cmpRes = strncmp (bufA s) (bufB s) (unat stringLen)
             in (if cmpRes = 0 then 0 else 1, s))"

definition variantMemCmp ::
    "vptr \<Rightarrow> word64 \<Rightarrow> vptr \<Rightarrow> word64 \<Rightarrow> word64 \<Rightarrow> 'k mvee \<Rightarrow> int \<times> 'k mvee" where
  "variantMemCmp v1 v1Buf v2 v2Buf sz s =
     (if sz > BUF_SIZE then (- 1, s)
      else
        let (_, b) = readVariantMem v1 (bufA s) v1Buf sz s;
            s = s\<lparr>bufA := b\<rparr>;
            (_, b) = readVariantMem v2 (bufB s) v2Buf sz s;
            s = s\<lparr>bufB := b\<rparr>
        in (if memcmp (bufA s) (bufB s) (unat sz) = 0 then 0 else 1, s))"

section \<open>What the read loop reads\<close>

text \<open>
  \<open>words8 n\<close> is \<open>n\<close> rounded up to whole longs; \<open>read_byte\<close> is byte \<open>i\<close> of the words
  peeked from an address on.
\<close>

definition words8 :: "nat \<Rightarrow> nat" where
  "words8 n = 8 * ((n + 7) div 8)"

definition read_byte :: "(word64 \<Rightarrow> word64) \<Rightarrow> word64 \<Rightarrow> nat \<Rightarrow> byte" where
  "read_byte pk a i = byte_of (pk (a + of_nat (8 * (i div 8)))) (i mod 8)"

lemma read_loop_0 [simp]: "read_loop pk rb lb 0 tr = (tr, lb)"
  by (subst read_loop.simps) simp

lemma words8_bounds: "n \<le> words8 n" "words8 n < n + 8"
  unfolding words8_def by linarith+

lemma words8_mod [simp]: "words8 n mod 8 = 0" "words8 0 = 0"
  by (simp_all add: words8_def)

lemma words8_small: "0 < n \<Longrightarrow> n \<le> 8 \<Longrightarrow> words8 n = 8"
proof -
  assume "0 < n" "n \<le> 8"
  then have "(n + 7) div 8 = 1" by presburger
  then show ?thesis by (simp add: words8_def)
qed

lemma words8_step: "8 < n \<Longrightarrow> words8 n = 8 + words8 (n - 8)"
proof -
  assume "8 < n"
  then obtain m where "n = m + 8" by (metis less_imp_le_nat le_add_diff_inverse2)
  moreover have "((m + 7) + 8) div 8 = (m + 7) div 8 + 1"
    by (rule div_add_self2) simp
  ultimately show ?thesis by (simp add: words8_def add.commute)
qed

lemma local_store_read_byte:
  assumes "k mod 8 = 0"
  shows "local_store lb k (pk (a + of_nat k)) =
     (\<lambda>i. if k \<le> i \<and> i < k + 8 then read_byte pk a i else lb i)"
proof
  fix i
  have "8 * (i div 8) = k \<and> i mod 8 = i - k" if b: "k \<le> i" "i < k + 8"
  proof -
    obtain q where "k = 8 * q" using mod_0_imp_dvd [OF assms] by (rule dvdE)
    moreover obtain j where j: "i = k + j"
      using le_Suc_ex [OF b(1)] by blast
    moreover from b(2) j have "j < 8"
      by simp
    ultimately show ?thesis by simp
  qed
  then show "local_store lb k (pk (a + of_nat k)) i =
      (if k \<le> i \<and> i < k + 8 then read_byte pk a i else lb i)"
    by (auto simp: local_store_def read_byte_def)
qed

lemma read_loop_eq:
  assumes "unat tr mod 8 = 0" and "unat tr + unat rem < 2 ^ 63"
  shows "read_loop pk a lb rem tr =
     (tr + rem, \<lambda>i. if unat tr \<le> i \<and> i < unat tr + words8 (unat rem) then read_byte pk a i else lb i)"
  using assms
proof (induction pk a lb rem tr rule: read_loop.induct)
  case (1 pk a lb rem tr)
  have off: "8 * unat (tr div 8) = unat tr"
    using "1.prems"(1) by (simp add: unat_div)  presburger
  show ?case
  proof (cases "rem = 0")
    case True
    then show ?thesis by (auto simp: words8_def fun_eq_iff)
  next
    case False
    then have pos: "rem > 0" by (simp add: word_neq_0_conv)
    let ?lb = "local_store lb (unat tr) (pk (a + tr))"
    have lb: "?lb = (\<lambda>i. if unat tr \<le> i \<and> i < unat tr + 8 then read_byte pk a i else lb i)"
      using local_store_read_byte [OF "1.prems"(1), of lb pk a] by simp
    show ?thesis
    proof (cases "rem > 8")
      case True
      then have r: "8 < unat rem" "unat (rem - 8) = unat rem - 8"
        by (simp_all add: word_less_nat_alt unat_sub word_le_nat_alt)
      have t: "unat (tr + 8) = unat tr + 8"
        using "1.prems"(2) r by (simp add: unat_word_ariths)
      have "read_loop pk a ?lb (rem - 8) (tr + 8) =
         (tr + 8 + (rem - 8), \<lambda>i. if unat (tr + 8) \<le> i \<and>
             i < unat (tr + 8) + words8 (unat (rem - 8)) then read_byte pk a i else ?lb i)"
        using "1.IH" [OF pos refl refl, unfolded off] True "1.prems" r t by simp
      then have "read_loop pk a lb rem tr = (tr + rem, \<lambda>i. if unat (tr + 8) \<le> i \<and>
             i < unat (tr + 8) + words8 (unat (rem - 8)) then read_byte pk a i else ?lb i)"
        using True pos off by (subst read_loop.simps) simp
      then show ?thesis
        using words8_step [OF r(1)] r t by (auto simp: lb fun_eq_iff)
    next
      case F: False
      then have "0 < unat rem" "unat rem \<le> 8"
        using False by (simp_all add: word_less_nat_alt unat_gt_0)
      then have "words8 (unat rem) = 8" by (rule words8_small)
      moreover have "read_loop pk a lb rem tr = (tr + rem, ?lb)"
        using F pos off by (subst read_loop.simps) simp
      ultimately show ?thesis by (simp add: lb)
    qed
  qed
qed
lemma read_mem_eq:
  assumes "sz \<le> BUF_SIZE"
  shows "read_mem pk lb a sz =
     (sz, \<lambda>i. if i < words8 (unat sz) then read_byte pk a i else lb i)"
proof -
  have "unat sz \<le> 10000000"
    using assms by (simp add: BUF_SIZE_def word_le_nat_alt)
  then show ?thesis
    using leD [OF assms] read_loop_eq [of 0 sz pk a lb] by (simp add: read_mem_def)
qed

lemma BUF_SIZE_nat [simp]: "unat BUF_SIZE = 10000000"
  by (simp add: BUF_SIZE_def)

text \<open>On mapped memory of a stopped tracee the bytes read are the bytes there.\<close>

lemma read_byte_mapped:
  assumes "stopped p" and "mapped (mem p) a (words8 n)" and "i < n"
  shows "read_byte (peekdata p) a i = the (mem p (a + of_nat i))"
proof -
  have k: "8 * (i div 8) + 8 \<le> words8 n"
  proof -
    have "i div 8 \<le> (n - 1) div 8"
      using assms(3) by (intro div_le_mono) simp
    moreover have "(n + 7) div 8 = (n - 1) div 8 + 1"
    proof -
      have "n + 7 = (n - 1) + 8" using assms(3) by simp
      then show ?thesis by (simp only: div_add_self2 [of 8 "n - 1"])
    qed
    ultimately show ?thesis by (simp add: words8_def)
  qed
  have "byte_of (peekdata p (a + of_nat (8 * (i div 8)))) (i mod 8) =
      the (mem p (a + of_nat (8 * (i div 8)) + of_nat (i mod 8)))"
    by (rule byte_of_peekdata [OF assms(1) mapped_sub [OF assms(2) k]]) simp
  moreover have "a + of_nat (8 * (i div 8)) + of_nat (i mod 8) = a + of_nat i"
    unfolding add.assoc of_nat_add [symmetric] by simp
  ultimately show ?thesis by (simp only: read_byte_def)
qed

text \<open>
  \<open>vbyte s v a i\<close>: byte \<open>i\<close> of what the monitor reads of variant \<open>v\<close> from address \<open>a\<close> on.
\<close>

definition vbyte :: "'k mvee \<Rightarrow> vptr \<Rightarrow> word64 \<Rightarrow> nat \<Rightarrow> byte" where
  "vbyte s v a i = read_byte (peekdata (proc_of s v)) a i"

lemma bufs_proc_of [simp]:
  "proc_of (s\<lparr>bufA := b\<rparr>) v = proc_of s v" "proc_of (s\<lparr>bufB := b\<rparr>) v = proc_of s v"
  by (simp_all add: proc_of_def)

lemma variantMemCmp_result:
  "fst (variantMemCmp v1 a1 v2 a2 sz s) =
     (if sz > BUF_SIZE then - 1
      else if \<forall>i < unat sz. vbyte s v1 a1 i = vbyte s v2 a2 i then 0 else 1)"
proof (cases "sz > BUF_SIZE")
  case False
  have "\<And>i. i < unat sz \<Longrightarrow> i < words8 (unat sz)"
    by (rule less_le_trans [OF _ words8_bounds(1)])
  with False show ?thesis
    by (auto simp: variantMemCmp_def readVariantMem_def read_mem_eq not_less memcmp_0 vbyte_def Let_def)
qed (simp add: variantMemCmp_def)

section \<open>What the write loop writes\<close>

text \<open>
  \<open>overwrite\<close> replaces the bytes of a window. \<open>written\<close> gives the byte that
  \<open>writeVariantMem\<close> puts at offset \<open>d\<close> of it: the byte of the buffer, except in the last
  eight bytes of a write that is longer than a long and not a multiple of it. There the code
  reads the buffer as \<open>((long *) localBuf)[size - sizeof(long)]\<close>, which is at byte
  \<open>8 * (size - 8)\<close>.
\<close>


definition overwrite ::
    "(word64 \<Rightarrow> byte option) \<Rightarrow> word64 \<Rightarrow> nat \<Rightarrow> (nat \<Rightarrow> byte) \<Rightarrow> (word64 \<Rightarrow> byte option)" where
  "overwrite m a n f = (\<lambda>x. if unat (x - a) < n then Some (f (unat (x - a))) else m x)"

definition written :: "buffer \<Rightarrow> nat \<Rightarrow> nat \<Rightarrow> byte" where
  "written b n d =
     (if n < 8 \<or> n mod 8 = 0 \<or> d < n - 8 then b d else b (8 * (n - 8) + (d - (n - 8))))"

lemma window:
  fixes y t :: word64
  assumes "unat t + 8 \<le> 2 ^ 64"
  shows "unat (y - t) < 8 \<longleftrightarrow> unat t \<le> unat y \<and> unat y < unat t + 8"
    and "unat t \<le> unat y \<Longrightarrow> unat (y - t) = unat y - unat t"
  using assms unsigned_less [of y] by (auto simp: unat_sub_if')

lemma store8_window:
  assumes "unat t + 8 \<le> 2 ^ 64"
  shows "store8 m (a + t) w = (\<lambda>x. if unat t \<le> unat (x - a) \<and> unat (x - a) < unat t + 8
      then Some (byte_of w (unat (x - a) - unat t)) else m x)"
proof
  fix x
  have e: "x - (a + t) = x - a - t" by simp
  show "store8 m (a + t) w x = (if unat t \<le> unat (x - a) \<and> unat (x - a) < unat t + 8
      then Some (byte_of w (unat (x - a) - unat t)) else m x)"
    unfolding store8_def Let_def e using window [OF assms, of "x - a"] by auto
qed

lemma mapped_at:
  assumes "mapped m a n" and "unat t + 8 \<le> n"
  shows "mapped m (a + t) 8"
  using mapped_sub [OF assms] by simp

lemma write_loop_0 [simp]: "write_loop lb a sz 0 tr p = (tr, p)"
  by (subst write_loop.simps) simp

lemma signed_pos:
  assumes "unat (r :: word64) < 2 ^ 63"
  shows "0 <s r \<longleftrightarrow> r \<noteq> 0"
proof -
  have "int (unat r) < int (2 ^ 63)"
    using assms by (simp only: of_nat_less_iff)
  then have "uint r < 2 ^ 63"
    by simp
  then have "sint r = uint r"
    by (simp add: sint_uint signed_take_bit_int_eq_self order_trans [OF _ uint_ge_0])
  then show ?thesis
    by (simp add: word_sless_alt word_neq_0_conv word_less_def)
qed

text \<open>The full words that the loop writes, then its last store.\<close>

lemma write_loop_eq:
  assumes "unat tr mod 8 = 0" and "tr + rem = sz" and "unat tr + unat rem = n" and "8 \<le> n"
    and "n < 2 ^ 63" and "stopped p" and "mapped (mem p) a n"
  shows "write_loop lb a sz rem tr p = (sz, p\<lparr>mem :=
     (let m = (\<lambda>x. if unat tr \<le> unat (x - a) \<and> unat (x - a) < 8 * (n div 8)
                   then Some (lb (unat (x - a))) else mem p x)
      in if n mod 8 = 0 then m
         else store8 m (a + (sz - 8)) (local_load lb (8 * (n - 8))))\<rparr>)"
  using assms
proof (induction lb a sz rem tr p rule: write_loop.induct)
  case (1 lb a sz rem tr p)
  have off: "8 * unat (tr div 8) = unat tr"
  proof -
    have "unat tr = 8 * (unat tr div 8)" using "1.prems"(1) by (metis mod_0_imp_dvd dvd_mult_div_cancel)
    then show ?thesis by (simp add: unat_div)
  qed
  obtain q where q: "unat tr = 8 * q"
    using mod_0_imp_dvd [OF "1.prems"(1)] by (rule dvdE)
  have small: "unat rem < 2 ^ 63" using "1.prems"(3,5) by simp
  have W0: "(\<lambda>x. if unat tr \<le> unat (x - a) \<and> unat (x - a) < unat tr
      then Some (lb (unat (x - a))) else mem p x) = mem p"
    by (auto simp: fun_eq_iff)
  show ?case
  proof (cases "rem = 0")
    case True
    then have "n = unat tr" "n mod 8 = 0" "sz = tr" "8 * (n div 8) = unat tr"
      using "1.prems" q by auto
    then show ?thesis using True by (simp add: W0)
  next
    case False
    then have pos: "0 <s rem" using signed_pos [OF small] by simp
    show ?thesis
    proof (cases "rem \<ge> 8")
      case True
      then have r: "8 \<le> unat rem" "unat (rem - 8) = unat rem - 8"
        by (simp_all add: word_le_nat_alt unat_sub)
      have t: "unat (tr + 8) = unat tr + 8"
        using "1.prems"(3,5) r by (simp add: unat_word_ariths)
      let ?p = "pokedata p (a + tr) (local_load lb (unat tr))"
      have p: "?p = p\<lparr>mem := store8 (mem p) (a + tr) (local_load lb (unat tr))\<rparr>"
        by (rule pokedata_mapped [OF "1.prems"(6) mapped_at [OF "1.prems"(7)]])
          (use r "1.prems"(3) in simp)
      have st: "store8 (mem p) (a + tr) (local_load lb (unat tr)) =
          (\<lambda>x. if unat tr \<le> unat (x - a) \<and> unat (x - a) < unat tr + 8
               then Some (lb (unat (x - a))) else mem p x)"
        using "1.prems"(3,5) r by (subst store8_window) (auto simp: fun_eq_iff)
      have IH: "write_loop lb a sz (rem - 8) (tr + 8) ?p = (sz, ?p\<lparr>mem :=
         (let m = (\<lambda>x. if unat (tr + 8) \<le> unat (x - a) \<and> unat (x - a) < 8 * (n div 8)
                   then Some (lb (unat (x - a))) else mem ?p x)
          in if n mod 8 = 0 then m
             else store8 m (a + (sz - 8)) (local_load lb (8 * (n - 8))))\<rparr>)"
        by (rule "1.IH"(1) [OF pos True, unfolded off])
          (use "1.prems" r t in \<open>simp_all add: p mapped_store8\<close>)
      have le: "unat tr + 8 \<le> 8 * (n div 8)"
      proof -
        have "q + 1 \<le> n div 8" using r "1.prems"(3) q by (simp add: less_eq_div_iff_mult_less_eq)
        then show ?thesis using q by simp
      qed
      have m: "(\<lambda>x. if unat (tr + 8) \<le> unat (x - a) \<and> unat (x - a) < 8 * (n div 8)
                   then Some (lb (unat (x - a))) else mem ?p x) =
               (\<lambda>x. if unat tr \<le> unat (x - a) \<and> unat (x - a) < 8 * (n div 8)
                   then Some (lb (unat (x - a))) else mem p x)"
        using le by (auto simp: p st t fun_eq_iff)
      have "write_loop lb a sz rem tr p = write_loop lb a sz (rem - 8) (tr + 8) ?p"
        using pos True by (subst write_loop.simps) (simp add: off)
      then show ?thesis
        unfolding IH m by (simp add: p)
    next
      case F: False
      then have r: "0 < unat rem" "unat rem < 8"
        using False by (simp_all add: word_le_nat_alt unat_gt_0)
      then have nm: "n mod 8 = unat rem" "8 * (n div 8) = unat tr"
        using "1.prems"(3) q by (auto simp flip: "1.prems"(3))
      have sz: "unat sz = n"
        using "1.prems"(2,3,5) by (auto simp: unat_word_ariths)
      then have s8: "unat (sz - 8) = n - 8"
        using "1.prems"(4) by (simp add: unat_sub word_le_nat_alt)
      have p: "pokedata p (a + (sz - 8)) w = p\<lparr>mem := store8 (mem p) (a + (sz - 8)) w\<rparr>" for w
        by (rule pokedata_mapped [OF "1.prems"(6) mapped_at [OF "1.prems"(7)]])
          (use s8 "1.prems"(4) in simp)
      have "write_loop lb a sz rem tr p =
          (tr + rem, pokedata p (a + sz - 8) (local_load lb (8 * unat (sz - 8))))"
        using pos F by (subst write_loop.simps) simp
      also have "a + sz - 8 = a + (sz - 8)" by simp
      finally show ?thesis
        using r nm "1.prems"(2) by (simp add: p s8 W0 Let_def)
    qed
  qed
qed

lemma byte_of_memcpy_long:
  "i < 8 \<Longrightarrow> byte_of (memcpy_long d b n) i = (if i < n then b i else byte_of d i)"
  by (simp add: memcpy_long_def byte_of_word_of_bytes del: upt_rec_numeral)

text \<open>
  What \<open>writeVariantMem\<close> leaves in a stopped tracee whose window is mapped: exactly the
  window changes, and byte \<open>d\<close> of it becomes \<open>written localBuf n d\<close>.
\<close>

lemma write_proc_eq:
  assumes "stopped p" and "mapped (mem p) a (max 8 (unat sz))" and "unat sz < 2 ^ 63"
  shows "write_proc lb a sz p = (sz, p\<lparr>mem := overwrite (mem p) a (unat sz) (written lb (unat sz))\<rparr>)"
proof (cases "sz < 8")
  case True
  then have n: "unat sz < 8" by (simp add: word_less_nat_alt)
  have m: "mapped (mem p) a 8"
    using assms(2) n by (simp add: max_def)
  have "store8 (mem p) a (memcpy_long (peekdata p a) lb (unat sz)) =
      overwrite (mem p) a (unat sz) (written lb (unat sz))"
  proof
    fix x
    have "byte_of (peekdata p a) (unat (x - a)) = the (mem p x)" if "unat (x - a) < 8"
      using byte_of_peekdata [OF assms(1) m that] by simp
    moreover have "\<exists>b. mem p x = Some b" if "unat (x - a) < 8"
    proof -
      have "mem p (a + of_nat (unat (x - a))) \<noteq> None"
        using m that unfolding mapped_def by blast
      then show ?thesis by simp
    qed
    ultimately show "store8 (mem p) a (memcpy_long (peekdata p a) lb (unat sz)) x =
        overwrite (mem p) a (unat sz) (written lb (unat sz)) x"
      using n by (fastforce simp: store8_def overwrite_def written_def byte_of_memcpy_long Let_def)
  qed
  with True show ?thesis
    by (simp add: write_proc_def pokedata_mapped [OF assms(1) m] Let_def)
next
  case False
  then have n: "8 \<le> unat sz" by (simp add: word_less_nat_alt)
  have m: "mapped (mem p) a (unat sz)"
    using assms(2) n by (simp add: max_def)
  let ?n = "unat sz"
  let ?W = "\<lambda>x. if unat (0 :: word64) \<le> unat (x - a) \<and> unat (x - a) < 8 * (?n div 8)
      then Some (lb (unat (x - a))) else mem p x"
  have s8: "unat (sz - 8) = ?n - 8"
    using n by (simp add: unat_sub word_le_nat_alt)
  have "(if ?n mod 8 = 0 then ?W else store8 ?W (a + (sz - 8)) (local_load lb (8 * (?n - 8)))) =
      overwrite (mem p) a ?n (written lb ?n)"
  proof (cases "?n mod 8 = 0")
    case True
    then have "8 * (?n div 8) = ?n" by auto
    with True show ?thesis by (auto simp: overwrite_def written_def fun_eq_iff)
  next
    case False
    have le: "?n - 8 \<le> 8 * (?n div 8)" "8 * (?n div 8) \<le> ?n"
      using n by linarith+
    have "store8 ?W (a + (sz - 8)) (local_load lb (8 * (?n - 8))) =
        (\<lambda>x. if ?n - 8 \<le> unat (x - a) \<and> unat (x - a) < ?n - 8 + 8
             then Some (byte_of (local_load lb (8 * (?n - 8))) (unat (x - a) - (?n - 8))) else ?W x)"
      using assms(3) n by (subst store8_window) (simp_all add: s8 cong: if_cong)
    with False n le show ?thesis
      by (auto simp: overwrite_def written_def fun_eq_iff)
  qed
  moreover have "write_loop lb a sz sz 0 p = (sz, p\<lparr>mem :=
     (if ?n mod 8 = 0 then ?W else store8 ?W (a + (sz - 8)) (local_load lb (8 * (?n - 8))))\<rparr>)"
    using write_loop_eq [of 0 sz sz ?n p a lb] n assms(1,3) m by (simp only: Let_def) simp
  ultimately show ?thesis
    using False by (simp add: write_proc_def)
qed

lemma overwrite_at:
  "i < n \<Longrightarrow> n \<le> 2 ^ 64 \<Longrightarrow> overwrite m a n f (a + of_nat i) = Some (f i)"
  by (simp add: overwrite_def unat_of_nat)

lemma overwrite_outside: "n \<le> unat (x - a) \<Longrightarrow> overwrite m a n f x = m x"
  by (simp add: overwrite_def)

section \<open>Transfers\<close>

text \<open>The operations change only the buffers and the destination's memory.\<close>

definition same_but_bufs :: "'k mvee \<Rightarrow> 'k mvee \<Rightarrow> bool" where
  "same_but_bufs s s' \<longleftrightarrow> procs s' = procs s \<and> world s' = world s \<and> vars s' = vars s \<and>
     newfstatat_bufA s' = newfstatat_bufA s \<and> newfstatat_bufB s' = newfstatat_bufB s \<and>
     mmaps s' = mmaps s"

lemma variantMemCmp_frame: "same_but_bufs s (snd (variantMemCmp v1 a1 v2 a2 sz s))"
  by (simp add: variantMemCmp_def same_but_bufs_def Let_def split: prod.splits)

lemma variantStrCmp_frame: "same_but_bufs s (snd (variantStrCmp v1 a1 v2 a2 s))"
  by (simp add: variantStrCmp_def same_but_bufs_def Let_def split: prod.splits sum.splits)

lemma cmp_sel [simp, frame_simps]:
  "procs (snd (variantMemCmp v1 a1 v2 a2 sz s)) = procs s"
  "world (snd (variantMemCmp v1 a1 v2 a2 sz s)) = world s"
  "vars (snd (variantMemCmp v1 a1 v2 a2 sz s)) = vars s"
  "mmaps (snd (variantMemCmp v1 a1 v2 a2 sz s)) = mmaps s"
  "procs (snd (variantStrCmp v1 a1 v2 a2 s)) = procs s"
  "world (snd (variantStrCmp v1 a1 v2 a2 s)) = world s"
  "vars (snd (variantStrCmp v1 a1 v2 a2 s)) = vars s"
  "mmaps (snd (variantStrCmp v1 a1 v2 a2 s)) = mmaps s"
  using variantMemCmp_frame [of s v1 a1 v2 a2 sz] variantStrCmp_frame [of s v1 a1 v2 a2]
  by (simp_all add: same_but_bufs_def)

lemma write_loop_frame:
  "ps (snd (write_loop lb a sz rem tr p)) = ps p"
  "regs (snd (write_loop lb a sz rem tr p)) = regs p"
  "opts (snd (write_loop lb a sz rem tr p)) = opts p"
proof (induction lb a sz rem tr p rule: write_loop.induct)
  case (1 lb a sz rem tr p)
  note IH = "1.IH"
  {
    case 1
    show ?case using IH(1,4) by (subst write_loop.simps) simp
  next
    case 2
    show ?case using IH(2,5) by (subst write_loop.simps) simp
  next
    case 3
    show ?case using IH(3,6) by (subst write_loop.simps) simp
  }
qed

lemma write_proc_frame [simp, frame_simps]:
  "ps (snd (write_proc lb a sz p)) = ps p"
  "regs (snd (write_proc lb a sz p)) = regs p"
  "opts (snd (write_proc lb a sz p)) = opts p"
  by (simp_all add: write_proc_def write_loop_frame Let_def)

text \<open>
  \<open>transferVariantMem\<close> is a write of the bytes read, when the size is in range; the bytes
  of the buffer beyond those read stay as they were.
\<close>

definition read_buffer :: "'k mvee \<Rightarrow> vptr \<Rightarrow> word64 \<Rightarrow> word64 \<Rightarrow> buffer" where
  "read_buffer s v a sz =
     (\<lambda>i. if i < words8 (unat sz) then vbyte s v a i else bufA s i)"

lemma transferVariantMem_too_big:
  "sz > BUF_SIZE \<Longrightarrow> transferVariantMem sv sa dv da sz s = (- 1, s)"
  by (simp add: transferVariantMem_def)

lemma transferVariantMem_eq:
  assumes "sz \<le> BUF_SIZE"
  shows "transferVariantMem sv sa dv da sz s =
     (let (w, p) = write_proc (read_buffer s sv sa sz) da sz (proc_of s dv);
          s' = upd_proc dv (\<lambda>_. p) (s\<lparr>bufA := read_buffer s sv sa sz\<rparr>)
      in (if w \<noteq> sz then - 1 else 0, s'))"
proof -
  have "(\<lambda>i. if i < words8 (unat sz) then read_byte (peekdata (proc_of s sv)) sa i else bufA s i) =
      read_buffer s sv sa sz"
    by (simp only: read_buffer_def vbyte_def)
  then show ?thesis
    using leD [OF assms]
    by (simp add: transferVariantMem_def readVariantMem_def read_mem_eq [OF assms]
        writeVariantMem_def Let_def case_prod_beta)
qed

text \<open>A transfer fails for its size only: an unmapped buffer goes unnoticed.\<close>

lemma write_loop_count:
  "unat rem < 2 ^ 63 \<Longrightarrow> fst (write_loop lb a sz rem tr p) = tr + rem"
proof (induction lb a sz rem tr p rule: write_loop.induct)
  case (1 lb a sz rem tr p)
  have pos: "0 <s rem \<longleftrightarrow> rem \<noteq> 0" using "1.prems" by (rule signed_pos)
  have "unat (rem - 8) < 2 ^ 63" if "8 \<le> rem"
    using that "1.prems" by (simp add: word_le_nat_alt unat_sub)
  then show ?case
    using "1.IH" pos by (subst write_loop.simps) simp
qed

lemma transfer_accepts:
  "sz \<le> BUF_SIZE \<Longrightarrow> fst (transferVariantMem sv sa dv da sz s) = 0"
  using write_loop_count [of sz "read_buffer s sv sa sz" da sz 0 "proc_of s dv"]
  by (simp add: transferVariantMem_eq case_prod_beta Let_def write_proc_def word_le_nat_alt)

lemma transferVariantMem_frame [simp, frame_simps]:
  "vars (snd (transferVariantMem sv sa dv da sz s)) = vars s"
  "world (snd (transferVariantMem sv sa dv da sz s)) = world s"
  "mmaps (snd (transferVariantMem sv sa dv da sz s)) = mmaps s"
  by (simp_all add: transferVariantMem_def writeVariantMem_def Let_def case_prod_beta)

lemma pids_ok_bufs [simp]: "pids_ok (s\<lparr>bufA := b\<rparr>) = pids_ok s" "pids_ok (s\<lparr>bufB := b\<rparr>) = pids_ok s"
  by (simp_all add: pids_ok_def)

lemma pids_ok_vars: "vars s' = vars s \<Longrightarrow> pids_ok s' = pids_ok s"
  by (simp add: pids_ok_def)

lemma transfer_pids_ok [simp]: "pids_ok (snd (transferVariantMem sv sa dv da sz s)) = pids_ok s"
  by (rule pids_ok_vars) simp

lemma transfer_proc_ps [simp]:
  assumes "pids_ok s"
  shows "ps (proc_of (snd (transferVariantMem sv sa dv da sz s)) w) = ps (proc_of s w)"
    and "regs (proc_of (snd (transferVariantMem sv sa dv da sz s)) w) = regs (proc_of s w)"
    and "w \<noteq> dv \<Longrightarrow> proc_of (snd (transferVariantMem sv sa dv da sz s)) w = proc_of s w"
proof -
  have *: "proc_of (snd (transferVariantMem sv sa dv da sz s)) w =
      (if w = dv \<and> sz \<le> BUF_SIZE
       then snd (write_proc (read_buffer s sv sa sz) da sz (proc_of s dv)) else proc_of s w)"
  proof (cases "sz \<le> BUF_SIZE")
    case True
    then show ?thesis
      using assms by (simp add: transferVariantMem_eq Let_def case_prod_beta)
  next
    case False
    then show ?thesis
      using transferVariantMem_too_big [of sz sv sa dv da s] by auto
  qed
  show "ps (proc_of (snd (transferVariantMem sv sa dv da sz s)) w) = ps (proc_of s w)"
    "regs (proc_of (snd (transferVariantMem sv sa dv da sz s)) w) = regs (proc_of s w)"
    "w \<noteq> dv \<Longrightarrow> proc_of (snd (transferVariantMem sv sa dv da sz s)) w = proc_of s w"
    by (simp_all add: *)
qed

text \<open>The transfer of a mapped window, exactly.\<close>

lemma transferVariantMem_window:
  assumes "pids_ok s" and "sz \<le> BUF_SIZE" and "stopped (proc_of s sv)" and "stopped (proc_of s dv)"
    and "mapped (mem (proc_of s dv)) da (max 8 (unat sz))"
  shows "transferVariantMem sv sa dv da sz s =
     (0, upd_proc dv (\<lambda>p. p\<lparr>mem := overwrite (mem p) da (unat sz)
            (written (read_buffer s sv sa sz) (unat sz))\<rparr>) (s\<lparr>bufA := read_buffer s sv sa sz\<rparr>))"
proof -
  have "unat sz \<le> 10000000"
    using assms(2) by (simp add: word_le_nat_alt)
  then have "unat sz < 2 ^ 63" by simp
  from write_proc_eq [OF assms(4,5) this] show ?thesis
    by (simp add: transferVariantMem_eq [OF assms(2)] Let_def upd_proc_def proc_of_def)
qed

section \<open>The string comparison\<close>

text \<open>
  The last size the loop reads is \<open>STR_LIMIT = BUF_SIZE - 100\<close>.
\<close>

definition STR_LIMIT :: nat where
  "STR_LIMIT = 9999900"

lemma strnlen_from_cong:
  "\<forall>j<n. b (i + j) = c (i + j) \<Longrightarrow> strnlen_from b i n = strnlen_from c i n"
  by (induction b i n rule: strnlen_from.induct) (auto simp: All_less_Suc2)

lemma strnlen_cong: "\<forall>j<n. b j = c j \<Longrightarrow> strnlen b n = strnlen c n"
  using strnlen_from_cong [of n b 0 c] by (simp add: strnlen_def)

lemma of_nat_eq_word64:
  assumes "n < 2 ^ 64"
  shows "of_nat n = (w :: word64) \<longleftrightarrow> n = unat w"
proof
  assume "of_nat n = w"
  then show "n = unat w"
    using assms by (auto simp: unat_of_nat)
next
  assume "n = unat w"
  then show "of_nat n = w" by simp
qed

lemma strcmp_loop_step:
  assumes "cs < BUF_SIZE"
  shows "strcmp_loop pk a b cs sl =
     (let b' = (\<lambda>i. if i < words8 (unat cs) then read_byte pk a i else b i)
      in if \<exists>j < unat cs. read_byte pk a j = 0 then (b', Inl (- 1))
         else strcmp_loop pk a b' (cs + 100) cs)"
proof -
  let ?b = "\<lambda>i. if i < words8 (unat cs) then read_byte pk a i else b i"
  have u: "unat cs < 10000000"
    using assms by (simp add: word_less_nat_alt)
  have r: "read_mem pk b a cs = (cs, ?b)"
    using assms by (intro read_mem_eq) simp
  let ?n = "strnlen ?b (unat cs)"
  have n: "?n < 10000000"
    by (rule le_less_trans [OF strnlen_le u])
  have eq1: "\<not> of_nat ?n = BUF_SIZE"
    using n u by (subst of_nat_eq_word64) auto
  have eq2: "of_nat ?n = cs \<longleftrightarrow> ?n = unat cs"
    using n u by (subst of_nat_eq_word64) auto
  have b: "\<And>j. j < unat cs \<Longrightarrow> ?b j = read_byte pk a j"
    using words8_bounds(1) [of "unat cs"] by simp
  have eq3: "?n = unat cs \<longleftrightarrow> (\<forall>j < unat cs. read_byte pk a j \<noteq> 0)"
    unfolding strnlen_full using b by auto
  show ?thesis
  proof (cases "\<exists>j < unat cs. read_byte pk a j = 0")
    case True
    then have "\<not> of_nat ?n = cs" using eq2 eq3 by auto
    with True assms r eq1 show ?thesis
      by (subst strcmp_loop.simps) (simp add: Let_def)
  next
    case False
    then have "of_nat ?n = cs" using eq2 eq3 by auto
    with assms r eq1 show ?thesis
      by (subst strcmp_loop.simps) (simp add: Let_def if_not_P [OF False])
  qed
qed

lemma cs_step:
  assumes "cs < BUF_SIZE" and "unat cs mod 100 = 0"
  shows "unat (cs + 100) = unat cs + 100" and "unat cs \<le> STR_LIMIT"
proof -
  have u: "unat cs < 10000000"
    using assms by (simp add: word_less_nat_alt)
  then show "unat (cs + 100) = unat cs + 100"
    by (simp add: unat_word_ariths)
  obtain q where "unat cs = 100 * q"
    using mod_0_imp_dvd [OF assms(2)] by (rule dvdE)
  with u show "unat cs \<le> STR_LIMIT" by (simp add: STR_LIMIT_def)
qed

lemma strcmp_loop_short:
  assumes "unat cs mod 100 = 0" and "cs < BUF_SIZE" and "\<exists>j < STR_LIMIT. read_byte pk a j = 0"
  shows "snd (strcmp_loop pk a b cs sl) = Inl (- 1)"
  using assms
proof (induction "10000000 - unat cs" arbitrary: b cs sl rule: less_induct)
  case less
  note st = cs_step [OF less.prems(2,1)]
  show ?case
  proof (cases "\<exists>j < unat cs. read_byte pk a j = 0")
    case True
    then show ?thesis
      using strcmp_loop_step [OF less.prems(2)] by (simp add: Let_def)
  next
    case False
    have "unat cs \<noteq> STR_LIMIT"
      using False less.prems(3) by auto
    with st have lt: "unat cs < STR_LIMIT" by simp
    have "unat cs + 100 \<le> STR_LIMIT"
    proof -
      obtain q where "unat cs = 100 * q"
        using mod_0_imp_dvd [OF less.prems(1)] by (rule dvdE)
      with lt show ?thesis by (simp add: STR_LIMIT_def)
    qed
    then have "cs + 100 < BUF_SIZE"
      using st by (simp add: word_less_nat_alt STR_LIMIT_def)
    then have "snd (strcmp_loop pk a b' (cs + 100) cs) = Inl (- 1)" for b'
      using lt st less.prems by (intro less.hyps) (simp_all add: STR_LIMIT_def)
    then show ?thesis
      using strcmp_loop_step [OF less.prems(2)] False by (simp add: Let_def)
  qed
qed

lemma strcmp_loop_long:
  assumes "unat cs mod 100 = 0" and "0 < cs" and "cs \<le> BUF_SIZE"
    and "\<forall>j < STR_LIMIT. read_byte pk a j \<noteq> 0"
    and "cs = BUF_SIZE \<Longrightarrow> sl = of_nat STR_LIMIT \<and> (\<forall>j < STR_LIMIT. b j = read_byte pk a j)"
  shows "\<exists>b'. strcmp_loop pk a b cs sl = (b', Inr (BUF_SIZE, of_nat STR_LIMIT)) \<and>
              (\<forall>j < STR_LIMIT. b' j = read_byte pk a j)"
  using assms
proof (induction "10000000 - unat cs" arbitrary: b cs sl rule: less_induct)
  case less
  show ?case
  proof (cases "cs = BUF_SIZE")
    case True
    then show ?thesis
      using less.prems(5) by (subst strcmp_loop.simps) simp
  next
    case False
    then have lt: "cs < BUF_SIZE" using less.prems(3) by simp
    note st = cs_step [OF lt less.prems(1)]
    have nz: "\<not> (\<exists>j < unat cs. read_byte pk a j = 0)"
      using less.prems(4) st(2) by auto
    let ?b = "\<lambda>i. if i < words8 (unat cs) then read_byte pk a i else b i"
    have le: "cs + 100 \<le> BUF_SIZE"
      using st by (simp add: word_le_nat_alt STR_LIMIT_def)
    have pos: "0 < cs + 100"
      using st by (simp add: word_less_nat_alt)
    have last: "cs = of_nat STR_LIMIT \<and> (\<forall>j < STR_LIMIT. ?b j = read_byte pk a j)"
      if "cs + 100 = BUF_SIZE"
    proof -
      have u: "unat cs = STR_LIMIT"
        using arg_cong [OF that, of unat] st(1) by (simp add: STR_LIMIT_def)
      then have "cs = of_nat STR_LIMIT"
        by (simp flip: u)
      moreover have "\<forall>j < STR_LIMIT. j < words8 (unat cs)"
        using words8_bounds(1) [of STR_LIMIT] u by simp
      ultimately show ?thesis by simp
    qed
    have "\<exists>b'. strcmp_loop pk a ?b (cs + 100) cs = (b', Inr (BUF_SIZE, of_nat STR_LIMIT)) \<and>
              (\<forall>j < STR_LIMIT. b' j = read_byte pk a j)"
    proof (rule less.hyps)
      show "10000000 - unat (cs + 100) < 10000000 - unat cs"
        using st by (simp add: STR_LIMIT_def)
    qed (use st less.prems le pos last in simp_all)
    then show ?thesis
      using strcmp_loop_step [OF lt] nz by (simp add: Let_def)
  qed
qed

lemma variantStrCmp_result:
  "fst (variantStrCmp v1 a1 v2 a2 s) =
     (if \<exists>j < STR_LIMIT. vbyte s v1 a1 j = 0 then - 1
      else if \<forall>j < STR_LIMIT. vbyte s v1 a1 j = vbyte s v2 a2 j then 0 else 1)"
proof -
  let ?s = "s\<lparr>bufA := memset0 (bufA s) (unat BUF_SIZE), bufB := memset0 (bufB s) (unat BUF_SIZE)\<rparr>"
  let ?l = "strcmp_loop (peekdata (proc_of s v1)) a1 (memset0 (bufA s) (unat BUF_SIZE)) 100 0"
  have c: "(100 :: word64) < BUF_SIZE" "unat (100 :: word64) mod 100 = 0" "(0 :: word64) < 100"
    by (simp_all add: word_less_nat_alt)
  show ?thesis
  proof (cases "\<exists>j < STR_LIMIT. vbyte s v1 a1 j = 0")
    case True
    then have "snd ?l = Inl (- 1)"
      by (intro strcmp_loop_short c) (simp add: vbyte_def)
    with True show ?thesis
      by (cases ?l) (simp add: variantStrCmp_def Let_def)
  next
    case False
    then have "\<exists>b'. ?l = (b', Inr (BUF_SIZE, of_nat STR_LIMIT)) \<and>
              (\<forall>j < STR_LIMIT. b' j = read_byte (peekdata (proc_of s v1)) a1 j)"
      using c by (intro strcmp_loop_long) (auto simp: vbyte_def)
    then obtain b' where l: "?l = (b', Inr (BUF_SIZE, of_nat STR_LIMIT))"
      and b': "\<forall>j < STR_LIMIT. b' j = vbyte s v1 a1 j"
      by (auto simp: vbyte_def)
    let ?c = "\<lambda>i. if i < words8 (unat BUF_SIZE) then vbyte s v2 a2 i
        else memset0 (bufB s) (unat BUF_SIZE) i"
    have r: "snd (readVariantMem v2 (memset0 (bufB s) (unat BUF_SIZE)) a2 BUF_SIZE
        (?s\<lparr>bufA := b'\<rparr>)) = ?c"
      by (simp add: readVariantMem_def read_mem_eq vbyte_def [abs_def] cong: if_cong)
    have nz: "\<forall>j < STR_LIMIT. b' j \<noteq> 0"
      using False b' by simp
    have w: "j < words8 (unat BUF_SIZE)" if "j < STR_LIMIT" for j
      using that words8_bounds(1) [of "unat BUF_SIZE"] by (simp add: STR_LIMIT_def)
    have u: "unat (of_nat STR_LIMIT :: word64) = STR_LIMIT"
      by (simp add: STR_LIMIT_def)
    have "strncmp b' ?c STR_LIMIT = 0 \<longleftrightarrow> (\<forall>j < STR_LIMIT. vbyte s v1 a1 j = vbyte s v2 a2 j)"
      using strncmp_0 [OF nz, of ?c] b' w by simp
    then show ?thesis
      unfolding if_not_P [OF False]
      using l r u by (simp add: variantStrCmp_def Let_def case_prod_beta)
  qed
qed

end
