(* ===== verification/ExecPlain.thy ===== *)
theory ExecPlain
  imports VariantMem
begin

text \<open>
  The executors of \<open>sys/*.c\<close> whose checks read only the argument registers: those that just
  let both variants run the call, those that run it in both and copy the master's result,
  and those that run it in the master alone. The first group has \<open>fadvise64\<close> and \<open>rseq\<close>,
  which resume the variants before they report a mismatch; the last one has
  \<open>set_tid_address\<close>, which copies four bytes.
\<close>

type_synonym 'k exec = "'k env \<Rightarrow> vptr \<Rightarrow> vptr \<Rightarrow> 'k mvee \<Rightarrow> (int \<times> 'k mvee) option"

text \<open>The two statements that end most executors.\<close>

definition resume_both :: "vptr \<Rightarrow> vptr \<Rightarrow> 'k mvee \<Rightarrow> 'k mvee" where
  "resume_both master replica s =
     resumeVariantFromWait replica (resumeVariantFromWait master s)"

section \<open>Both variants run the call\<close>

definition execSyscall_brk :: "'k exec" where
  "execSyscall_brk run master replica s = Some (0, resume_both master replica s)"

definition execSyscall_setRobustList :: "'k exec" where
  "execSyscall_setRobustList run master replica s = Some (0, resume_both master replica s)"

definition execSyscall_arch_prctl :: "'k exec" where
  "execSyscall_arch_prctl run master replica s =
     (if arg s master 0 \<noteq> arg s replica 0 then Some (- 1, s)
      else Some (0, resume_both master replica s))"

definition execSyscall_exit_group :: "'k exec" where
  "execSyscall_exit_group run master replica s =
     (if arg s master 0 \<noteq> arg s replica 0 then Some (- 1, s)
      else Some (0, resume_both master replica s))"

definition execSyscall_rt_sigaction :: "'k exec" where
  "execSyscall_rt_sigaction run master replica s =
     (if arg s master 0 \<noteq> arg s replica 0 then Some (- 1, s)
      else Some (0, resume_both master replica s))"

definition execSyscall_prlimit64 :: "'k exec" where
  "execSyscall_prlimit64 run master replica s =
     (if arg s master 1 \<noteq> arg s replica 1 then Some (- 1, s)
      else Some (0, resume_both master replica s))"

definition execSyscall_fadvise64 :: "'k exec" where
  "execSyscall_fadvise64 run master replica s =
     (let eq = (arg s master 0 = arg s replica 0);
          eq = (eq \<and> arg s master 1 = arg s replica 1);
          eq = (eq \<and> arg s master 2 = arg s replica 2);
          eq = (eq \<and> arg s master 3 = arg s replica 3);
          s = resume_both master replica s
      in Some (if eq then 0 else - 1, s))"

definition execSyscall_rseq :: "'k exec" where
  "execSyscall_rseq run master replica s =
     (let eq = (arg s master 1 = arg s replica 1);
          eq = (eq \<and> arg s master 2 = arg s replica 2);
          eq = (eq \<and> arg s master 3 = arg s replica 3);
          s = resume_both master replica s
      in Some (if eq then 0 else - 1, s))"

definition execSyscall_lseek :: "'k exec" where
  "execSyscall_lseek run master replica s =
     (let eq = (arg s master 0 = arg s replica 0);
          eq = (eq \<and> arg s master 1 = arg s replica 1);
          eq = (eq \<and> arg s master 2 = arg s replica 2)
      in if eq then Some (0, resume_both master replica s) else Some (- 1, s))"

definition execSyscall_socket :: "'k exec" where
  "execSyscall_socket run master replica s =
     (let eq = (arg s master 0 = arg s replica 0);
          eq = (eq \<and> arg s master 1 = arg s replica 1);
          eq = (eq \<and> arg s master 2 = arg s replica 2)
      in if eq then Some (0, resume_both master replica s) else Some (- 1, s))"

definition execSyscall_shutdown :: "'k exec" where
  "execSyscall_shutdown run master replica s =
     (let eq = (arg s master 0 = arg s replica 0);
          eq = (eq \<and> arg s master 1 = arg s replica 1)
      in if eq then
           let s = resumeVariantFromExit master s;
               s = resumeVariantFromExit replica s
           in Some (0, s)
         else Some (- 1, s))"

section \<open>The call runs in both variants, the master's result in both\<close>

definition execSyscall_close :: "'k exec" where
  "execSyscall_close run master replica s =
     (let eq = (arg s master 0 = arg s replica 0)
      in if eq then runBothCopyMasterRet run master replica s else Some (- 1, s))"

section \<open>The call runs in the master alone\<close>

definition execSyscall_getpid :: "'k exec" where
  "execSyscall_getpid run master replica s = runMasterReplicateRet run master replica s"

definition execSyscall_fchmod :: "'k exec" where
  "execSyscall_fchmod run master replica s =
     (let eq = (arg s master 0 = arg s replica 0);
          eq = (eq \<and> arg s master 1 = arg s replica 1)
      in if eq then runMasterReplicateRet run master replica s else Some (- 1, s))"

definition execSyscall_fchown :: "'k exec" where
  "execSyscall_fchown run master replica s =
     (let eq = (arg s master 0 = arg s replica 0);
          eq = (eq \<and> arg s master 1 = arg s replica 1);
          eq = (eq \<and> arg s master 2 = arg s replica 2)
      in if eq then runMasterReplicateRet run master replica s else Some (- 1, s))"

definition execSyscall_listen :: "'k exec" where
  "execSyscall_listen run master replica s =
     (let eq = (arg s master 0 = arg s replica 0);
          eq = (eq \<and> arg s master 1 = arg s replica 1)
      in if eq then runMasterReplicateRet run master replica s else Some (- 1, s))"

text \<open>
  \<open>set_tid_address\<close> checks nothing. The local variable \<open>tid\<close> is the start of a buffer whose
  earlier contents the read overwrites.
\<close>

definition execSyscall_setTidAddress :: "'k exec" where
  "execSyscall_setTidAddress run master replica s = do {
     let masterPtr = arg s master 0;
     let replicaPtr = arg s replica 0;
     let s = resumeVariantFromWait master s;
     (r, s) \<leftarrow> waitVariant run master s;
     if r \<noteq> 0 then Some (- 1, s) else do {
       let s = resumeVariantFromWait replica s;
       (r, s) \<leftarrow> waitVariant run replica s;
       if r \<noteq> 0 then Some (- 1, s) else do {
         let (_, tid) = readVariantMem master (\<lambda>_. 0) masterPtr 4 s;
         let (_, s) = writeVariantMem replica tid replicaPtr 4 s;
         let s = resumeVariantFromExit master s;
         let s = resumeVariantFromExit replica s;
         Some (0, s)
       }
     }
   }"

end
