(* ===== verification/ExecPath.thy ===== *)
theory ExecPath
  imports ExecPlain
begin

text \<open>
  The executors of \<open>sys/*.c\<close> that compare a path or another string of the two variants:
  access, openat, unlink, utimensat, chdir and getcwd by \<open>variantStrCmp\<close>, newfstatat by a
  loop of its own.
\<close>

definition execSyscall_access :: "'k exec" where
  "execSyscall_access run master replica s = (
     let eq = (arg s master 1 = arg s replica 1);
         (eq, s) = (if eq then
                      let (r, s) = variantStrCmp master (arg s master 0) replica (arg s replica 0) s
                      in (r = 0, s)
                    else (eq, s))
     in if eq then do {
          (_, s) \<leftarrow> runMasterReplicateRet run master replica s;
          Some (0, s)
        }
        else Some (- 1, s))"

definition execSyscall_openat :: "'k exec" where
  "execSyscall_openat run master replica s = (
     let eq = (arg s master 0 = arg s replica 0);
         eq = (eq \<and> arg s master 2 = arg s replica 2);
         eq = (if arg s master 3 \<noteq> 0 then eq \<and> arg s master 3 = arg s replica 3 else eq)
     in if eq then
          let (ret, s) = variantStrCmp master (arg s master 1) replica (arg s replica 1) s
          in if ret = - 1 then Some (- 1, s)
             else if ret = 0 then runBothCopyMasterRet run master replica s
             else Some (- 1, s)
        else Some (- 1, s))"

definition execSyscall_unlink :: "'k exec" where
  "execSyscall_unlink run master replica s = (
     let (r, s) = variantStrCmp master (arg s master 0) replica (arg s replica 0) s;
         eq = (r = 0)
     in if eq then runMasterReplicateRet run master replica s else Some (- 1, s))"

definition execSyscall_utimensat :: "'k exec" where
  "execSyscall_utimensat run master replica s = (
     let eq = (arg s master 0 = arg s replica 0);
         (eq, s) = (if eq then
                      let (r, s) = variantStrCmp master (arg s master 1) replica (arg s replica 1) s
                      in (r = 0, s)
                    else (eq, s));
         eq = (if eq then arg s master 3 = arg s replica 3 else eq)
     in if eq then runMasterReplicateRet run master replica s else Some (- 1, s))"

definition execSyscall_chdir :: "'k exec" where
  "execSyscall_chdir run master replica s = (
     let (r, s) = variantStrCmp master (arg s master 0) replica (arg s replica 0) s;
         eq = (r = 0)
     in if eq then Some (0, resume_both master replica s) else Some (- 1, s))"

definition execSyscall_getcwd :: "'k exec" where
  "execSyscall_getcwd run master replica s = (
     let (r, s) = variantStrCmp master (arg s master 0) replica (arg s replica 0) s;
         eq = (r = 0);
         eq = (eq \<and> arg s master 1 = arg s replica 1)
     in if eq then Some (0, resume_both master replica s) else Some (- 1, s))"

section \<open>newfstatat\<close>

definition NEWFSTATAT_BUF_SIZE :: word64 where
  "NEWFSTATAT_BUF_SIZE = 10000000"

text \<open>
  The loop over the master's path: the buffer, and the value returned from inside the loop
  (Inl) or the \<open>stringLen\<close> with which the loop ends, by \<open>break\<close> or by its condition (Inr).
\<close>

function fstatat_loop ::
    "(word64 \<Rightarrow> word64) \<Rightarrow> word64 \<Rightarrow> buffer \<Rightarrow> word64 \<Rightarrow> word64 \<Rightarrow> buffer \<times> (int + word64)" where
  "fstatat_loop pk path b curSize stringLen =
     (if curSize < NEWFSTATAT_BUF_SIZE then
        let b = snd (read_mem pk b path curSize);
            stringLen = of_nat (strnlen b (unat curSize))
        in if stringLen = NEWFSTATAT_BUF_SIZE then (b, Inl (- 1))
           else if stringLen \<noteq> curSize then (b, Inr stringLen)
           else fstatat_loop pk path b (curSize + 50) stringLen
      else (b, Inr stringLen))"
  by pat_completeness auto
termination
proof (relation "measure (\<lambda>(pk, a, b, cs, sl). unat (NEWFSTATAT_BUF_SIZE + 50) - unat cs)", goal_cases)
  case (2 pk path b cs sl x xa)
  then have "unat cs < 10000000"
    by (simp add: NEWFSTATAT_BUF_SIZE_def word_less_nat_alt)
  moreover from this have "unat (cs + 50) = unat cs + 50"
    by (simp add: unat_word_ariths)
  ultimately show ?case
    by (simp add: NEWFSTATAT_BUF_SIZE_def)
qed simp

declare fstatat_loop.simps [simp del]

text \<open>The comparison of the paths: Inl when the executor returns from it, else the result.\<close>

definition fstatat_path :: "vptr \<Rightarrow> vptr \<Rightarrow> 'k mvee \<Rightarrow> (int + bool) \<times> 'k mvee" where
  "fstatat_path master replica s =
     (let (b, res) = fstatat_loop (peekdata (proc_of s master)) (arg s master 1)
                       (newfstatat_bufA s) 1 0;
          s = s\<lparr>newfstatat_bufA := b\<rparr>
      in case res of
           Inl r \<Rightarrow> (Inl r, s)
         | Inr stringLen \<Rightarrow>
             let (_, b) = readVariantMem replica (newfstatat_bufB s) (arg s replica 1) stringLen s;
                 s = s\<lparr>newfstatat_bufB := b\<rparr>
             in (Inr (strncmp (newfstatat_bufA s) (newfstatat_bufB s) (unat stringLen) = 0), s))"

text \<open>\<open>sizeof(struct stat)\<close> is 144.\<close>

definition execSyscall_newfstatat :: "'k exec" where
  "execSyscall_newfstatat run master replica s = (
     let eq = (arg s master 0 = arg s replica 0);
         (res, s) = (if eq then fstatat_path master replica s else (Inr eq, s))
     in case res of
          Inl r \<Rightarrow> Some (r, s)
        | Inr eq \<Rightarrow>
            let eq = (eq \<and> arg s master 3 = arg s replica 3)
            in if eq then do {
                 let masterBuf = arg s master 2;
                 let replicaBuf = arg s replica 2;
                 let s = resumeVariantFromWait master s;
                 (r, s) \<leftarrow> waitVariant run master s;
                 if r \<noteq> 0 then Some (- 1, s) else do {
                   let s = requestSyscallInfo master s;
                   let masterRet = sext32 (rval s master);
                   let (ret, s) = transferVariantMem master masterBuf replica replicaBuf 144 s;
                   if ret \<noteq> 0 then Some (- 1, s) else do {
                     let s = setNopSyscall replica s;
                     let s = resumeVariantFromWait replica s;
                     (r, s) \<leftarrow> waitVariant run replica s;
                     if r \<noteq> 0 then Some (- 1, s) else do {
                       let s = setSyscallReturnValue replica masterRet s;
                       let s = resumeVariantFromExit master s;
                       let s = resumeVariantFromExit replica s;
                       Some (0, s)
                     }
                   }
                 }
               }
               else Some (- 1, s))"

end
