(* ===== verification/ExecData.thy ===== *)
theory ExecData
  imports ExecPlain
begin

text \<open>
  The executors of \<open>sys/*.c\<close> that compare or copy a buffer of the variants: read, write,
  pread64, getrandom, setsockopt, bind, rt_sigprocmask, poll, pselect6, accept4 and
  getsockname. The arguments are read when the code reads them; a comparison that does not
  depend on the result so far is made in every case, as \<open>eq &= ...\<close> is.
\<close>

text \<open>
  The change of registers in read and write: \<open>rdi\<close>, \<open>rsi\<close> and \<open>rdx\<close> of the replica become
  the file descriptor, the offset and \<open>SEEK_CUR\<close>.
\<close>

definition set_lseek_args :: "vptr \<Rightarrow> word64 \<Rightarrow> word64 \<Rightarrow> 'k mvee \<Rightarrow> 'k mvee" where
  "set_lseek_args v fd off =
     upd_proc v (\<lambda>p. setregs p ((regs p)\<lparr>rdi := fd, rsi := off, rdx := 1\<rparr>))"

definition execSyscall_read :: "'k exec" where
  "execSyscall_read run master replica s = (
     let masterFd = sext32 (arg s master 0);
         eq = (masterFd = arg s replica 0);
         masterBuf = arg s master 1;
         replicaBuf = arg s replica 1;
         eq = (eq \<and> arg s master 2 = arg s replica 2)
     in if \<not> eq then Some (- 1, s) else do {
          let s = resumeVariantFromWait master s;
          (r, s) \<leftarrow> waitVariant run master s;
          if r \<noteq> 0 then Some (- 1, s) else do {
            let s = requestSyscallInfo master s;
            let bytesRead = rval s master;
            let (ret, s) = (if bytesRead \<noteq> - 1
                            then transferVariantMem master masterBuf replica replicaBuf bytesRead s
                            else (0, s));
            if ret \<noteq> 0 then Some (- 1, s) else do {
              let s = set_lseek_args replica masterFd bytesRead s;
              let s = setSyscall replica SYS_lseek s;
              let s = resumeVariantFromWait replica s;
              (r, s) \<leftarrow> waitVariant run replica s;
              if r \<noteq> 0 then Some (- 1, s) else do {
                let s = setSyscallReturnValue replica bytesRead s;
                let s = resumeVariantFromExit master s;
                let s = resumeVariantFromExit replica s;
                Some (0, s)
              }
            }
          }
        })"

definition execSyscall_write :: "'k exec" where
  "execSyscall_write run master replica s = (
     let masterFd = sext32 (arg s master 0);
         eq = (masterFd = arg s replica 0);
         masterCount = arg s master 2;
         eq = (eq \<and> masterCount = arg s replica 2);
         (eq, s) = (if eq then
                      let (r, s) = variantMemCmp master (arg s master 1) replica (arg s replica 1)
                                     masterCount s
                      in (r = 0, s)
                    else (eq, s))
     in if \<not> eq then Some (- 1, s) else do {
          let s = resumeVariantFromWait master s;
          (r, s) \<leftarrow> waitVariant run master s;
          if r \<noteq> 0 then Some (- 1, s) else do {
            let s = requestSyscallInfo master s;
            let bytesWritten = rval s master;
            let s = set_lseek_args replica masterFd bytesWritten s;
            let s = setSyscall master SYS_lseek s;
            let s = resumeVariantFromWait replica s;
            (r, s) \<leftarrow> waitVariant run replica s;
            if r \<noteq> 0 then Some (- 1, s) else do {
              let s = setSyscallReturnValue replica bytesWritten s;
              let s = resumeVariantFromExit master s;
              let s = resumeVariantFromExit replica s;
              Some (0, s)
            }
          }
        })"

definition execSyscall_pread64 :: "'k exec" where
  "execSyscall_pread64 run master replica s = (
     let eq = (arg s master 0 = arg s replica 0);
         eq = (eq \<and> arg s master 2 = arg s replica 2);
         eq = (eq \<and> arg s master 3 = arg s replica 3);
         masterBuf = arg s master 1;
         replicaBuf = arg s replica 1
     in if eq then do {
          let s = resumeVariantFromWait master s;
          (r, s) \<leftarrow> waitVariant run master s;
          if r \<noteq> 0 then Some (- 1, s) else do {
            let s = requestSyscallInfo master s;
            let bytesRead = rval s master;
            let (ret, s) = transferVariantMem master masterBuf replica replicaBuf bytesRead s;
            if ret \<noteq> 0 then Some (- 1, s) else do {
              let s = setNopSyscall replica s;
              let s = resumeVariantFromWait replica s;
              (r, s) \<leftarrow> waitVariant run replica s;
              if r \<noteq> 0 then Some (- 1, s) else do {
                let s = setSyscallReturnValue replica bytesRead s;
                let s = resumeVariantFromExit master s;
                let s = resumeVariantFromExit replica s;
                Some (0, s)
              }
            }
          }
        }
        else Some (- 1, s))"

text \<open>\<open>getrandom\<close> ends with \<open>resumeVariantFromWait\<close>, from the exit stops.\<close>

definition execSyscall_getrandom :: "'k exec" where
  "execSyscall_getrandom run master replica s = (
     let masterBuf = arg s master 0;
         replicaBuf = arg s replica 0;
         eq = (arg s master 1 = arg s replica 1);
         eq = (eq \<and> arg s master 2 = arg s replica 2)
     in if eq then do {
          let s = resumeVariantFromWait master s;
          (r, s) \<leftarrow> waitVariant run master s;
          if r \<noteq> 0 then Some (- 1, s) else do {
            let s = requestSyscallInfo master s;
            let bytesWritten = rval s master;
            let (ret, s) = (if bytesWritten \<noteq> - 1
                            then transferVariantMem master masterBuf replica replicaBuf bytesWritten s
                            else (0, s));
            if ret \<noteq> 0 then Some (- 1, s) else do {
              let s = setNopSyscall replica s;
              let s = resumeVariantFromWait replica s;
              (r, s) \<leftarrow> waitVariant run replica s;
              if r \<noteq> 0 then Some (- 1, s) else do {
                let s = setSyscallReturnValue replica bytesWritten s;
                let s = resumeVariantFromWait master s;
                let s = resumeVariantFromWait replica s;
                Some (0, s)
              }
            }
          }
        }
        else Some (- 1, s))"

definition execSyscall_setsockopt :: "'k exec" where
  "execSyscall_setsockopt run master replica s = (
     let eq = (arg s master 0 = arg s replica 0);
         eq = (eq \<and> arg s master 1 = arg s replica 1);
         eq = (eq \<and> arg s master 2 = arg s replica 2);
         option_len_master = zext32 (arg s master 4);
         eq = (eq \<and> option_len_master = arg s replica 4);
         (eq, s) = (if eq then
                      let (r, s) = variantMemCmp master (arg s master 3) replica (arg s replica 3)
                                     option_len_master s
                      in (r = 0, s)
                    else (eq, s))
     in if eq then Some (0, resume_both master replica s) else Some (- 1, s))"

definition execSyscall_bind :: "'k exec" where
  "execSyscall_bind run master replica s = (
     let eq = (arg s master 0 = arg s replica 0);
         addrlen_master = zext32 (arg s master 2);
         eq = (eq \<and> addrlen_master = arg s replica 2);
         (r, s) = variantMemCmp master (arg s master 1) replica (arg s replica 1) addrlen_master s;
         eq = (eq \<and> r = 0)
     in if eq then runMasterReplicateRet run master replica s else Some (- 1, s))"

definition execSyscall_rt_sigprocmask :: "'k exec" where
  "execSyscall_rt_sigprocmask run master replica s = (
     let eq = (if arg s master 1 \<noteq> 0 then arg s master 0 = arg s replica 0 else True);
         (eq, s) = (if eq then
                      let (r, s) = variantMemCmp master (arg s master 1) replica (arg s replica 1)
                                     (arg s master 3) s
                      in (r = 0, s)
                    else (eq, s))
     in if eq then Some (0, resume_both master replica s) else Some (- 1, s))"

text \<open>\<open>sizeof(struct pollfd)\<close> is 8; the product wraps at 64 bits.\<close>

definition execSyscall_poll :: "'k exec" where
  "execSyscall_poll run master replica s = (
     let eq = (arg s master 1 = arg s replica 1);
         eq = (eq \<and> arg s master 2 = arg s replica 2);
         masterFds = arg s master 0;
         replicaFds = arg s replica 0;
         fdsSize = arg s master 1 * 8;
         (eq, s) = (if eq then
                      let (r, s) = variantMemCmp master masterFds replica replicaFds fdsSize s
                      in (r = 0, s)
                    else (eq, s))
     in if \<not> eq then Some (- 1, s) else do {
          let s = resumeVariantFromWait master s;
          (r, s) \<leftarrow> waitVariant run master s;
          if r = - 1 then Some (- 1, s) else do {
            let s = requestSyscallInfo master s;
            let s = setNopSyscall replica s;
            let s = resumeVariantFromWait replica s;
            (r, s) \<leftarrow> waitVariant run replica s;
            if r = - 1 then Some (- 1, s) else do {
              let (ret, s) = transferVariantMem master masterFds replica replicaFds fdsSize s;
              if ret \<noteq> 0 then Some (- 1, s) else do {
                let s = setSyscallReturnValue replica (rval s master) s;
                let s = resumeVariantFromExit master s;
                let s = resumeVariantFromExit replica s;
                Some (0, s)
              }
            }
          }
        })"

text \<open>
  \<open>sizeof(fd_set)\<close>, \<open>sizeof(struct timespec)\<close> and \<open>sizeof(sigset_t)\<close> are 128, 16 and 128.
  The replica is not resumed before the monitor waits for it.
\<close>

definition execSyscall_pselect6 :: "'k exec" where
  "execSyscall_pselect6 run master replica s = (
     let masterNfds = sext32 (arg s master 0);
         eq = (masterNfds = sext32 (arg s replica 0));
         (r, s) = variantMemCmp master (arg s master 1) replica (arg s replica 1) 128 s;
         eq = (eq \<and> r = 0);
         (r, s) = variantMemCmp master (arg s master 2) replica (arg s replica 2) 128 s;
         eq = (eq \<and> r = 0);
         (r, s) = variantMemCmp master (arg s master 3) replica (arg s replica 3) 128 s;
         eq = (eq \<and> r = 0);
         (r, s) = variantMemCmp master (arg s master 4) replica (arg s replica 4) 16 s;
         eq = (eq \<and> r = 0);
         (r, s) = variantMemCmp master (arg s master 5) replica (arg s replica 5) 128 s;
         eq = (eq \<and> r = 0);
         masterReadFds = arg s master 1; replicaReadFds = arg s replica 1;
         masterWriteFds = arg s master 2; replicaWriteFds = arg s replica 2;
         masterExceptFds = arg s master 3; replicaExceptFds = arg s replica 3
     in if \<not> eq then Some (- 1, s) else do {
          let s = resumeVariantFromWait master s;
          (r, s) \<leftarrow> waitVariant run master s;
          if r \<noteq> 0 then Some (- 1, s) else do {
            let s = requestSyscallInfo master s;
            let masterRVal = sext32 (rval s master);
            let s = setNopSyscall replica s;
            (r, s) \<leftarrow> waitVariant run replica s;
            if r \<noteq> 0 then Some (- 1, s) else do {
              let s = setSyscallReturnValue replica masterRVal s;
              let s = (if 0 <s masterRVal then
                         let (_, s) = transferVariantMem master masterReadFds replica replicaReadFds 128 s;
                             (_, s) = transferVariantMem master masterWriteFds replica replicaWriteFds 128 s;
                             (_, s) = transferVariantMem master masterExceptFds replica replicaExceptFds 128 s
                         in s
                       else s);
              let s = resumeVariantFromExit master s;
              let s = resumeVariantFromExit replica s;
              Some (0, s)
            }
          }
        })"

text \<open>
  \<open>socklen_t masterAddrLen\<close> is the first four bytes of the local buffer that
  \<open>readVariantMem\<close> fills with a whole long.
\<close>

definition socklen_of :: "buffer \<Rightarrow> word64" where
  "socklen_of b = zext32 (local_load b 0)"

definition execSyscall_accept4 :: "'k exec" where
  "execSyscall_accept4 run master replica s = (
     let eq = (arg s master 0 = arg s replica 0);
         eq = (eq \<and> arg s master 3 = arg s replica 3);
         masterAddr = arg s master 1;
         replicaAddr = arg s replica 1;
         (r, s) = variantMemCmp master (arg s master 2) replica (arg s replica 2) 4 s;
         eq = (eq \<and> r = 0);
         masterAddrLenAddr = arg s master 2
     in if \<not> eq then Some (- 1, s) else do {
          let s = resumeVariantFromWait master s;
          (r, s) \<leftarrow> waitVariant run master s;
          if r = - 1 then Some (- 1, s) else do {
            let s = requestSyscallInfo master s;
            let s = setNopSyscall replica s;
            let s = resumeVariantFromWait replica s;
            (r, s) \<leftarrow> waitVariant run replica s;
            if r = - 1 then Some (- 1, s) else do {
              let s = (if masterAddr \<noteq> 0 then
                         let (_, b) = readVariantMem master (\<lambda>_. 0) masterAddrLenAddr 4 s;
                             (_, s) = transferVariantMem master masterAddr replica replicaAddr
                                        (socklen_of b) s
                         in s
                       else s);
              let s = setSyscallReturnValue replica (rval s master) s;
              let s = resumeVariantFromExit master s;
              let s = resumeVariantFromExit replica s;
              Some (0, s)
            }
          }
        })"

definition execSyscall_getsockname :: "'k exec" where
  "execSyscall_getsockname run master replica s = (
     let eq = (arg s master 0 = arg s replica 0);
         masterBuf = arg s master 1;
         replicaBuf = arg s replica 1;
         (_, b) = readVariantMem master (\<lambda>_. 0) (arg s master 2) 4 s;
         masterLen = socklen_of b;
         (r, s) = variantMemCmp master (arg s master 2) replica (arg s replica 2) 4 s;
         eq = (eq \<and> r = 0)
     in if \<not> eq then Some (- 1, s) else do {
          let s = resumeVariantFromWait master s;
          (r, s) \<leftarrow> waitVariant run master s;
          if r \<noteq> 0 then Some (- 1, s) else do {
            let s = requestSyscallInfo master s;
            let s = setNopSyscall replica s;
            let s = resumeVariantFromWait replica s;
            (r, s) \<leftarrow> waitVariant run replica s;
            if r \<noteq> 0 then Some (- 1, s) else do {
              let s = setSyscallReturnValue replica (rval s master) s;
              let s = (if rval s master = 0
                       then snd (transferVariantMem master masterBuf replica replicaBuf masterLen s)
                       else s);
              let s = resumeVariantFromExit master s;
              let s = resumeVariantFromExit replica s;
              Some (0, s)
            }
          }
        })"

end
