(* ===== verification/ExecMap.thy ===== *)
theory ExecMap
  imports ExecPlain
begin

text \<open>
  \<open>security_manager.c\<close> and the executors of the calls that change the address space: mmap,
  mprotect and munmap, the clients of the mapping list.
\<close>

abbreviation (input) PROT_WRITE :: word32 where "PROT_WRITE \<equiv> 2"
abbreviation (input) MAP_PRIVATE :: word32 where "MAP_PRIVATE \<equiv> 2"

definition checkMMapPerms :: "word32 \<Rightarrow> word32 \<Rightarrow> int" where
  "checkMMapPerms pr fl =
     (if pr AND PROT_WRITE \<noteq> 0 \<and> \<not> (fl AND MAP_PRIVATE \<noteq> 0) then - 1 else 0)"

text \<open>
  The length handed to \<open>addMapping\<close> is read from \<open>entry.args[1]\<close> after
  \<open>requestSyscallInfo\<close> has overwritten the struct with the exit information.
\<close>

definition execSyscall_mmap :: "'k exec" where
  "execSyscall_mmap run master replica s = (
     let eq = (arg s master 1 = arg s replica 1);
         masterProt = (ucast (arg s master 2) :: word32);
         eq = (eq \<and> scast masterProt = arg s replica 2);
         masterFlags = (ucast (arg s master 3) :: word32);
         eq = (eq \<and> scast masterFlags = arg s replica 3);
         eq = (eq \<and> arg s master 4 = arg s replica 4);
         eq = (eq \<and> arg s master 5 = arg s replica 5)
     in if \<not> eq then Some (- 1, s)
        else if checkMMapPerms masterProt masterFlags \<noteq> 0 then Some (- 1, s)
        else do {
          let s = resumeVariantFromWait master s;
          (r, s) \<leftarrow> waitVariant run master s;
          if r \<noteq> 0 then Some (- 1, s) else do {
            let s = requestSyscallInfo master s;
            let mappedAdrmaster = rval s master;
            let s = resumeVariantFromExit master s;
            mh \<leftarrow> addMapping mappedAdrmaster (arg s master 1) masterProt masterFlags (mmaps s);
            let s = s\<lparr>mmaps := mh\<rparr>;
            let s = resumeVariantFromWait replica s;
            Some (0, s)
          }
        })"

definition execSyscall_mprotect :: "'k exec" where
  "execSyscall_mprotect run master replica s = (
     let targetAddr = arg s master 0;
         eq = (arg s master 1 = arg s replica 1);
         newProt = (ucast (arg s master 2) :: word32);
         eq = (eq \<and> scast newProt = arg s replica 2)
     in if eq then do {
          map \<leftarrow> findMapping targetAddr (mmaps s);
          denied \<leftarrow> (case map of
                       None \<Rightarrow> Some False
                     | Some c \<Rightarrow> do {
                         e \<leftarrow> entry_at (mmaps s) c;
                         Some (checkMMapPerms newProt (flags e) \<noteq> 0)
                       });
          if denied then Some (- 1, s) else Some (0, resume_both master replica s)
        }
        else Some (- 1, s))"

text \<open>\<open>printMappings\<close> walks the list on the two error paths; its lines are output.\<close>

definition execSyscall_munmap :: "'k exec" where
  "execSyscall_munmap run master replica s = (
     let targetAddr = arg s master 0;
         eq = (arg s master 1 = arg s replica 1)
     in if \<not> eq then Some (- 1, s) else do {
          map \<leftarrow> findMapping targetAddr (mmaps s);
          case map of
            None \<Rightarrow> do {
              _ \<leftarrow> printMappings (mmaps s);
              Some (- 1, s)
            }
          | Some c \<Rightarrow> do {
              e \<leftarrow> entry_at (mmaps s) c;
              if addr e \<noteq> targetAddr then do {
                _ \<leftarrow> printMappings (mmaps s);
                Some (- 1, s)
              }
              else do {
                (_, mh) \<leftarrow> removeMapping (addr e) (mmaps s);
                let s = s\<lparr>mmaps := mh\<rparr>;
                Some (0, resume_both master replica s)
              }
            }
        })"

end
