(* ===== verification/Monitor.thy ===== *)
theory Monitor
  imports ExecPath ExecData ExecMap
begin

text \<open>
  \<open>monitor.c\<close>: the dispatch of a system call that both variants have reached, the handling of
  one stop of one variant, and the main loop. A call of \<open>exit\<close> ends the monitor, so the
  results of the handlers say whether they return or exit.
\<close>

section \<open>The dispatch\<close>

text \<open>The four calls without arguments are resumed in both variants by the switch itself.\<close>

definition exec_no_args :: "'k exec" where
  "exec_no_args run master replica s = Some (0, resume_both master replica s)"

text \<open>The cases of the switch of \<open>processSyscallSync\<close>, in its order.\<close>

definition dispatch_table :: "(word64 \<times> 'k exec) list" where
  "dispatch_table =
    [(SYS_getuid, exec_no_args), (SYS_geteuid, exec_no_args), (SYS_getgid, exec_no_args),
     (SYS_getegid, exec_no_args), (SYS_brk, execSyscall_brk), (SYS_mmap, execSyscall_mmap),
     (SYS_read, execSyscall_read), (SYS_arch_prctl, execSyscall_arch_prctl),
     (SYS_openat, execSyscall_openat), (SYS_close, execSyscall_close),
     (SYS_write, execSyscall_write), (SYS_pread64, execSyscall_pread64),
     (SYS_newfstatat, execSyscall_newfstatat), (SYS_access, execSyscall_access),
     (SYS_set_tid_address, execSyscall_setTidAddress),
     (SYS_set_robust_list, execSyscall_setRobustList), (SYS_mprotect, execSyscall_mprotect),
     (SYS_munmap, execSyscall_munmap), (SYS_rseq, execSyscall_rseq),
     (SYS_fadvise64, execSyscall_fadvise64), (SYS_getrandom, execSyscall_getrandom),
     (SYS_exit_group, execSyscall_exit_group), (SYS_prlimit64, execSyscall_prlimit64),
     (SYS_rt_sigaction, execSyscall_rt_sigaction),
     (SYS_rt_sigprocmask, execSyscall_rt_sigprocmask), (SYS_unlink, execSyscall_unlink),
     (SYS_utimensat, execSyscall_utimensat), (SYS_fchown, execSyscall_fchown),
     (SYS_fchmod, execSyscall_fchmod), (SYS_lseek, execSyscall_lseek),
     (SYS_getcwd, execSyscall_getcwd), (SYS_getpid, execSyscall_getpid),
     (SYS_chdir, execSyscall_chdir), (SYS_socket, execSyscall_socket),
     (SYS_setsockopt, execSyscall_setsockopt), (SYS_bind, execSyscall_bind),
     (SYS_listen, execSyscall_listen), (SYS_accept4, execSyscall_accept4),
     (SYS_poll, execSyscall_poll), (SYS_shutdown, execSyscall_shutdown),
     (SYS_getsockname, execSyscall_getsockname), (SYS_pselect6, execSyscall_pselect6)]"

definition processSyscallSync :: "'k exec" where
  "processSyscallSync run master replica s =
     (if si_op (syscallInfo (vars s master)) \<noteq> si_op (syscallInfo (vars s replica))
      then Some (- 1, s)
      else if nr s master \<noteq> nr s replica then Some (- 1, s)
      else (case map_of dispatch_table (nr s master) of
              Some exec \<Rightarrow> exec run master replica s
            | None \<Rightarrow> Some (- 1, s)))"

section \<open>One stop of one variant\<close>

datatype outcome = Returned int | Exits int

definition processVariantEvent ::
    "'k env \<Rightarrow> vptr \<Rightarrow> vptr \<Rightarrow> 'k mvee \<Rightarrow> (outcome \<times> 'k mvee) option" where
  "processVariantEvent run vSelf vOther s = (
     let s = requestSyscallInfo vSelf s in
     if si_op (syscallInfo (vars s vSelf)) = PTRACE_SYSCALL_INFO_ENTRY then
       if syscallNum (vars s vSelf) = syscallNum (vars s vOther) then
         if state (vars s vOther) = VSTATE_WAIT then do {
           let vmaster = (if vtype (vars s vSelf) = VTYPE_master then vSelf else vOther);
           let vreplica = (if vtype (vars s vSelf) = VTYPE_master then vOther else vSelf);
           (result, s) \<leftarrow> processSyscallSync run vmaster vreplica s;
           if result \<noteq> 0 then do {
             let s = upd_proc vmaster kill9 s;
             let s = upd_proc vreplica kill9 s;
             Some (Returned result, s)
           }
           else Some (Returned 0, s)
         }
         else Some (Returned 0, upd_var vSelf (\<lambda>x. x\<lparr>state := VSTATE_WAIT\<rparr>) s)
       else if syscallNum (vars s vSelf) > syscallNum (vars s vOther) then
         Some (Returned 0, upd_var vSelf (\<lambda>x. x\<lparr>state := VSTATE_WAIT\<rparr>) s)
       else Some (Exits 1, s)
     else if si_op (syscallInfo (vars s vSelf)) = PTRACE_SYSCALL_INFO_EXIT then
       Some (Returned 0, resumeVariantFromExit vSelf s)
     else Some (Exits 1, s))"

section \<open>The main loop\<close>

text \<open>
  One round of \<open>while (1)\<close>, for the child that \<open>waitpid(-1, ...)\<close> reports: the round goes on
  (Inr) or the monitor exits with a status (Inl). The loop is left by \<open>break\<close> when a variant
  has exited, and \<open>main\<close> then exits with \<open>EXIT_SUCCESS\<close>.
\<close>

fun other :: "vptr \<Rightarrow> vptr" where
  "other Vmaster = Vreplica"
| "other Vreplica = Vmaster"

definition child_event :: "'k env \<Rightarrow> vptr \<Rightarrow> 'k mvee \<Rightarrow> ((int + unit) \<times> 'k mvee) option" where
  "child_event run v s = do {
     (status, s) \<leftarrow> waitpid run v s;
     if checkVariantExit status \<noteq> 0 then Some (Inl 0, s) else do {
       (res, s) \<leftarrow> processVariantEvent run v (other v) s;
       Some (case res of
               Returned r \<Rightarrow> if r \<noteq> 0 then Inl 1 else Inr ()
             | Exits c \<Rightarrow> Inl c, s)
     }
   }"

definition main_round :: "'k env \<Rightarrow> int \<Rightarrow> 'k mvee \<Rightarrow> ((int + unit) \<times> 'k mvee) option" where
  "main_round run child s =
     (if child = pid (vars s Vmaster) then child_event run Vmaster s
      else if child = pid (vars s Vreplica) then child_event run Vreplica s
      else Some (Inl 1, s))"

text \<open>The loop over the sequence of children reported, up to the exit or the sequence's end.\<close>

fun main_loop :: "'k env \<Rightarrow> int list \<Rightarrow> 'k mvee \<Rightarrow> ((int + unit) \<times> 'k mvee) option" where
  "main_loop run [] s = Some (Inr (), s)"
| "main_loop run (child # children) s = do {
     (res, s) \<leftarrow> main_round run child s;
     case res of Inl c \<Rightarrow> Some (Inl c, s) | Inr _ \<Rightarrow> main_loop run children s
   }"

text \<open>
  The part of \<open>main\<close> before the loop: the two variants are created and resumed. The outcomes
  of \<open>fork\<close> and of the calls in the children are those of \<open>initVariant\<close>.
\<close>

definition start_variants ::
    "int \<Rightarrow> int \<Rightarrow> proc \<Rightarrow> bool \<Rightarrow> proc option \<Rightarrow> bool \<Rightarrow> proc option \<Rightarrow> 'k mvee \<Rightarrow> 'k mvee" where
  "start_variants mpid rpid child maff mimg raff rimg s =
     (let s = initVariant Vmaster VTYPE_master mpid child maff mimg s;
          s = resumeVariantFromWait Vmaster s;
          s = initVariant Vreplica VTYPE_replica rpid child raff rimg s;
          s = resumeVariantFromWait Vreplica s
      in s)"

text \<open>
  \<open>main\<close>: the checks at its start, then the two variants and the loop. The number of arguments,
  the number of processors (\<open>sysconf\<close>) and the processors a process may be pinned to
  (\<open>sched_setaffinity\<close>, here and in the two children) are arguments.
\<close>

definition main_program ::
    "'k env \<Rightarrow> int \<Rightarrow> int \<Rightarrow> (int \<Rightarrow> bool) \<Rightarrow> int \<Rightarrow> int \<Rightarrow> proc \<Rightarrow> proc option \<Rightarrow> proc option \<Rightarrow>
     int list \<Rightarrow> 'k mvee \<Rightarrow> ((int + unit) \<times> 'k mvee) option" where
  "main_program run argc systemCores affinity mpid rpid child mimg rimg children s =
     (if argc < 1 then Some (Inl 1, s)
      else if systemCores = - 1 then Some (Inl 1, s)
      else if \<not> affinity (systemCores - 1) then Some (Inl 1, s)
      else main_loop run children
             (start_variants mpid rpid child (affinity (systemCores - 2)) mimg
                (affinity (systemCores - 3)) rimg s))"

end
