(* ===== verification/Lockstep.thy ===== *)
theory Lockstep
  imports Monitor
begin

text \<open>
  What the executors do to the two variants as processes: at which stop they leave them and
  how they count the call. The primitives are given by their effect on the observables
  (\<open>vars\<close>, \<open>proc_of\<close>, \<open>pids_ok\<close>), so that an executor is evaluated by rewriting; the
  contract all executors share is the locale \<open>sync_executor\<close>, interpreted on each of them.
\<close>

section \<open>The primitives on the variants and their processes\<close>

lemma prim_vars [simp, prim_simps]:
  "vars (resumeVariantFromWait v s) w = (if w = v then (vars s v)\<lparr>state := VSTATE_RUNNING\<rparr> else vars s w)"
  "vars (resumeVariantFromExit v s) w =
     (if w = v then (vars s v)\<lparr>syscallNum := syscallNum (vars s v) + 1\<rparr> else vars s w)"
  "vars (requestSyscallInfo v s) w =
     (if w = v then (vars s v)\<lparr>syscallInfo := get_syscall_info (proc_of s v)\<rparr> else vars s w)"
  "vars (setSyscall v n s) = vars s"
  "vars (setNopSyscall v s) = vars s"
  "vars (setSyscallReturnValue v x s) = vars s"
  "vars (set_lseek_args v x y s) = vars s"
  "vars (snd (writeVariantMem v b a sz s)) = vars s"
  "vars (snd (fstatat_path v v' s)) = vars s"
  by (simp_all add: ctl_defs set_lseek_args_def writeVariantMem_def fstatat_path_def Let_def
      case_prod_beta split: sum.splits)

lemma prim_pids_ok [simp, prim_simps]:
  "pids_ok (resumeVariantFromWait v s) = pids_ok s"
  "pids_ok (resumeVariantFromExit v s) = pids_ok s"
  "pids_ok (requestSyscallInfo v s) = pids_ok s"
  "pids_ok (setSyscall v n s) = pids_ok s"
  "pids_ok (setNopSyscall v s) = pids_ok s"
  "pids_ok (setSyscallReturnValue v x s) = pids_ok s"
  "pids_ok (set_lseek_args v x y s) = pids_ok s"
  "pids_ok (snd (writeVariantMem v b a sz s)) = pids_ok s"
  "pids_ok (snd (fstatat_path v v' s)) = pids_ok s"
  "pids_ok (snd (variantMemCmp v a v' a' sz s)) = pids_ok s"
  "pids_ok (snd (variantStrCmp v a v' a' s)) = pids_ok s"
  "pids_ok (s\<lparr>mmaps := mh\<rparr>) = pids_ok s"
  by (auto simp: pids_ok_def)

lemma proc_of_upds [simp]:
  "proc_of (s\<lparr>mmaps := mh\<rparr>) w = proc_of s w"
  "proc_of (s\<lparr>newfstatat_bufA := b\<rparr>) w = proc_of s w"
  "proc_of (s\<lparr>newfstatat_bufB := b\<rparr>) w = proc_of s w"
  "proc_of (snd (variantMemCmp v a v' a' sz s)) w = proc_of s w"
  "proc_of (snd (variantStrCmp v a v' a' s)) w = proc_of s w"
  by (simp_all add: proc_of_def)

lemma prim_proc_of [simp, prim_simps]:
  "pids_ok s \<Longrightarrow> proc_of (resumeVariantFromWait v s) w = (if w = v then ptrace_syscall (proc_of s v) else proc_of s w)"
  "pids_ok s \<Longrightarrow> proc_of (resumeVariantFromExit v s) w = (if w = v then ptrace_syscall (proc_of s v) else proc_of s w)"
  "proc_of (requestSyscallInfo v s) w = proc_of s w"
  "pids_ok s \<Longrightarrow> proc_of (setSyscall v n s) w = (if w = v then pokeuser (proc_of s v) 120 n else proc_of s w)"
  "pids_ok s \<Longrightarrow> proc_of (setNopSyscall v s) w = (if w = v then pokeuser (proc_of s v) 120 39 else proc_of s w)"
  "pids_ok s \<Longrightarrow> proc_of (setSyscallReturnValue v x s) w = (if w = v then pokeuser (proc_of s v) 80 x else proc_of s w)"
  "pids_ok s \<Longrightarrow> proc_of (set_lseek_args v x y s) w =
     (if w = v then setregs (proc_of s v) ((regs (proc_of s v))\<lparr>rdi := x, rsi := y, rdx := 1\<rparr>) else proc_of s w)"
  "pids_ok s \<Longrightarrow> proc_of (snd (writeVariantMem v b a sz s)) w =
     (if w = v then snd (write_proc b a sz (proc_of s v)) else proc_of s w)"
  "proc_of (snd (fstatat_path v v' s)) w = proc_of s w"
  by (simp_all add: ctl_defs set_lseek_args_def writeVariantMem_def fstatat_path_def Let_def
      case_prod_beta split: sum.splits)

lemma arg_frames [simp, frame_simps]:
  "arg (snd (variantMemCmp v a v' a' sz s)) = arg s"
  "arg (snd (variantStrCmp v a v' a' s)) = arg s"
  "arg (snd (transferVariantMem sv sa dv da sz s)) = arg s"
  "arg (snd (fstatat_path v v' s)) = arg s"
  "rval (snd (transferVariantMem sv sa dv da sz s)) = rval s"
  "rval (setSyscallReturnValue v x s) = rval s"
  by (simp_all add: arg_def rval_def fun_eq_iff)

lemma vbyte_frames [simp, frame_simps]:
  "vbyte (snd (variantMemCmp v a v' a' sz s)) = vbyte s"
  "vbyte (snd (variantStrCmp v a v' a' s)) = vbyte s"
  by (simp_all add: vbyte_def fun_eq_iff)

section \<open>Running a variant from its entry stop to its exit stop\<close>

text \<open>
  \<open>ran v k p s\<close>: variant \<open>v\<close> was resumed and waited for, and the world and the process
  became \<open>k\<close> and \<open>p\<close>.
\<close>

definition ran :: "vptr \<Rightarrow> 'k \<Rightarrow> proc \<Rightarrow> 'k mvee \<Rightarrow> 'k mvee" where
  "ran v k p s = upd_proc v (\<lambda>_. p) ((resumeVariantFromWait v s)\<lparr>world := k\<rparr>)"

lemma ran_sel [simp, prim_simps]:
  "vars (ran v k p s) w = (if w = v then (vars s v)\<lparr>state := VSTATE_RUNNING\<rparr> else vars s w)"
  "pids_ok (ran v k p s) = pids_ok s"
  "pids_ok s \<Longrightarrow> proc_of (ran v k p s) w = (if w = v then p else proc_of s w)"
  "world (ran v k p s) = k" "mmaps (ran v k p s) = mmaps s"
  by (simp_all add: ran_def) (simp_all add: resumeVariantFromWait_def)

lemma wait_resumed:
  assumes "pids_ok s" and "ps (proc_of s v) = EntryStop"
  shows "waitVariant run v (resumeVariantFromWait v s) = Some (r, s') \<longleftrightarrow>
     (\<exists>k p. run (world s) (pid (vars s v)) (ptrace_syscall (proc_of s v)) = (k, p) \<and>
            r = checkVariantExit (wait_status p) \<and> s' = ran v k p s)"
  using assms by (simp add: waitVariant_Some ran_def) (simp add: resumeVariantFromWait_def)

lemma wait_resumed_exit:
  assumes "ptrace_alternates run" and "pids_ok s" and "ps (proc_of s v) = EntryStop"
    and "waitVariant run v (resumeVariantFromWait v s) = Some (r, s')" and "r = 0 \<or> r \<noteq> - 1"
  obtains k p where "ps p = ExitStop" and "s' = ran v k p s"
    and "run (world s) (pid (vars s v)) (ptrace_syscall (proc_of s v)) = (k, p)"
proof -
  obtain k p where run: "run (world s) (pid (vars s v)) (ptrace_syscall (proc_of s v)) = (k, p)"
    and r: "r = checkVariantExit (wait_status p)" and s': "s' = ran v k p s"
    using assms(4) wait_resumed [OF assms(2,3)] by blast
  have "checkVariantExit (wait_status p) = 0"
    using assms(5) checkVariantExit_range [of "wait_status p"] r by auto
  then have "ps p = ExitStop"
    by (intro run_exit_stop [OF assms(1) run]) (simp_all add: assms(3))
  then show ?thesis using that run s' by blast
qed

section \<open>The contract of an executor\<close>

text \<open>
  \<open>at_entry s\<close>: both variants are stopped at the entry of a system call. \<open>released\<close>: they
  have both been let into the call; or the call is complete in both and both are running
  again, counted or not; or it is complete in the master and the replica is in it.
\<close>

definition at_entry :: "'k mvee \<Rightarrow> bool" where
  "at_entry s \<longleftrightarrow> pids_ok s \<and> (\<forall>v. ps (proc_of s v) = EntryStop)"

definition same_ids :: "'k mvee \<Rightarrow> 'k mvee \<Rightarrow> bool" where
  "same_ids s s' \<longleftrightarrow> (\<forall>v. pid (vars s' v) = pid (vars s v) \<and> vtype (vars s' v) = vtype (vars s v))"

definition moved :: "vptr \<Rightarrow> pstate \<Rightarrow> word64 \<Rightarrow> 'k mvee \<Rightarrow> 'k mvee \<Rightarrow> bool" where
  "moved v st d s s' \<longleftrightarrow>
     ps (proc_of s' v) = st \<and> syscallNum (vars s' v) = syscallNum (vars s v) + d"

definition released :: "vptr \<Rightarrow> vptr \<Rightarrow> 'k mvee \<Rightarrow> 'k mvee \<Rightarrow> bool" where
  "released m r s s' \<longleftrightarrow>
     same_ids s s' \<and> (\<forall>v. state (vars s' v) = VSTATE_RUNNING) \<and>
     (moved m InSyscall 0 s s' \<and> moved r InSyscall 0 s s' \<or>
      moved m InUser 1 s s' \<and> moved r InUser 1 s s' \<or>
      moved m InUser 0 s s' \<and> moved r InUser 0 s s' \<or>
      moved m InUser 1 s s' \<and> moved r InSyscall 0 s s')"

locale sync_executor =
  fixes exec :: "'k exec"
  assumes releases: "ptrace_alternates run \<Longrightarrow> m \<noteq> r \<Longrightarrow> at_entry s \<Longrightarrow>
      exec run m r s = Some (0, s') \<Longrightarrow> released m r s s'"
begin

text \<open>After an accepted call no variant is left at a stop, and the identities are kept.\<close>

lemma leaves_running:
  assumes "ptrace_alternates run" and "m \<noteq> r" and "at_entry s" and "exec run m r s = Some (0, s')"
  shows "is_running (ps (proc_of s' v))" and "state (vars s' v) = VSTATE_RUNNING"
proof -
  have "v = m \<or> v = r"
    using assms(2) by (cases v; cases m; cases r) simp_all
  with releases [OF assms] show "is_running (ps (proc_of s' v))" "state (vars s' v) = VSTATE_RUNNING"
    by (auto simp: released_def moved_def)
qed

lemma keeps_ids:
  assumes "ptrace_alternates run" and "m \<noteq> r" and "at_entry s" and "exec run m r s = Some (0, s')"
  shows "pids_ok s'"
proof -
  have "same_ids s s'" and "pids_ok s"
    using releases [OF assms] assms(3) by (auto simp: released_def at_entry_def)
  then show ?thesis by (simp add: pids_ok_def same_ids_def)
qed

end

lemma all_vptr_two: "(m :: vptr) \<noteq> r \<Longrightarrow> (\<forall>v. P v) \<longleftrightarrow> P m \<and> P r"
  by (cases m; cases r) (auto simp: vptr_all)

lemma resume_both_released:
  "m \<noteq> r \<Longrightarrow> at_entry s \<Longrightarrow> released m r s (resume_both m r s)"
  by (simp add: released_def same_ids_def moved_def resume_both_def at_entry_def
      all_vptr_two [of m r])


lemma wait_resumed_0:
  assumes "ptrace_alternates run" and "pids_ok s" and "ps (proc_of s v) = EntryStop"
  shows "waitVariant run v (resumeVariantFromWait v s) = Some (0, s') \<longleftrightarrow>
     (\<exists>k p. ps p = ExitStop \<and> s' = ran v k p s \<and>
        run (world s) (pid (vars s v)) (ptrace_syscall (proc_of s v)) = (k, p))"
  using wait_resumed [OF assms(2,3)] wait_resumed_exit [OF assms, of 0 s'] check_stop
  by (metis is_stop.simps(2))

text \<open>The two comparisons of a wait's result, with 0 and with -1, agree.\<close>

lemma wait_range: "waitVariant run v s = Some (r, s') \<Longrightarrow> r = 0 \<or> r = - 1"
  using checkVariantExit_range by (fastforce simp: waitVariant_Some)

lemma wait_stopped [simp]:
  "\<not> is_running (ps (proc_of s v)) \<Longrightarrow> waitVariant run v s = None"
  by (simp add: waitVariant_None)

lemma wait_minus_1 [simp]:
  "Option.bind (waitVariant run v s) (\<lambda>(r, s'). if r = - 1 then A r s' else B r s') =
   Option.bind (waitVariant run v s) (\<lambda>(r, s'). if r = 0 then B r s' else A r s')"
proof (cases "waitVariant run v s")
  case (Some x)
  then have "fst x = 0 \<or> fst x = - 1"
    by (cases x) (auto dest: wait_range)
  with Some show ?thesis by (auto simp: case_prod_beta)
qed simp

lemma fstatat_loop_Inl: "snd (fstatat_loop pk a b cs sl) = Inl x \<Longrightarrow> x = - 1"
proof (induction pk a b cs sl rule: fstatat_loop.induct)
  case (1 pk a b cs sl)
  note prem = "1.prems" [unfolded fstatat_loop.simps [of pk a b cs sl]]
  show ?case
    using prem "1.IH" [OF _ refl refl] by (auto simp: Let_def split: if_splits)
qed

lemma fstatat_path_Inl: "fst (fstatat_path m r s) = Inl x \<Longrightarrow> x = - 1"
  by (cases "fstatat_loop (peekdata (proc_of s m)) (arg s m 1) (newfstatat_bufA s) 1 0")
    (auto simp: fstatat_path_def Let_def case_prod_beta
      split: sum.splits intro: fstatat_loop_Inl [OF trans [OF arg_cong [where f = snd]]])

lemma sync_executorI:
  assumes "\<And>run m r s s'. \<lbrakk>ptrace_alternates run; m \<noteq> r; r \<noteq> m; pids_ok s; ps (proc_of s m) = EntryStop;
      ps (proc_of s r) = EntryStop; exec run m r s = Some (0, s')\<rbrakk> \<Longrightarrow> released m r s s'"
  shows "sync_executor exec"
  using assms unfolding sync_executor_def at_entry_def by metis

lemma released_iff:
  "m \<noteq> r \<Longrightarrow> released m r s s' \<longleftrightarrow>
     pid (vars s' m) = pid (vars s m) \<and> vtype (vars s' m) = vtype (vars s m) \<and>
     pid (vars s' r) = pid (vars s r) \<and> vtype (vars s' r) = vtype (vars s r) \<and>
     state (vars s' m) = VSTATE_RUNNING \<and> state (vars s' r) = VSTATE_RUNNING \<and>
     (moved m InSyscall 0 s s' \<and> moved r InSyscall 0 s s' \<or>
      moved m InUser 1 s s' \<and> moved r InUser 1 s s' \<or>
      moved m InUser 0 s s' \<and> moved r InUser 0 s s' \<or>
      moved m InUser 1 s s' \<and> moved r InSyscall 0 s s')"
  by (simp add: released_def same_ids_def all_vptr_two [of m r])

lemmas run_simps = Let_def bindE case_prod_beta wait_resumed_0 released_iff moved_def

text \<open>
  Every executor of the switch keeps the contract but two: \<open>execSyscall_shutdown\<close>, and
  \<open>execSyscall_access\<close>, which drops the result of \<open>runMasterReplicateRet\<close>.
\<close>

interpretation x_no_args: sync_executor exec_no_args
  by (rule sync_executorI) (clarsimp simp: exec_no_args_def resume_both_def run_simps)

interpretation x_brk: sync_executor execSyscall_brk
  by (rule sync_executorI)
    (clarsimp simp: execSyscall_brk_def resume_both_def run_simps split: if_splits)

interpretation x_setRobustList: sync_executor execSyscall_setRobustList
  by (rule sync_executorI)
    (clarsimp simp: execSyscall_setRobustList_def resume_both_def run_simps split: if_splits)

interpretation x_arch_prctl: sync_executor execSyscall_arch_prctl
  by (rule sync_executorI)
    (clarsimp simp: execSyscall_arch_prctl_def resume_both_def run_simps split: if_splits)

interpretation x_exit_group: sync_executor execSyscall_exit_group
  by (rule sync_executorI)
    (clarsimp simp: execSyscall_exit_group_def resume_both_def run_simps split: if_splits)

interpretation x_rt_sigaction: sync_executor execSyscall_rt_sigaction
  by (rule sync_executorI)
    (clarsimp simp: execSyscall_rt_sigaction_def resume_both_def run_simps split: if_splits)

interpretation x_prlimit64: sync_executor execSyscall_prlimit64
  by (rule sync_executorI)
    (clarsimp simp: execSyscall_prlimit64_def resume_both_def run_simps split: if_splits)

interpretation x_fadvise64: sync_executor execSyscall_fadvise64
  by (rule sync_executorI)
    (clarsimp simp: execSyscall_fadvise64_def resume_both_def run_simps split: if_splits)

interpretation x_rseq: sync_executor execSyscall_rseq
  by (rule sync_executorI)
    (clarsimp simp: execSyscall_rseq_def resume_both_def run_simps split: if_splits)

interpretation x_lseek: sync_executor execSyscall_lseek
  by (rule sync_executorI)
    (clarsimp simp: execSyscall_lseek_def resume_both_def run_simps split: if_splits)

interpretation x_socket: sync_executor execSyscall_socket
  by (rule sync_executorI)
    (clarsimp simp: execSyscall_socket_def resume_both_def run_simps split: if_splits)

interpretation x_close: sync_executor execSyscall_close
  by (rule sync_executorI)
    (clarsimp simp: execSyscall_close_def resume_both_def runBothCopyMasterRet_def run_simps split: if_splits)

interpretation x_getpid: sync_executor execSyscall_getpid
  by (rule sync_executorI)
    (clarsimp simp: execSyscall_getpid_def resume_both_def runMasterReplicateRet_def run_simps split: if_splits)

interpretation x_fchmod: sync_executor execSyscall_fchmod
  by (rule sync_executorI)
    (clarsimp simp: execSyscall_fchmod_def resume_both_def runMasterReplicateRet_def run_simps split: if_splits)

interpretation x_fchown: sync_executor execSyscall_fchown
  by (rule sync_executorI)
    (clarsimp simp: execSyscall_fchown_def resume_both_def runMasterReplicateRet_def run_simps split: if_splits)

interpretation x_listen: sync_executor execSyscall_listen
  by (rule sync_executorI)
    (clarsimp simp: execSyscall_listen_def resume_both_def runMasterReplicateRet_def run_simps split: if_splits)

interpretation x_setTidAddress: sync_executor execSyscall_setTidAddress
  by (rule sync_executorI)
    (clarsimp simp: execSyscall_setTidAddress_def resume_both_def run_simps split: if_splits)

interpretation x_openat: sync_executor execSyscall_openat
  by (rule sync_executorI)
    (clarsimp simp: execSyscall_openat_def resume_both_def runBothCopyMasterRet_def run_simps split: if_splits)

interpretation x_unlink: sync_executor execSyscall_unlink
  by (rule sync_executorI)
    (clarsimp simp: execSyscall_unlink_def resume_both_def runMasterReplicateRet_def run_simps split: if_splits)

interpretation x_utimensat: sync_executor execSyscall_utimensat
  by (rule sync_executorI)
    (clarsimp simp: execSyscall_utimensat_def resume_both_def runMasterReplicateRet_def run_simps split: if_splits)

interpretation x_chdir: sync_executor execSyscall_chdir
  by (rule sync_executorI)
    (clarsimp simp: execSyscall_chdir_def resume_both_def run_simps split: if_splits)

interpretation x_getcwd: sync_executor execSyscall_getcwd
  by (rule sync_executorI)
    (clarsimp simp: execSyscall_getcwd_def resume_both_def run_simps split: if_splits)

interpretation x_newfstatat: sync_executor execSyscall_newfstatat
  by (rule sync_executorI)
    (clarsimp simp: execSyscall_newfstatat_def resume_both_def run_simps
      split: if_splits sum.splits dest!: fstatat_path_Inl)

interpretation x_read: sync_executor execSyscall_read
  by (rule sync_executorI)
    (clarsimp simp: execSyscall_read_def resume_both_def run_simps split: if_splits)

interpretation x_write: sync_executor execSyscall_write
  by (rule sync_executorI)
    (clarsimp simp: execSyscall_write_def resume_both_def run_simps split: if_splits)

interpretation x_pread64: sync_executor execSyscall_pread64
  by (rule sync_executorI)
    (clarsimp simp: execSyscall_pread64_def resume_both_def run_simps split: if_splits)

interpretation x_getrandom: sync_executor execSyscall_getrandom
  by (rule sync_executorI)
    (clarsimp simp: execSyscall_getrandom_def resume_both_def run_simps split: if_splits)

interpretation x_setsockopt: sync_executor execSyscall_setsockopt
  by (rule sync_executorI)
    (clarsimp simp: execSyscall_setsockopt_def resume_both_def run_simps split: if_splits)

interpretation x_bind: sync_executor execSyscall_bind
  by (rule sync_executorI)
    (clarsimp simp: execSyscall_bind_def resume_both_def runMasterReplicateRet_def run_simps split: if_splits)

interpretation x_rt_sigprocmask: sync_executor execSyscall_rt_sigprocmask
  by (rule sync_executorI)
    (clarsimp simp: execSyscall_rt_sigprocmask_def resume_both_def run_simps split: if_splits)

interpretation x_poll: sync_executor execSyscall_poll
  by (rule sync_executorI)
    (clarsimp simp: execSyscall_poll_def resume_both_def run_simps split: if_splits)

interpretation x_pselect6: sync_executor execSyscall_pselect6
  by (rule sync_executorI)
    (clarsimp simp: execSyscall_pselect6_def resume_both_def run_simps split: if_splits)

interpretation x_accept4: sync_executor execSyscall_accept4
  by (rule sync_executorI)
    (clarsimp simp: execSyscall_accept4_def resume_both_def run_simps split: if_splits)

interpretation x_getsockname: sync_executor execSyscall_getsockname
  by (rule sync_executorI)
    (clarsimp simp: execSyscall_getsockname_def resume_both_def run_simps split: if_splits)

interpretation x_mmap: sync_executor execSyscall_mmap
  by (rule sync_executorI)
    (clarsimp simp: execSyscall_mmap_def resume_both_def run_simps split: if_splits)

interpretation x_mprotect: sync_executor execSyscall_mprotect
  by (rule sync_executorI)
    (clarsimp simp: execSyscall_mprotect_def resume_both_def run_simps split: if_splits)

interpretation x_munmap: sync_executor execSyscall_munmap
  by (rule sync_executorI)
    (clarsimp simp: execSyscall_munmap_def resume_both_def run_simps split: if_splits option.splits)

end
