(* ===== verification/PathCheck.thy ===== *)
theory PathCheck
  imports Lockstep
begin

text \<open>
  What the path comparison of \<open>newfstatat.c\<close> decides: the loop ends for every path, never by
  the return inside it, and the comparison looks at the bytes before the master's terminator.
\<close>

section \<open>The path comparison of newfstatat\<close>

text \<open>The last size its loop reads.\<close>

definition PATH_LIMIT :: nat where
  "PATH_LIMIT = 9999951"

lemma strnlen_least:
  assumes "n \<le> k" and "strnlen b n < n"
  shows "strnlen b k = strnlen b n"
proof -
  let ?l = "strnlen b n" and ?k = "strnlen b k"
  have z: "b ?l = 0" using assms(2) by (rule strnlen_at)
  have "\<not> ?l < ?k" using z strnlen_before by blast
  moreover have "\<not> ?k < ?l"
  proof
    assume lt: "?k < ?l"
    then have "?k < k" using assms by simp
    then have "b ?k = 0" by (rule strnlen_at)
    with lt show False using strnlen_before by blast
  qed
  ultimately show ?thesis by simp
qed

lemma NEWFSTATAT_BUF_SIZE_nat [simp]: "unat NEWFSTATAT_BUF_SIZE = 10000000"
  by (simp add: NEWFSTATAT_BUF_SIZE_def)

lemma fstatat_loop_step:
  fixes pk a
  defines "S \<equiv> read_byte pk a"
  assumes "cs < NEWFSTATAT_BUF_SIZE"
  shows "fstatat_loop pk a b cs sl =
     (let b' = (\<lambda>i. if i < words8 (unat cs) then S i else b i)
      in if strnlen S (unat cs) = unat cs then fstatat_loop pk a b' (cs + 50) cs
         else (b', Inr (of_nat (strnlen S (unat cs)))))"
proof -
  let ?b = "\<lambda>i. if i < words8 (unat cs) then S i else b i"
  have u: "unat cs < 10000000"
    using assms by (simp add: word_less_nat_alt)
  then have r: "read_mem pk b a cs = (cs, ?b)"
    unfolding S_def by (intro read_mem_eq) (simp add: word_le_nat_alt)
  have n: "strnlen ?b (unat cs) = strnlen S (unat cs)"
    using words8_bounds(1) [of "unat cs"] by (intro strnlen_cong) simp
  have lt: "strnlen S (unat cs) < 10000000"
    by (rule le_less_trans [OF strnlen_le u])
  have eq1: "of_nat (strnlen S (unat cs)) \<noteq> NEWFSTATAT_BUF_SIZE"
    using lt by (subst of_nat_eq_word64) auto
  have eq2: "of_nat (strnlen S (unat cs)) = cs \<longleftrightarrow> strnlen S (unat cs) = unat cs"
    using lt by (subst of_nat_eq_word64) auto
  show ?thesis
  proof (cases "strnlen S (unat cs) = unat cs")
    case True
    with eq1 eq2 assms(2) r n show ?thesis
      by (subst fstatat_loop.simps) (simp add: Let_def)
  next
    case False
    with eq1 eq2 assms(2) r n show ?thesis
      by (subst fstatat_loop.simps) (simp add: Let_def)
  qed
qed

lemma fstatat_loop_eq:
  fixes pk a
  defines "S \<equiv> read_byte pk a"
  assumes "unat cs mod 50 = 1" and "unat cs \<le> 10000001"
    and "10000000 \<le> unat cs \<Longrightarrow> sl = of_nat PATH_LIMIT \<and> strnlen S PATH_LIMIT = PATH_LIMIT \<and>
           (\<forall>j < PATH_LIMIT. b j = S j)"
  shows "\<exists>b'. fstatat_loop pk a b cs sl = (b', Inr (of_nat (strnlen S PATH_LIMIT))) \<and>
              (\<forall>j < strnlen S PATH_LIMIT. b' j = S j)"
  using assms(2-)
proof (induction "10000001 - unat cs" arbitrary: b cs sl rule: less_induct)
  case less
  show ?case
  proof (cases "cs < NEWFSTATAT_BUF_SIZE")
    case False
    then have "10000000 \<le> unat cs" by (simp add: word_less_nat_alt)
    with less.prems(3) False show ?thesis
      by (subst fstatat_loop.simps) simp
  next
    case True
    then have u: "unat cs < 10000000" by (simp add: word_less_nat_alt)
    have st: "unat (cs + 50) = unat cs + 50"
      using u by (simp add: unat_word_ariths)
    obtain q where q: "unat cs = 50 * q + 1"
      using less.prems(1) by (metis mult_div_mod_eq)
    have le: "unat cs \<le> PATH_LIMIT"
      using u q by (simp add: PATH_LIMIT_def)
    let ?b = "\<lambda>i. if i < words8 (unat cs) then S i else b i"
    have b: "\<And>j. j < unat cs \<Longrightarrow> ?b j = S j"
      using words8_bounds(1) [of "unat cs"] by simp
    show ?thesis
    proof (cases "strnlen S (unat cs) = unat cs")
      case F: False
      then have lt: "strnlen S (unat cs) < unat cs"
        using strnlen_le [of S "unat cs"] by linarith
      then have "strnlen S PATH_LIMIT = strnlen S (unat cs)"
        by (intro strnlen_least le)
      then show ?thesis
        using fstatat_loop_step [OF True, of pk a b sl, folded S_def] F b lt
        by (auto simp: Let_def)
    next
      case T: True
      have last: "cs = of_nat PATH_LIMIT \<and> strnlen S PATH_LIMIT = PATH_LIMIT \<and>
           (\<forall>j < PATH_LIMIT. ?b j = S j)" if "10000000 \<le> unat (cs + 50)"
      proof -
        have "unat cs = PATH_LIMIT"
          using that st le q by (simp add: PATH_LIMIT_def)
        moreover from this have "of_nat PATH_LIMIT = cs"
          by (subst of_nat_eq_word64) (simp_all add: PATH_LIMIT_def)
        ultimately show ?thesis using T b by simp
      qed
      have "\<exists>b'. fstatat_loop pk a ?b (cs + 50) cs = (b', Inr (of_nat (strnlen S PATH_LIMIT))) \<and>
              (\<forall>j < strnlen S PATH_LIMIT. b' j = S j)"
      proof (rule less.hyps)
        show "10000001 - unat (cs + 50) < 10000001 - unat cs"
          using st u by simp
        show "unat (cs + 50) mod 50 = 1"
          using st less.prems(1) by simp
        show "unat (cs + 50) \<le> 10000001"
          using st le by (simp add: PATH_LIMIT_def)
      qed (rule last)
      then show ?thesis
        using fstatat_loop_step [OF True, of pk a b sl, folded S_def] T by (simp add: Let_def)
    qed
  qed
qed

text \<open>
  The comparison never returns from inside the loop; it says whether the bytes of the
  master's path, without its terminator, are those of the replica's.
\<close>

lemma fstatat_path_result:
  "fst (fstatat_path m r s) =
     Inr (\<forall>j < strnlen (vbyte s m (arg s m 1)) PATH_LIMIT.
            vbyte s m (arg s m 1) j = vbyte s r (arg s r 1) j)"
proof -
  let ?S = "vbyte s m (arg s m 1)" and ?R = "vbyte s r (arg s r 1)"
  let ?n = "strnlen ?S PATH_LIMIT"
  have "\<exists>b'. fstatat_loop (peekdata (proc_of s m)) (arg s m 1) (newfstatat_bufA s) 1 0 =
      (b', Inr (of_nat ?n)) \<and> (\<forall>j < ?n. b' j = ?S j)"
    unfolding vbyte_def by (rule fstatat_loop_eq) simp_all
  then obtain b' where l: "fstatat_loop (peekdata (proc_of s m)) (arg s m 1) (newfstatat_bufA s) 1 0 =
      (b', Inr (of_nat ?n))" and b': "\<forall>j < ?n. b' j = ?S j"
    by blast
  have le: "?n \<le> PATH_LIMIT" by simp
  have u: "unat (of_nat ?n :: word64) = ?n"
  proof -
    have "?n < 2 ^ LENGTH(64)"
      by (rule le_less_trans [OF le]) (simp add: PATH_LIMIT_def)
    then show ?thesis by (simp only: unat_of_nat mod_less)
  qed
  have sz: "(of_nat ?n :: word64) \<le> BUF_SIZE"
  proof -
    have "?n \<le> 10000000"
      by (rule order_trans [OF le]) (simp add: PATH_LIMIT_def)
    then show ?thesis by (simp only: word_le_nat_alt u BUF_SIZE_nat)
  qed
  let ?c = "\<lambda>i. if i < words8 ?n then ?R i else newfstatat_bufB s i"
  have c: "snd (readVariantMem r (newfstatat_bufB s) (arg s r 1) (of_nat ?n)
      (s\<lparr>newfstatat_bufA := b'\<rparr>)) = ?c"
    by (simp only: readVariantMem_def read_mem_eq [OF sz] snd_conv u vbyte_def proc_of_upds)
  have nz: "\<forall>j < ?n. b' j \<noteq> 0"
    using b' strnlen_before by simp
  have "strncmp b' ?c ?n = 0 \<longleftrightarrow> (\<forall>j < ?n. ?S j = ?R j)"
    using strncmp_0 [OF nz, of ?c] b' words8_bounds(1) [of ?n] by simp
  moreover have "arg (s\<lparr>newfstatat_bufA := b'\<rparr>) r 1 = arg s r 1"
    by (simp add: arg_def)
  ultimately show ?thesis
    using l c u by (simp add: fstatat_path_def Let_def case_prod_beta)
qed

end
