(* ===== verification/Checks.thy ===== *)
theory Checks
  imports PathCheck
begin

text \<open>
  What the monitor promises about the arguments of a call that it lets both variants make,
  as a table: for every system call number of the switch, the arguments whose values, or the
  buffers they point to, are the same in the two variants. The table is stated
  independently of the executors; each of them is an instance of \<open>checked_executor\<close>, which
  says that a call that fails its row is refused before either variant is touched, or, for
  the two executors that resume first, of the weaker \<open>sound_executor\<close>.
\<close>

section \<open>The checks\<close>

text \<open>The sizes of compared buffers: a constant, or an argument of the master.\<close>

datatype buf_len = Const word64 | Arg64 nat | Arg32 nat | ArgTimes8 nat

datatype check =
    Same nat               \<comment> \<open>64-bit equality of an argument\<close>
  | SameIf nat nat         \<comment> \<open>equality of the second, if the master's first is not 0\<close>
  | SameInt nat            \<comment> \<open>the master's, read as \<open>int\<close>, against the replica's 64 bits\<close>
  | SameU32 nat            \<comment> \<open>the master's, read as \<open>socklen_t\<close>, against the replica's 64 bits\<close>
  | SameLow32 nat          \<comment> \<open>equality of the arguments read as \<open>int\<close>\<close>
  | SameMem nat buf_len    \<comment> \<open>equal bytes in the buffers pointed to\<close>
  | SameStr nat            \<comment> \<open>equal C strings\<close>
  | SamePrefix nat         \<comment> \<open>the master's C string is a prefix of the replica's\<close>

definition buf_size :: "'k mvee \<Rightarrow> vptr \<Rightarrow> buf_len \<Rightarrow> word64" where
  "buf_size s m l =
     (case l of Const n \<Rightarrow> n | Arg64 i \<Rightarrow> arg s m i | Arg32 i \<Rightarrow> zext32 (arg s m i)
      | ArgTimes8 i \<Rightarrow> arg s m i * 8)"

text \<open>
  The strings agree as far as the monitor looks, up to \<open>STR_LIMIT\<close> bytes, the terminator
  included; in the prefix check it is not.
\<close>

definition holds :: "'k mvee \<Rightarrow> vptr \<Rightarrow> vptr \<Rightarrow> check \<Rightarrow> bool" where
  "holds s m r c =
     (let byte_m = (\<lambda>n. vbyte s m (arg s m n)); byte_r = (\<lambda>n. vbyte s r (arg s r n))
      in case c of
        Same n \<Rightarrow> arg s m n = arg s r n
      | SameIf i n \<Rightarrow> arg s m i \<noteq> 0 \<longrightarrow> arg s m n = arg s r n
      | SameInt n \<Rightarrow> sext32 (arg s m n) = arg s r n
      | SameU32 n \<Rightarrow> zext32 (arg s m n) = arg s r n
      | SameLow32 n \<Rightarrow> sext32 (arg s m n) = sext32 (arg s r n)
      | SameMem n l \<Rightarrow> buf_size s m l \<le> BUF_SIZE \<and>
                       (\<forall>i < unat (buf_size s m l). byte_m n i = byte_r n i)
      | SameStr n \<Rightarrow> (\<forall>i < STR_LIMIT. (\<forall>j < i. byte_m n j \<noteq> 0) \<longrightarrow> byte_m n i = byte_r n i)
      | SamePrefix n \<Rightarrow> (\<forall>i < STR_LIMIT. (\<forall>j \<le> i. byte_m n j \<noteq> 0) \<longrightarrow> byte_m n i = byte_r n i))"

definition arg_checks :: "(word64 \<times> check list) list" where
  "arg_checks =
    [(SYS_getuid, []), (SYS_geteuid, []), (SYS_getgid, []), (SYS_getegid, []), (SYS_brk, []),
     (SYS_mmap, [Same 1, SameInt 2, SameInt 3, Same 4, Same 5]),
     (SYS_read, [SameInt 0, Same 2]),
     (SYS_arch_prctl, [Same 0]),
     (SYS_openat, [Same 0, Same 2, SameIf 3 3, SameStr 1]),
     (SYS_close, [Same 0]),
     (SYS_write, [SameInt 0, Same 2, SameMem 1 (Arg64 2)]),
     (SYS_pread64, [Same 0, Same 2, Same 3]),
     (SYS_newfstatat, [Same 0, SamePrefix 1, Same 3]),
     (SYS_access, [Same 1, SameStr 0]),
     (SYS_set_tid_address, []), (SYS_set_robust_list, []),
     (SYS_mprotect, [Same 1, SameInt 2]),
     (SYS_munmap, [Same 1]),
     (SYS_rseq, [Same 1, Same 2, Same 3]),
     (SYS_fadvise64, [Same 0, Same 1, Same 2, Same 3]),
     (SYS_getrandom, [Same 1, Same 2]),
     (SYS_exit_group, [Same 0]),
     (SYS_prlimit64, [Same 1]),
     (SYS_rt_sigaction, [Same 0]),
     (SYS_rt_sigprocmask, [SameIf 1 0, SameMem 1 (Arg64 3)]),
     (SYS_unlink, [SameStr 0]),
     (SYS_utimensat, [Same 0, SameStr 1, Same 3]),
     (SYS_fchown, [Same 0, Same 1, Same 2]),
     (SYS_fchmod, [Same 0, Same 1]),
     (SYS_lseek, [Same 0, Same 1, Same 2]),
     (SYS_getcwd, [SameStr 0, Same 1]),
     (SYS_getpid, []),
     (SYS_chdir, [SameStr 0]),
     (SYS_socket, [Same 0, Same 1, Same 2]),
     (SYS_setsockopt, [Same 0, Same 1, Same 2, SameU32 4, SameMem 3 (Arg32 4)]),
     (SYS_bind, [Same 0, SameU32 2, SameMem 1 (Arg32 2)]),
     (SYS_listen, [Same 0, Same 1]),
     (SYS_accept4, [Same 0, Same 3, SameMem 2 (Const 4)]),
     (SYS_poll, [Same 1, Same 2, SameMem 0 (ArgTimes8 1)]),
     (SYS_shutdown, [Same 0, Same 1]),
     (SYS_getsockname, [Same 0, SameMem 2 (Const 4)]),
     (SYS_pselect6, [SameLow32 0, SameMem 1 (Const 128), SameMem 2 (Const 128),
        SameMem 3 (Const 128), SameMem 4 (Const 16), SameMem 5 (Const 128)])]"

definition agree :: "check list \<Rightarrow> 'k mvee \<Rightarrow> vptr \<Rightarrow> vptr \<Rightarrow> bool" where
  "agree cs s m r \<longleftrightarrow> (\<forall>c \<in> set cs. holds s m r c)"

text \<open>The tracees, the outside world, the variants and the mappings are as they were.\<close>

definition untouched :: "'k mvee \<Rightarrow> 'k mvee \<Rightarrow> bool" where
  "untouched s s' \<longleftrightarrow>
     procs s' = procs s \<and> world s' = world s \<and> vars s' = vars s \<and> mmaps s' = mmaps s"

section \<open>The interface\<close>

locale sound_executor =
  fixes exec :: "'k exec" and checks :: "check list"
  assumes sound: "exec run m r s = Some (0, s') \<Longrightarrow> agree checks s m r"
begin

lemma agrees_on: "exec run m r s = Some (0, s') \<Longrightarrow> c \<in> set checks \<Longrightarrow> holds s m r c"
  using sound by (simp add: agree_def)

end

locale checked_executor =
  fixes exec :: "'k exec" and checks :: "check list"
  assumes refuses: "\<not> agree checks s m r \<Longrightarrow>
      \<exists>s'. exec run m r s = Some (- 1, s') \<and> untouched s s'"

sublocale checked_executor \<subseteq> sound_executor
proof
  show "agree checks s m r" if "exec run m r s = Some (0, s')" for run m r s s'
    using that refuses [of s m r run] by auto
qed

lemma untouched_simps [simp]:
  "untouched s s"
  "untouched s (snd (variantMemCmp v a v' a' sz s')) = untouched s s'"
  "untouched s (snd (variantStrCmp v a v' a' s')) = untouched s s'"
  by (simp_all add: untouched_def)

lemma variantMemCmp_0:
  "fst (variantMemCmp v1 a1 v2 a2 sz s) = 0 \<longleftrightarrow>
   sz \<le> BUF_SIZE \<and> (\<forall>i < unat sz. vbyte s v1 a1 i = vbyte s v2 a2 i)"
  by (auto simp: variantMemCmp_result)

lemma variantStrCmp_0:
  "fst (variantStrCmp v1 a1 v2 a2 s) = 0 \<Longrightarrow>
   \<forall>i < STR_LIMIT. vbyte s v1 a1 i = vbyte s v2 a2 i"
  by (auto simp: variantStrCmp_result split: if_splits)

lemma sext32_fold: "scast (ucast x :: word32) = sext32 x"
  by (simp add: sext32_def)

lemma STR_LE_PATH: "i < STR_LIMIT \<Longrightarrow> i < PATH_LIMIT"
  by (simp add: STR_LIMIT_def PATH_LIMIT_def)

text \<open>A byte before which no terminator stands is before the length.\<close>

lemma below_strnlen: "\<forall>j \<le> i. b j \<noteq> 0 \<Longrightarrow> i < n \<Longrightarrow> i < strnlen b n"
  using strnlen_at [of b n] by (metis not_less order_le_less_trans strnlen_le)

lemma prefix_refused:
  "\<not> holds s m r (SamePrefix 1) \<Longrightarrow> \<exists>x'. fstatat_path m r s = (Inr False, x') \<and> untouched s x'"
proof -
  assume "\<not> holds s m r (SamePrefix 1)"
  then have "fst (fstatat_path m r s) = Inr False"
    by (auto simp: fstatat_path_result holds_def Let_def intro: below_strnlen STR_LE_PATH)
  moreover have "untouched s (snd (fstatat_path m r s))"
    by (simp add: untouched_def fstatat_path_def Let_def case_prod_beta split: sum.splits)
  ultimately show ?thesis by (metis prod.collapse)
qed

lemma fstatat_path_Inr:
  "\<exists>b x'. fstatat_path m r s = (Inr b, x') \<and> untouched s x' \<and> arg x' = arg s"
proof -
  have "untouched s (snd (fstatat_path m r s))"
    by (simp add: untouched_def fstatat_path_def Let_def case_prod_beta split: sum.splits)
  then show ?thesis
    using fstatat_path_result [of m r s] arg_frames(4) [of m r s] by (metis prod.collapse)
qed

lemmas check_simps = sext32_fold agree_def holds_def buf_size_def Let_def case_prod_beta variantMemCmp_0

interpretation c_no_args: checked_executor exec_no_args
  "[]"
  by unfold_locales (auto simp: exec_no_args_def check_simps)

interpretation c_brk: checked_executor execSyscall_brk
  "[]"
  by unfold_locales (auto simp: execSyscall_brk_def check_simps)

interpretation c_mmap: checked_executor execSyscall_mmap
  "[Same 1, SameInt 2, SameInt 3, Same 4, Same 5]"
  by unfold_locales (auto simp: execSyscall_mmap_def check_simps)

interpretation c_read: checked_executor execSyscall_read
  "[SameInt 0, Same 2]"
  by unfold_locales (auto simp: execSyscall_read_def check_simps)

interpretation c_arch_prctl: checked_executor execSyscall_arch_prctl
  "[Same 0]"
  by unfold_locales (auto simp: execSyscall_arch_prctl_def check_simps)

interpretation c_openat: checked_executor execSyscall_openat
  "[Same 0, Same 2, SameIf 3 3, SameStr 1]"
  by unfold_locales (auto simp: execSyscall_openat_def check_simps dest!: variantStrCmp_0)

interpretation c_close: checked_executor execSyscall_close
  "[Same 0]"
  by unfold_locales (auto simp: execSyscall_close_def check_simps)

interpretation c_write: checked_executor execSyscall_write
  "[SameInt 0, Same 2, SameMem 1 (Arg64 2)]"
  by unfold_locales (auto simp: execSyscall_write_def check_simps)

interpretation c_pread64: checked_executor execSyscall_pread64
  "[Same 0, Same 2, Same 3]"
  by unfold_locales (auto simp: execSyscall_pread64_def check_simps)

lemma newfstatat_refuses:
  assumes "\<not> agree [Same 0, SamePrefix 1, Same 3] s m r"
  shows "\<exists>s'. execSyscall_newfstatat run m r s = Some (- 1, s') \<and> untouched s s'"
proof (cases "arg s m 0 = arg s r 0")
  case False
  then show ?thesis by (auto simp: execSyscall_newfstatat_def)
next
  case True
  obtain b x where x: "fstatat_path m r s = (Inr b, x)" "untouched s x" "arg x = arg s"
    using fstatat_path_Inr by blast
  show ?thesis
  proof (cases "holds s m r (SamePrefix 1)")
    case False
    with x have "\<not> b" using prefix_refused [of s m r] by auto
    with True x show ?thesis by (simp add: execSyscall_newfstatat_def)
  next
    case holds: True
    with assms True have "arg s m 3 \<noteq> arg s r 3"
      by (auto simp: agree_def) (simp add: holds_def)+
    with True x show ?thesis by (simp add: execSyscall_newfstatat_def)
  qed
qed

interpretation c_newfstatat: checked_executor execSyscall_newfstatat
  "[Same 0, SamePrefix 1, Same 3]"
  by unfold_locales (rule newfstatat_refuses)

interpretation c_access: checked_executor execSyscall_access
  "[Same 1, SameStr 0]"
  by unfold_locales (auto simp: execSyscall_access_def check_simps dest!: variantStrCmp_0)

interpretation c_setTidAddress: checked_executor execSyscall_setTidAddress
  "[]"
  by unfold_locales (auto simp: execSyscall_setTidAddress_def check_simps)

interpretation c_setRobustList: checked_executor execSyscall_setRobustList
  "[]"
  by unfold_locales (auto simp: execSyscall_setRobustList_def check_simps)

interpretation c_mprotect: checked_executor execSyscall_mprotect
  "[Same 1, SameInt 2]"
  by unfold_locales (auto simp: execSyscall_mprotect_def check_simps)

interpretation c_munmap: checked_executor execSyscall_munmap
  "[Same 1]"
  by unfold_locales (auto simp: execSyscall_munmap_def check_simps)

interpretation c_rseq: sound_executor execSyscall_rseq
  "[Same 1, Same 2, Same 3]"
  by unfold_locales (auto simp: execSyscall_rseq_def check_simps split: if_splits)

interpretation c_fadvise64: sound_executor execSyscall_fadvise64
  "[Same 0, Same 1, Same 2, Same 3]"
  by unfold_locales (auto simp: execSyscall_fadvise64_def check_simps split: if_splits)

interpretation c_getrandom: checked_executor execSyscall_getrandom
  "[Same 1, Same 2]"
  by unfold_locales (auto simp: execSyscall_getrandom_def check_simps)

interpretation c_exit_group: checked_executor execSyscall_exit_group
  "[Same 0]"
  by unfold_locales (auto simp: execSyscall_exit_group_def check_simps)

interpretation c_prlimit64: checked_executor execSyscall_prlimit64
  "[Same 1]"
  by unfold_locales (auto simp: execSyscall_prlimit64_def check_simps)

interpretation c_rt_sigaction: checked_executor execSyscall_rt_sigaction
  "[Same 0]"
  by unfold_locales (auto simp: execSyscall_rt_sigaction_def check_simps)

interpretation c_rt_sigprocmask: checked_executor execSyscall_rt_sigprocmask
  "[SameIf 1 0, SameMem 1 (Arg64 3)]"
  by unfold_locales (auto simp: execSyscall_rt_sigprocmask_def check_simps)

interpretation c_unlink: checked_executor execSyscall_unlink
  "[SameStr 0]"
  by unfold_locales (auto simp: execSyscall_unlink_def check_simps dest!: variantStrCmp_0)

interpretation c_utimensat: checked_executor execSyscall_utimensat
  "[Same 0, SameStr 1, Same 3]"
  by unfold_locales (auto simp: execSyscall_utimensat_def check_simps dest!: variantStrCmp_0)

interpretation c_fchown: checked_executor execSyscall_fchown
  "[Same 0, Same 1, Same 2]"
  by unfold_locales (auto simp: execSyscall_fchown_def check_simps)

interpretation c_fchmod: checked_executor execSyscall_fchmod
  "[Same 0, Same 1]"
  by unfold_locales (auto simp: execSyscall_fchmod_def check_simps)

interpretation c_lseek: checked_executor execSyscall_lseek
  "[Same 0, Same 1, Same 2]"
  by unfold_locales (auto simp: execSyscall_lseek_def check_simps)

interpretation c_getcwd: checked_executor execSyscall_getcwd
  "[SameStr 0, Same 1]"
  by unfold_locales (auto simp: execSyscall_getcwd_def check_simps dest!: variantStrCmp_0)

interpretation c_getpid: checked_executor execSyscall_getpid
  "[]"
  by unfold_locales (auto simp: execSyscall_getpid_def check_simps)

interpretation c_chdir: checked_executor execSyscall_chdir
  "[SameStr 0]"
  by unfold_locales (auto simp: execSyscall_chdir_def check_simps dest!: variantStrCmp_0)

interpretation c_socket: checked_executor execSyscall_socket
  "[Same 0, Same 1, Same 2]"
  by unfold_locales (auto simp: execSyscall_socket_def check_simps)

interpretation c_setsockopt: checked_executor execSyscall_setsockopt
  "[Same 0, Same 1, Same 2, SameU32 4, SameMem 3 (Arg32 4)]"
  by unfold_locales (auto simp: execSyscall_setsockopt_def check_simps)

interpretation c_bind: checked_executor execSyscall_bind
  "[Same 0, SameU32 2, SameMem 1 (Arg32 2)]"
  by unfold_locales (auto simp: execSyscall_bind_def check_simps)

interpretation c_listen: checked_executor execSyscall_listen
  "[Same 0, Same 1]"
  by unfold_locales (auto simp: execSyscall_listen_def check_simps)

interpretation c_accept4: checked_executor execSyscall_accept4
  "[Same 0, Same 3, SameMem 2 (Const 4)]"
  by unfold_locales (auto simp: execSyscall_accept4_def check_simps)

interpretation c_poll: checked_executor execSyscall_poll
  "[Same 1, Same 2, SameMem 0 (ArgTimes8 1)]"
  by unfold_locales (auto simp: execSyscall_poll_def check_simps)

interpretation c_shutdown: checked_executor execSyscall_shutdown
  "[Same 0, Same 1]"
  by unfold_locales (auto simp: execSyscall_shutdown_def check_simps)

interpretation c_getsockname: checked_executor execSyscall_getsockname
  "[Same 0, SameMem 2 (Const 4)]"
  by unfold_locales (auto simp: execSyscall_getsockname_def check_simps)

interpretation c_pselect6: checked_executor execSyscall_pselect6
  "[SameLow32 0, SameMem 1 (Const 128), SameMem 2 (Const 128), SameMem 3 (Const 128), SameMem 4 (Const 16), SameMem 5 (Const 128)]"
  by unfold_locales (auto simp: execSyscall_pselect6_def check_simps)

section \<open>The whole table\<close>

lemmas sound_all =
  c_no_args.sound_executor_axioms c_brk.sound_executor_axioms c_mmap.sound_executor_axioms
  c_read.sound_executor_axioms c_arch_prctl.sound_executor_axioms c_openat.sound_executor_axioms
  c_close.sound_executor_axioms c_write.sound_executor_axioms c_pread64.sound_executor_axioms
  c_newfstatat.sound_executor_axioms c_access.sound_executor_axioms
  c_setTidAddress.sound_executor_axioms c_setRobustList.sound_executor_axioms
  c_mprotect.sound_executor_axioms c_munmap.sound_executor_axioms c_rseq.sound_executor_axioms
  c_fadvise64.sound_executor_axioms c_getrandom.sound_executor_axioms
  c_exit_group.sound_executor_axioms c_prlimit64.sound_executor_axioms
  c_rt_sigaction.sound_executor_axioms c_rt_sigprocmask.sound_executor_axioms
  c_unlink.sound_executor_axioms c_utimensat.sound_executor_axioms
  c_fchown.sound_executor_axioms c_fchmod.sound_executor_axioms c_lseek.sound_executor_axioms
  c_getcwd.sound_executor_axioms c_getpid.sound_executor_axioms c_chdir.sound_executor_axioms
  c_socket.sound_executor_axioms c_setsockopt.sound_executor_axioms c_bind.sound_executor_axioms
  c_listen.sound_executor_axioms c_accept4.sound_executor_axioms c_poll.sound_executor_axioms
  c_shutdown.sound_executor_axioms c_getsockname.sound_executor_axioms
  c_pselect6.sound_executor_axioms

lemmas checked_all =
  c_no_args.checked_executor_axioms c_brk.checked_executor_axioms c_mmap.checked_executor_axioms
  c_read.checked_executor_axioms c_arch_prctl.checked_executor_axioms
  c_openat.checked_executor_axioms c_close.checked_executor_axioms
  c_write.checked_executor_axioms c_pread64.checked_executor_axioms
  c_newfstatat.checked_executor_axioms c_access.checked_executor_axioms
  c_setTidAddress.checked_executor_axioms c_setRobustList.checked_executor_axioms
  c_mprotect.checked_executor_axioms c_munmap.checked_executor_axioms
  c_getrandom.checked_executor_axioms c_exit_group.checked_executor_axioms
  c_prlimit64.checked_executor_axioms c_rt_sigaction.checked_executor_axioms
  c_rt_sigprocmask.checked_executor_axioms c_unlink.checked_executor_axioms
  c_utimensat.checked_executor_axioms c_fchown.checked_executor_axioms
  c_fchmod.checked_executor_axioms c_lseek.checked_executor_axioms
  c_getcwd.checked_executor_axioms c_getpid.checked_executor_axioms
  c_chdir.checked_executor_axioms c_socket.checked_executor_axioms
  c_setsockopt.checked_executor_axioms c_bind.checked_executor_axioms
  c_listen.checked_executor_axioms c_accept4.checked_executor_axioms
  c_poll.checked_executor_axioms c_shutdown.checked_executor_axioms
  c_getsockname.checked_executor_axioms c_pselect6.checked_executor_axioms

lemmas sync_all =
  x_no_args.sync_executor_axioms x_brk.sync_executor_axioms x_mmap.sync_executor_axioms
  x_read.sync_executor_axioms x_arch_prctl.sync_executor_axioms x_openat.sync_executor_axioms
  x_close.sync_executor_axioms x_write.sync_executor_axioms x_pread64.sync_executor_axioms
  x_newfstatat.sync_executor_axioms x_setTidAddress.sync_executor_axioms
  x_setRobustList.sync_executor_axioms x_mprotect.sync_executor_axioms
  x_munmap.sync_executor_axioms x_rseq.sync_executor_axioms x_fadvise64.sync_executor_axioms
  x_getrandom.sync_executor_axioms x_exit_group.sync_executor_axioms
  x_prlimit64.sync_executor_axioms x_rt_sigaction.sync_executor_axioms
  x_rt_sigprocmask.sync_executor_axioms x_unlink.sync_executor_axioms
  x_utimensat.sync_executor_axioms x_fchown.sync_executor_axioms x_fchmod.sync_executor_axioms
  x_lseek.sync_executor_axioms x_getcwd.sync_executor_axioms x_getpid.sync_executor_axioms
  x_chdir.sync_executor_axioms x_socket.sync_executor_axioms x_setsockopt.sync_executor_axioms
  x_bind.sync_executor_axioms x_listen.sync_executor_axioms x_accept4.sync_executor_axioms
  x_poll.sync_executor_axioms x_getsockname.sync_executor_axioms x_pselect6.sync_executor_axioms

text \<open>Two tables with the same keys in the same order give related values.\<close>

lemma list_all2_map_of:
  assumes "list_all2 (\<lambda>(n, x) (n', y). n = n' \<and> R n x y) xs ys" and "map_of xs n = Some x"
  shows "\<exists>y. map_of ys n = Some y \<and> R n x y"
  using assms by (induction rule: list_all2_induct) (auto split: if_splits)

lemma dispatch_sound_all:
  "list_all2 (\<lambda>(n, e) (n', cs). n = n' \<and> sound_executor e cs) dispatch_table arg_checks"
  unfolding dispatch_table_def arg_checks_def by (simp add: sound_all del: One_nat_def)

lemma dispatch_checked_all:
  "list_all2 (\<lambda>(n, e) (n', cs). n = n' \<and>
      (n \<noteq> SYS_fadvise64 \<and> n \<noteq> SYS_rseq \<longrightarrow> checked_executor e cs)) dispatch_table arg_checks"
  unfolding dispatch_table_def arg_checks_def by (simp add: checked_all del: One_nat_def)

lemma dispatch_sync_all:
  "\<forall>(n, e) \<in> set dispatch_table. n \<noteq> SYS_shutdown \<and> n \<noteq> SYS_access \<longrightarrow> sync_executor e"
  unfolding dispatch_table_def by (simp add: sync_all)

lemmas dispatch_sound = list_all2_map_of [OF dispatch_sound_all]
lemmas dispatch_checked = list_all2_map_of [OF dispatch_checked_all]

lemma dispatch_sync:
  "map_of dispatch_table n = Some e \<Longrightarrow> n \<noteq> SYS_shutdown \<Longrightarrow> n \<noteq> SYS_access \<Longrightarrow> sync_executor e"
  using dispatch_sync_all map_of_SomeD by fastforce

text \<open>What an accepted call went through.\<close>

lemma processSyscallSync_0:
  assumes "processSyscallSync run m r s = Some (0, s')"
  obtains e where "si_op (syscallInfo (vars s m)) = si_op (syscallInfo (vars s r))"
    and "nr s m = nr s r" and "map_of dispatch_table (nr s m) = Some e"
    and "e run m r s = Some (0, s')"
  using assms by (auto simp: processSyscallSync_def split: if_splits option.splits)

text \<open>
  What the monitor may let through: the same call of the table in both variants, with
  arguments that pass its row.
\<close>

definition permitted :: "'k mvee \<Rightarrow> vptr \<Rightarrow> vptr \<Rightarrow> bool" where
  "permitted s m r \<longleftrightarrow> nr s m = nr s r \<and>
     (case map_of arg_checks (nr s m) of None \<Rightarrow> False | Some cs \<Rightarrow> agree cs s m r)"

lemma sync_permitted:
  assumes "processSyscallSync run m r s = Some (0, s')"
  shows "permitted s m r"
proof -
  obtain e where e: "nr s m = nr s r" "map_of dispatch_table (nr s m) = Some e" "e run m r s = Some (0, s')"
    using assms by (rule processSyscallSync_0)
  obtain cs where "map_of arg_checks (nr s m) = Some cs" "sound_executor e cs"
    using dispatch_sound [OF e(2)] by blast
  with e(1,3) sound_executor.sound show ?thesis by (fastforce simp: permitted_def)
qed

lemma sync_not_permitted:
  fixes s :: "'k mvee"
  assumes "\<not> permitted s m r" and "nr s m \<noteq> SYS_fadvise64" and "nr s m \<noteq> SYS_rseq"
  shows "\<exists>s'. processSyscallSync run m r s = Some (- 1, s') \<and> untouched s s'"
proof (cases "si_op (syscallInfo (vars s m)) = si_op (syscallInfo (vars s r)) \<and> nr s m = nr s r")
  case True
  show ?thesis
  proof (cases "map_of (dispatch_table :: (word64 \<times> 'k exec) list) (nr s m)")
    case None
    with True show ?thesis by (simp add: processSyscallSync_def)
  next
    case (Some e)
    obtain cs where cs: "map_of arg_checks (nr s m) = Some cs" "checked_executor e cs"
      using dispatch_checked [OF Some] assms(2,3) by blast
    then have "\<not> agree cs s m r"
      using assms(1) True by (simp add: permitted_def)
    from checked_executor.refuses [OF cs(2) this, of run] True Some show ?thesis
      by (simp add: processSyscallSync_def)
  qed
next
  case False
  then have "processSyscallSync run m r s = Some (- 1, s)"
    by (simp add: processSyscallSync_def)
  then show ?thesis by simp
qed

end
