(* ===== verification/Total.thy ===== *)
theory Total
  imports Checks
begin

text \<open>
  Executors return. Each of them, called with both variants at their entry stops and with a
  well-formed list of mappings, ends with a result; it keeps the list well formed, and at most
  records one mapping that is not both writable and shared, or deletes one. The one
  exception is \<open>execSyscall_pselect6\<close>, which waits for a replica it has not resumed.
\<close>

section \<open>The contract\<close>

text \<open>
  What a call can do to the list of mappings: nothing, record a mapping that the rule of
  \<open>checkMMapPerms\<close> allows, or delete one.
\<close>

definition sealed :: "variantMMap \<Rightarrow> bool" where
  "sealed e \<longleftrightarrow> checkMMapPerms (prot e) (flags e) = 0"

definition evolves :: "variantMMap list \<Rightarrow> variantMMap list \<Rightarrow> bool" where
  "evolves es es' \<longleftrightarrow> es' = es \<or> (\<exists>e. sealed e \<and> es' = es @ [e]) \<or> (\<exists>a. es' = delete_first a es)"

definition maps_after :: "variantMMap list \<Rightarrow> mapheap \<Rightarrow> bool" where
  "maps_after es mh \<longleftrightarrow> (\<exists>es'. maps_rep mh es' \<and> evolves es es')"

lemma maps_after_same [simp]: "maps_rep mh es \<Longrightarrow> maps_after es mh"
  by (auto simp: maps_after_def evolves_def)

locale total_executor =
  fixes exec :: "'k exec"
  assumes returns: "m \<noteq> r \<Longrightarrow> at_entry s \<Longrightarrow> maps_rep (mmaps s) es \<Longrightarrow>
      \<exists>x s'. exec run m r s = Some (x, s') \<and> maps_after es (mmaps s')"

text \<open>The list of a monitor in operation: well formed, without writable shared mappings.\<close>

definition maps_ok :: "'k mvee \<Rightarrow> bool" where
  "maps_ok s \<longleftrightarrow> (\<exists>es. maps_rep (mmaps s) es \<and> list_all sealed es)"

lemma maps_ok_cong: "mmaps s' = mmaps s \<Longrightarrow> maps_ok s' = maps_ok s"
  by (simp add: maps_ok_def)

lemma sealed_delete: "list_all sealed es \<Longrightarrow> list_all sealed (delete_first a es)"
  by (induction a es rule: delete_first.induct) auto

lemma maps_ok_after:
  "maps_rep (mmaps s) es \<Longrightarrow> list_all sealed es \<Longrightarrow> maps_after es (mmaps s') \<Longrightarrow> maps_ok s'"
  by (auto simp: maps_after_def evolves_def maps_ok_def intro: sealed_delete)

context total_executor
begin

lemma keeps_maps_ok:
  "m \<noteq> r \<Longrightarrow> at_entry s \<Longrightarrow> maps_ok s \<Longrightarrow> \<exists>x s'. exec run m r s = Some (x, s') \<and> maps_ok s'"
  unfolding maps_ok_def [of s] using returns maps_ok_after by meson

lemma never_blocks: "m \<noteq> r \<Longrightarrow> at_entry s \<Longrightarrow> maps_ok s \<Longrightarrow> exec run m r s \<noteq> None"
  using keeps_maps_ok by (metis option.distinct(1))

end

lemma prim_mmaps [simp, prim_simps]:
  "mmaps (resumeVariantFromWait v s) = mmaps s"
  "mmaps (resumeVariantFromExit v s) = mmaps s"
  "mmaps (requestSyscallInfo v s) = mmaps s"
  "mmaps (setSyscall v n s) = mmaps s"
  "mmaps (setNopSyscall v s) = mmaps s"
  "mmaps (setSyscallReturnValue v x s) = mmaps s"
  "mmaps (set_lseek_args v x y s) = mmaps s"
  "mmaps (snd (writeVariantMem v b a sz s)) = mmaps s"
  "mmaps (snd (fstatat_path v v' s)) = mmaps s"
  by (simp_all add: ctl_defs set_lseek_args_def writeVariantMem_def fstatat_path_def Let_def
      case_prod_beta split: sum.splits)

lemma prim_world [simp, prim_simps]:
  "world (resumeVariantFromWait v s) = world s" "world (resumeVariantFromExit v s) = world s"
  "world (requestSyscallInfo v s) = world s" "world (setSyscall v n s) = world s"
  "world (setNopSyscall v s) = world s" "world (setSyscallReturnValue v x s) = world s"
  "world (set_lseek_args v x y s) = world s" "world (snd (fstatat_path v v' s)) = world s"
  "world (snd (writeVariantMem v b a sz s)) = world s"
  by (simp_all add: ctl_defs set_lseek_args_def writeVariantMem_def fstatat_path_def Let_def case_prod_beta
      split: sum.splits)

text \<open>A wait after a resume from an entry stop, as a rewrite rule.\<close>

lemma wait_returns:
  assumes "pids_ok s" and "ps (proc_of s v) = EntryStop"
  shows "waitVariant run v (resumeVariantFromWait v s) =
     (let (k, p) = run (world s) (pid (vars s v)) (ptrace_syscall (proc_of s v))
      in Some (checkVariantExit (wait_status p), ran v k p s))"
  using assms by (auto simp: wait_resumed split: prod.splits)

lemma total_executorI:
  fixes exec :: "'k exec"
  assumes "\<And>run m r s es. \<lbrakk>m \<noteq> r; r \<noteq> m; pids_ok s; ps (proc_of s m) = EntryStop;
      ps (proc_of s r) = EntryStop; maps_rep (mmaps s) es\<rbrakk> \<Longrightarrow>
      case exec run m r s of None \<Rightarrow> False | Some y \<Rightarrow> maps_after es (mmaps (snd y))"
  shows "total_executor exec"
proof
  fix run and m r :: vptr and s :: "'k mvee" and es
  assume *: "m \<noteq> r" "at_entry s" "maps_rep (mmaps s) es"
  then have "r \<noteq> m" "pids_ok s" "ps (proc_of s m) = EntryStop" "ps (proc_of s r) = EntryStop"
    by (auto simp: at_entry_def)
  from assms [OF *(1) this *(3), of run]
  show "\<exists>x s'. exec run m r s = Some (x, s') \<and> maps_after es (mmaps s')"
    by (auto split: option.splits)
qed

lemma check_minus_1: "checkVariantExit x = - 1 \<longleftrightarrow> checkVariantExit x \<noteq> 0"
  using checkVariantExit_range [of x] by auto

lemmas total_simps = Let_def case_prod_beta wait_returns resume_both_def

interpretation t_no_args: total_executor exec_no_args
  by (rule total_executorI) (auto simp: exec_no_args_def total_simps)

interpretation t_brk: total_executor execSyscall_brk
  by (rule total_executorI) (auto simp: execSyscall_brk_def total_simps)

interpretation t_read: total_executor execSyscall_read
  by (rule total_executorI) (auto simp: execSyscall_read_def total_simps)

interpretation t_arch_prctl: total_executor execSyscall_arch_prctl
  by (rule total_executorI) (auto simp: execSyscall_arch_prctl_def total_simps)

interpretation t_openat: total_executor execSyscall_openat
  by (rule total_executorI) (auto simp: execSyscall_openat_def runBothCopyMasterRet_def total_simps)

interpretation t_close: total_executor execSyscall_close
  by (rule total_executorI) (auto simp: execSyscall_close_def runBothCopyMasterRet_def total_simps)

interpretation t_write: total_executor execSyscall_write
  by (rule total_executorI) (auto simp: execSyscall_write_def total_simps)

interpretation t_pread64: total_executor execSyscall_pread64
  by (rule total_executorI) (auto simp: execSyscall_pread64_def total_simps)

interpretation t_access: total_executor execSyscall_access
  by (rule total_executorI) (auto simp: execSyscall_access_def runMasterReplicateRet_def total_simps)

interpretation t_setTidAddress: total_executor execSyscall_setTidAddress
  by (rule total_executorI) (auto simp: execSyscall_setTidAddress_def total_simps)

interpretation t_setRobustList: total_executor execSyscall_setRobustList
  by (rule total_executorI) (auto simp: execSyscall_setRobustList_def total_simps)

interpretation t_rseq: total_executor execSyscall_rseq
  by (rule total_executorI) (auto simp: execSyscall_rseq_def total_simps)

interpretation t_fadvise64: total_executor execSyscall_fadvise64
  by (rule total_executorI) (auto simp: execSyscall_fadvise64_def total_simps)

interpretation t_getrandom: total_executor execSyscall_getrandom
  by (rule total_executorI) (auto simp: execSyscall_getrandom_def total_simps)

interpretation t_exit_group: total_executor execSyscall_exit_group
  by (rule total_executorI) (auto simp: execSyscall_exit_group_def total_simps)

interpretation t_prlimit64: total_executor execSyscall_prlimit64
  by (rule total_executorI) (auto simp: execSyscall_prlimit64_def total_simps)

interpretation t_rt_sigaction: total_executor execSyscall_rt_sigaction
  by (rule total_executorI) (auto simp: execSyscall_rt_sigaction_def total_simps)

interpretation t_rt_sigprocmask: total_executor execSyscall_rt_sigprocmask
  by (rule total_executorI) (auto simp: execSyscall_rt_sigprocmask_def total_simps)

interpretation t_unlink: total_executor execSyscall_unlink
  by (rule total_executorI) (auto simp: execSyscall_unlink_def runMasterReplicateRet_def total_simps)

interpretation t_utimensat: total_executor execSyscall_utimensat
  by (rule total_executorI) (auto simp: execSyscall_utimensat_def runMasterReplicateRet_def total_simps)

interpretation t_fchown: total_executor execSyscall_fchown
  by (rule total_executorI) (auto simp: execSyscall_fchown_def runMasterReplicateRet_def total_simps)

interpretation t_fchmod: total_executor execSyscall_fchmod
  by (rule total_executorI) (auto simp: execSyscall_fchmod_def runMasterReplicateRet_def total_simps)

interpretation t_lseek: total_executor execSyscall_lseek
  by (rule total_executorI) (auto simp: execSyscall_lseek_def total_simps)

interpretation t_getcwd: total_executor execSyscall_getcwd
  by (rule total_executorI) (auto simp: execSyscall_getcwd_def total_simps)

interpretation t_getpid: total_executor execSyscall_getpid
  by (rule total_executorI) (auto simp: execSyscall_getpid_def runMasterReplicateRet_def total_simps)

interpretation t_chdir: total_executor execSyscall_chdir
  by (rule total_executorI) (auto simp: execSyscall_chdir_def total_simps)

interpretation t_socket: total_executor execSyscall_socket
  by (rule total_executorI) (auto simp: execSyscall_socket_def total_simps)

interpretation t_setsockopt: total_executor execSyscall_setsockopt
  by (rule total_executorI) (auto simp: execSyscall_setsockopt_def total_simps)

interpretation t_bind: total_executor execSyscall_bind
  by (rule total_executorI) (auto simp: execSyscall_bind_def runMasterReplicateRet_def total_simps)

interpretation t_listen: total_executor execSyscall_listen
  by (rule total_executorI) (auto simp: execSyscall_listen_def runMasterReplicateRet_def total_simps)

interpretation t_accept4: total_executor execSyscall_accept4
  by (rule total_executorI) (auto simp: execSyscall_accept4_def total_simps)

interpretation t_poll: total_executor execSyscall_poll
  by (rule total_executorI) (auto simp: execSyscall_poll_def total_simps)

interpretation t_shutdown: total_executor execSyscall_shutdown
  by (rule total_executorI) (auto simp: execSyscall_shutdown_def total_simps)

interpretation t_getsockname: total_executor execSyscall_getsockname
  by (rule total_executorI) (auto simp: execSyscall_getsockname_def total_simps)

text \<open>The clients of the list of mappings, through its interface.\<close>

lemma addMapping_returns:
  "maps_rep h es \<Longrightarrow> addMapping a l p f h \<noteq> None"
  "maps_rep h es \<Longrightarrow> addMapping a l p f h = Some h' \<Longrightarrow> checkMMapPerms p f = 0 \<Longrightarrow> maps_after es h'"
proof -
  assume h: "maps_rep h es"
  note add = maps.add_rep [OF h, of a l p f]
  show "addMapping a l p f h \<noteq> None" using add by auto
  assume "addMapping a l p f h = Some h'" "checkMMapPerms p f = 0"
  with add show "maps_after es h'"
    unfolding maps_after_def evolves_def by (fastforce simp: sealed_def)
qed

lemma removeMapping_returns:
  "maps_rep h es \<Longrightarrow> removeMapping a h \<noteq> None"
  "maps_rep h es \<Longrightarrow> removeMapping a h = Some (x, h') \<Longrightarrow> maps_after es h'"
  using maps.remove_rep [of h es a] by (auto simp: maps_after_def evolves_def)

lemma findMapping_returns:
  "maps_rep h es \<Longrightarrow> findMapping t h \<noteq> None"
  "maps_rep h es \<Longrightarrow> findMapping t h = Some (Some c) \<Longrightarrow> entry_at h c \<noteq> None"
  using maps.search_rep [of h es t] by (auto split: option.splits)

interpretation t_mmap: total_executor execSyscall_mmap
  by (rule total_executorI)
    (auto simp: execSyscall_mmap_def total_simps addMapping_returns split: Option.bind_splits
      intro: addMapping_returns)

interpretation t_mprotect: total_executor execSyscall_mprotect
  by (rule total_executorI)
    (auto simp: execSyscall_mprotect_def total_simps findMapping_returns
      split: Option.bind_splits option.splits)

interpretation t_munmap: total_executor execSyscall_munmap
  by (rule total_executorI)
    (auto simp: execSyscall_munmap_def total_simps findMapping_returns removeMapping_returns maps.print_rep
      split: Option.bind_splits option.splits intro: removeMapping_returns)

text \<open>The path loop of newfstatat changes the buffers only.\<close>

lemma path_frames:
  assumes "fstatat_path m r s = (b, x)"
  shows "vars x = vars s" "world x = world s" "pids_ok x = pids_ok s" "proc_of x v = proc_of s v"
    "mmaps x = mmaps s"
  using assms prim_vars(9) [of m r s] prim_world(8) [of m r s] prim_pids_ok(9) [of m r s]
    prim_proc_of(9) [of m r s v] prim_mmaps(9) [of m r s] by simp_all

lemma newfstatat_total: "total_executor execSyscall_newfstatat"
proof (rule total_executorI)
  fix run and m r :: vptr and s :: "'k mvee" and es
  assume *: "m \<noteq> r" "r \<noteq> m" "pids_ok s" "ps (proc_of s m) = EntryStop"
    "ps (proc_of s r) = EntryStop" "maps_rep (mmaps s) es"
  obtain b x where x: "fstatat_path m r s = (Inr b, x)"
    using fstatat_path_Inr by blast
  with * path_frames [OF x] show "case execSyscall_newfstatat run m r s of None \<Rightarrow> False
      | Some y \<Rightarrow> maps_after es (mmaps (snd y))"
    by (auto simp: execSyscall_newfstatat_def total_simps)
qed

interpretation t_newfstatat: total_executor execSyscall_newfstatat
  by (rule newfstatat_total)

lemmas total_all =
  t_no_args.total_executor_axioms t_brk.total_executor_axioms t_mmap.total_executor_axioms
  t_read.total_executor_axioms t_arch_prctl.total_executor_axioms t_openat.total_executor_axioms
  t_close.total_executor_axioms t_write.total_executor_axioms t_pread64.total_executor_axioms
  t_newfstatat.total_executor_axioms t_setTidAddress.total_executor_axioms
  t_setRobustList.total_executor_axioms t_mprotect.total_executor_axioms
  t_munmap.total_executor_axioms t_rseq.total_executor_axioms t_fadvise64.total_executor_axioms
  t_getrandom.total_executor_axioms t_exit_group.total_executor_axioms
  t_prlimit64.total_executor_axioms t_rt_sigaction.total_executor_axioms
  t_rt_sigprocmask.total_executor_axioms t_unlink.total_executor_axioms
  t_utimensat.total_executor_axioms t_fchown.total_executor_axioms
  t_fchmod.total_executor_axioms t_lseek.total_executor_axioms t_getcwd.total_executor_axioms
  t_getpid.total_executor_axioms t_chdir.total_executor_axioms t_socket.total_executor_axioms
  t_setsockopt.total_executor_axioms t_bind.total_executor_axioms t_listen.total_executor_axioms
  t_accept4.total_executor_axioms t_poll.total_executor_axioms
  t_getsockname.total_executor_axioms t_shutdown.total_executor_axioms
  t_access.total_executor_axioms

lemma dispatch_total_all:
  "\<forall>(n, e) \<in> set dispatch_table. n \<noteq> SYS_pselect6 \<longrightarrow> total_executor e"
  unfolding dispatch_table_def by (simp add: total_all)

lemma dispatch_total:
  "map_of dispatch_table n = Some e \<Longrightarrow> n \<noteq> SYS_pselect6 \<Longrightarrow> total_executor e"
  using dispatch_total_all map_of_SomeD by fastforce

end
