(* ===== verification/Protocol.thy ===== *)
theory Protocol
  imports Total
begin

text \<open>
  The monitor as a state machine: one step is one round of the main loop that goes on. The
  invariant says how the two variants can stand to each other, and rests on the contracts of
  the executors (\<open>sync_executor\<close>, \<open>total_executor\<close>) through the table of the switch.
\<close>

section \<open>Steps and reachable states\<close>

inductive mvee_step :: "'k env \<Rightarrow> 'k mvee \<Rightarrow> 'k mvee \<Rightarrow> bool" for run where
  round: "main_round run child s = Some (Inr (), s') \<Longrightarrow> mvee_step run s s'"

inductive reach :: "'k env \<Rightarrow> 'k mvee \<Rightarrow> nat \<Rightarrow> 'k mvee \<Rightarrow> bool" for run s0 where
  start: "reach run s0 0 s0"
| more: "reach run s0 n s \<Longrightarrow> mvee_step run s s' \<Longrightarrow> reach run s0 (Suc n) s'"

inductive_cases mvee_stepE: "mvee_step run s s'"
inductive_simps reach_0: "reach run s0 0 s"
inductive_cases reach_SucE: "reach run s0 (Suc n) s"

text \<open>The program makes no call of this number.\<close>

definition avoids :: "'k env \<Rightarrow> word64 \<Rightarrow> bool" where
  "avoids run n \<longleftrightarrow>
     (\<forall>k i p. ps (snd (run k i p)) = EntryStop \<longrightarrow> orig_rax (regs (snd (run k i p))) \<noteq> n)"

section \<open>The invariant\<close>

definition num :: "'k mvee \<Rightarrow> vptr \<Rightarrow> word64" where
  "num s v = syscallNum (vars s v)"

definition in_user :: "'k mvee \<Rightarrow> vptr \<Rightarrow> bool" where
  "in_user s v \<longleftrightarrow> ps (proc_of s v) = InUser \<and> state (vars s v) = VSTATE_RUNNING"

definition in_call :: "'k mvee \<Rightarrow> vptr \<Rightarrow> bool" where
  "in_call s v \<longleftrightarrow> ps (proc_of s v) = InSyscall \<and> state (vars s v) = VSTATE_RUNNING"

text \<open>
  A waiting variant is at its entry stop, and its record holds the information of that stop.
\<close>

definition waiting :: "'k mvee \<Rightarrow> vptr \<Rightarrow> bool" where
  "waiting s v \<longleftrightarrow> ps (proc_of s v) = EntryStop \<and> state (vars s v) = VSTATE_WAIT \<and>
     syscallInfo (vars s v) = get_syscall_info (proc_of s v)"

text \<open>Two variants at the same count, and one a call ahead of the other.\<close>

definition level :: "'k mvee \<Rightarrow> vptr \<Rightarrow> vptr \<Rightarrow> bool" where
  "level s v w \<longleftrightarrow> num s v = num s w \<and>
     (in_user s v \<and> in_user s w \<or> in_call s v \<and> in_call s w \<or> waiting s v \<and> in_user s w \<or>
      in_user s v \<and> waiting s w)"

definition ahead :: "'k mvee \<Rightarrow> vptr \<Rightarrow> vptr \<Rightarrow> bool" where
  "ahead s v w \<longleftrightarrow> num s v = num s w + 1 \<and> (in_user s v \<or> waiting s v) \<and> in_call s w"

definition well_typed :: "'k mvee \<Rightarrow> bool" where
  "well_typed s \<longleftrightarrow> pids_ok s \<and> vtype (vars s Vmaster) = VTYPE_master \<and>
     vtype (vars s Vreplica) = VTYPE_replica \<and> maps_ok s"

definition lockstep :: "'k mvee \<Rightarrow> bool" where
  "lockstep s \<longleftrightarrow> level s Vmaster Vreplica \<or> ahead s Vmaster Vreplica \<or> ahead s Vreplica Vmaster"

text \<open>Neither variant runs: no stop will be reported any more.\<close>

definition wedged :: "'k mvee \<Rightarrow> bool" where
  "wedged s \<longleftrightarrow> (\<forall>v. \<not> is_running (ps (proc_of s v)))"

text \<open>No count has gone round the 64-bit range.\<close>

definition counted :: "nat \<Rightarrow> 'k mvee \<Rightarrow> bool" where
  "counted n s \<longleftrightarrow> (\<forall>v. unat (num s v) \<le> n)"

lemma lockstep_two: "v \<noteq> w \<Longrightarrow> lockstep s \<longleftrightarrow> level s v w \<or> ahead s v w \<or> ahead s w v"
  by (cases v; cases w) (auto simp: lockstep_def level_def)

lemma other_neq [simp]: "other v \<noteq> v" "v \<noteq> other v"
  by (cases v; simp)+

lemma other_other [simp]: "other (other v) = v"
  by (cases v) simp_all

section \<open>A stop is reported\<close>

text \<open>The state after \<open>waitpid\<close> and \<open>requestSyscallInfo\<close>.\<close>

definition arrived :: "vptr \<Rightarrow> 'k \<Rightarrow> proc \<Rightarrow> 'k mvee \<Rightarrow> 'k mvee" where
  "arrived v k p s = requestSyscallInfo v (upd_proc v (\<lambda>_. p) (s\<lparr>world := k\<rparr>))"

lemma arrived_sel [simp]:
  "vars (arrived v k p s) w = (if w = v then (vars s v)\<lparr>syscallInfo := get_syscall_info p\<rparr> else vars s w)" if "pids_ok s" for s
  using that by (simp add: arrived_def)

lemma arrived_proc [simp]:
  "pids_ok s \<Longrightarrow> proc_of (arrived v k p s) w = (if w = v then p else proc_of s w)"
  "pids_ok (arrived v k p s) = pids_ok s"
  "mmaps (arrived v k p s) = mmaps s"
  by (simp_all add: arrived_def)

lemma child_event_cases:
  assumes "child_event run v s = Some (Inr (), s')"
  obtains k p s1 where "run (world s) (pid (vars s v)) (proc_of s v) = (k, p)"
    and "is_running (ps (proc_of s v))" and "checkVariantExit (wait_status p) = 0"
    and "processVariantEvent run v (other v) (upd_proc v (\<lambda>_. p) (s\<lparr>world := k\<rparr>)) =
           Some (Returned 0, s')"
  using assms
  by (auto simp: child_event_def waitpid_def bindE split: prod.splits if_splits outcome.splits)
    (metis outcome.exhaust)

text \<open>What an event does, by the stop reported.\<close>

lemma event_exit:
  "ps p = ExitStop \<Longrightarrow> pids_ok s \<Longrightarrow>
   processVariantEvent run v w (upd_proc v (\<lambda>_. p) (s\<lparr>world := k\<rparr>)) =
     Some (Returned 0, resumeVariantFromExit v (arrived v k p s))"
  by (simp add: processVariantEvent_def exit_info_sel arrived_def [symmetric] Let_def)

lemma event_signal:
  "ps p = SignalStop g \<Longrightarrow> pids_ok s \<Longrightarrow>
   processVariantEvent run v w (upd_proc v (\<lambda>_. p) (s\<lparr>world := k\<rparr>)) =
     Some (Exits 1, arrived v k p s)"
  by (simp add: processVariantEvent_def get_syscall_info_def arrived_def [symmetric] Let_def)

definition hold :: "vptr \<Rightarrow> 'k mvee \<Rightarrow> 'k mvee" where
  "hold v = upd_var v (\<lambda>x. x\<lparr>state := VSTATE_WAIT\<rparr>)"

lemma hold_sel [simp]:
  "vars (hold v s) w = (if w = v then (vars s v)\<lparr>state := VSTATE_WAIT\<rparr> else vars s w)"
  "proc_of (hold v s) w = proc_of s w" "pids_ok (hold v s) = pids_ok s" "mmaps (hold v s) = mmaps s"
  by (simp_all add: hold_def)

lemma event_entry:
  assumes "ps p = EntryStop" and "pids_ok s" and "v \<noteq> w"
  shows "processVariantEvent run v w (upd_proc v (\<lambda>_. p) (s\<lparr>world := k\<rparr>)) =
    (if num s v = num s w then
       if state (vars s w) = VSTATE_WAIT then do {
         let m = (if vtype (vars s v) = VTYPE_master then v else w);
         let r = (if vtype (vars s v) = VTYPE_master then w else v);
         (x, s') \<leftarrow> processSyscallSync run m r (arrived v k p s);
         if x \<noteq> 0 then Some (Returned x, upd_proc r kill9 (upd_proc m kill9 s'))
         else Some (Returned 0, s')
       }
       else Some (Returned 0, hold v (arrived v k p s))
     else if num s w < num s v then Some (Returned 0, hold v (arrived v k p s))
     else Some (Exits 1, arrived v k p s))"
  using assms
  by (simp add: processVariantEvent_def entry_info_sel arrived_def [symmetric] num_def hold_def Let_def
      cong: if_cong)

section \<open>Executors in a step\<close>

lemma run_stops:
  assumes "ptrace_alternates run" and "is_running (ps q)"
  shows "\<not> is_running (ps (snd (run k i q)))"
proof -
  have "after_syscall (ps (snd (run k i q))) \<or> after_user (ps (snd (run k i q)))"
    using assms unfolding ptrace_alternates_def by (cases "ps q") auto
  then show ?thesis by (cases "ps (snd (run k i q))") auto
qed

text \<open>
  \<open>execSyscall_access\<close> reports success although a variant has died: then nothing runs.
\<close>

lemma access_releases:
  assumes "ptrace_alternates run" and "m \<noteq> r" and "at_entry s"
    and "execSyscall_access run m r s = Some (0, s')"
  shows "released m r s s' \<or> same_ids s s' \<and> wedged s' \<and> (\<forall>v. num s' v = num s v)"
proof -
  obtain x t where t: "t = snd (variantStrCmp m (arg s m 0) r (arg s r 0) s)"
    and x: "runMasterReplicateRet run m r t = Some (x, s')"
    using assms(4) by (auto simp: execSyscall_access_def Let_def case_prod_beta bindE split: if_splits)
  have at: "at_entry t"
    using assms(3) t by (simp add: at_entry_def)
  have vt: "vars t = vars s" by (simp add: t)
  have rm: "r \<noteq> m" using assms(2) by simp
  show ?thesis
  proof (cases "x = 0")
    case True
    then have "execSyscall_getpid run m r t = Some (0, s')"
      using x by (simp add: execSyscall_getpid_def)
    from x_getpid.releases [OF assms(1,2) at this] vt show ?thesis
      by (simp add: released_def same_ids_def moved_def)
  next
    case False
    then show ?thesis
      using x at rm vt assms(2)
      by (auto simp: runMasterReplicateRet_def at_entry_def total_simps wedged_def same_ids_def
          num_def all_vptr_two [OF assms(2)] run_stops [OF assms(1)] split: if_splits)
  qed
qed

text \<open>\<open>execSyscall_pselect6\<close> waits for the replica at its entry stop: it never reports success.\<close>

lemma pselect6_never_0:
  assumes "m \<noteq> r" and "at_entry s"
  shows "execSyscall_pselect6 run m r s \<noteq> Some (0, s')"
  using assms not_sym [OF assms(1)]
  by (auto simp: execSyscall_pselect6_def at_entry_def total_simps)

lemma sync_released:
  assumes "ptrace_alternates run" and "m \<noteq> r" and "at_entry s"
    and "processSyscallSync run m r s = Some (0, s')" and "nr s m \<noteq> SYS_shutdown"
  shows "released m r s s' \<or>
         nr s m = SYS_access \<and> same_ids s s' \<and> wedged s' \<and> (\<forall>v. num s' v = num s v)"
proof -
  obtain e where e: "map_of dispatch_table (nr s m) = Some e" "e run m r s = Some (0, s')"
    using assms(4) by (rule processSyscallSync_0)
  show ?thesis
  proof (cases "nr s m = SYS_access")
    case True
    then have "e = execSyscall_access"
      using e(1) by (simp add: dispatch_table_def)
    with True e(2) access_releases [OF assms(1-3)] show ?thesis by blast
  next
    case False
    then have "sync_executor e" using dispatch_sync e(1) assms(5) by blast
    from sync_executor.releases [OF this assms(1-3) e(2)] show ?thesis by blast
  qed
qed

lemma sync_maps:
  assumes "m \<noteq> r" and "at_entry s" and "maps_ok s"
    and "processSyscallSync run m r s = Some (0, s')"
  shows "maps_ok s'"
proof -
  obtain e where e: "map_of dispatch_table (nr s m) = Some e" "e run m r s = Some (0, s')"
    using assms(4) by (rule processSyscallSync_0)
  have "nr s m \<noteq> SYS_pselect6"
    using e pselect6_never_0 [OF assms(1,2)] by (auto simp: dispatch_table_def)
  then have "total_executor e" using dispatch_total e(1) by blast
  from total_executor.keeps_maps_ok [OF this assms(1-3), of run] e(2) show ?thesis by auto
qed

text \<open>The successors of an accepted call satisfy the invariant.\<close>

lemma released_lockstep:
  assumes "m \<noteq> r" and "released m r s s'" and "num s m = num s r"
  shows "lockstep s'"
  using assms unfolding lockstep_two [OF assms(1)] level_def ahead_def
  by (auto simp: released_iff moved_def num_def in_user_def in_call_def)

lemma unat_Suc_le: "unat (x + 1 :: word64) \<le> Suc (unat x)"
  by (simp add: unat_word_ariths)

lemma unat_count:
  "unat x \<le> n \<Longrightarrow> n < 2 ^ 64 - 1 \<Longrightarrow> unat (x + 1 :: word64) = Suc (unat x)"
  by (simp add: unat_word_ariths)

lemma released_counted:
  assumes "m \<noteq> r" and "released m r s s'" and "counted n s"
  shows "counted (Suc n) s'"
proof -
  have "\<And>x :: word64. unat x \<le> n \<Longrightarrow> unat (x + 1) \<le> Suc n"
    using unat_Suc_le le_trans Suc_le_mono by blast
  with assms show ?thesis
    unfolding counted_def all_vptr_two [OF assms(1)]
    by (auto simp: released_iff moved_def num_def intro: le_SucI)
qed

section \<open>One round\<close>

definition safe :: "nat \<Rightarrow> 'k mvee \<Rightarrow> bool" where
  "safe n s \<longleftrightarrow> well_typed s \<and> counted n s \<and> lockstep s"

lemma well_typed_same_ids:
  "well_typed s \<Longrightarrow> same_ids s s' \<Longrightarrow> maps_ok s' \<Longrightarrow> well_typed s'"
  by (simp add: well_typed_def same_ids_def pids_ok_def)

lemma same_ids_trans: "same_ids s t \<Longrightarrow> same_ids t u \<Longrightarrow> same_ids s u"
  by (simp add: same_ids_def)

lemma same_ids_sel [simp]:
  "pids_ok s \<Longrightarrow> same_ids s (arrived v k p s)" "same_ids s (hold v s)"
  "same_ids s (resumeVariantFromExit v s)"
  by (simp_all add: same_ids_def)

text \<open>The end of a system call.\<close>

lemma exit_keeps:
  assumes "safe n s" and "ps (proc_of s v) = InSyscall" and "ps p = ExitStop"
    and "s' = resumeVariantFromExit v (arrived v k p s)"
  shows "safe (Suc n) s'"
proof -
  have pids: "pids_ok s" and le: "\<And>v. unat (num s v) \<le> n"
    using assms(1) by (simp_all add: safe_def well_typed_def counted_def)
  have wt: "well_typed s'"
    using assms(1,4) pids
    by (simp add: safe_def well_typed_def maps_ok_def)
  have num: "num s' w = (if w = v then num s v + 1 else num s w)" for w
    using assms(4) pids by (simp add: num_def)
  have "unat (num s' w) \<le> Suc n" for w
    using le [of w] unat_Suc_le [of "num s v"] by (auto simp: num intro: le_SucI order_trans)
  moreover have "lockstep s'"
    using assms(1,2,3) pids num unfolding safe_def lockstep_two [OF other_neq(2) [of v]]
    by (auto simp: level_def ahead_def in_user_def in_call_def waiting_def assms(4))
  ultimately show ?thesis using wt by (simp add: safe_def counted_def)
qed

text \<open>A variant that has to wait.\<close>

lemma hold_keeps:
  assumes "safe n s" and "ps (proc_of s v) = InUser" and "ps p = EntryStop"
    and "num s v \<noteq> num s (other v) \<or> state (vars s (other v)) \<noteq> VSTATE_WAIT"
    and "s' = hold v (arrived v k p s)"
  shows "safe (Suc n) s'"
proof -
  have pids: "pids_ok s" and le: "\<And>v. unat (num s v) \<le> n"
    using assms(1) by (simp_all add: safe_def well_typed_def counted_def)
  have wt: "well_typed s'"
    using assms(1,5) pids by (simp add: safe_def well_typed_def maps_ok_def)
  have num: "num s' w = num s w" for w
    using assms(5) pids by (simp add: num_def)
  have "lockstep s'"
    using assms(1-4) pids num unfolding safe_def lockstep_two [OF other_neq(2) [of v]]
    by (auto simp: level_def ahead_def in_user_def in_call_def waiting_def assms(5))
  then show ?thesis
    using wt le by (simp add: safe_def counted_def num le_SucI)
qed

text \<open>A call that both variants have reached.\<close>

lemma partner_waits:
  assumes "safe n s" and "ps (proc_of s v) = InUser" and "num s v = num s (other v)"
    and "state (vars s (other v)) = VSTATE_WAIT"
  shows "waiting s (other v)"
  using assms unfolding safe_def lockstep_two [OF other_neq(2) [of v]]
  by (auto simp: level_def ahead_def in_user_def in_call_def waiting_def)

lemma both_at_entry:
  assumes "safe n s" and "waiting s (other v)" and "ps p = EntryStop"
  shows "at_entry (arrived v k p s)"
    and "\<And>w. syscallInfo (vars (arrived v k p s) w) = get_syscall_info (proc_of (arrived v k p s) w)"
    and "\<And>w. nr (arrived v k p s) w = orig_rax (regs (proc_of (arrived v k p s) w))"
proof -
  have pids: "pids_ok s" using assms(1) by (simp add: safe_def well_typed_def)
  have two: "\<And>w. w = v \<or> w = other v" by (case_tac w; cases v) simp_all
  show at: "at_entry (arrived v k p s)"
    using assms pids two by (auto simp: at_entry_def waiting_def)
  show info: "syscallInfo (vars (arrived v k p s) w) = get_syscall_info (proc_of (arrived v k p s) w)" for w
    using assms pids two [of w] by (auto simp: waiting_def)
  show "nr (arrived v k p s) w = orig_rax (regs (proc_of (arrived v k p s) w))" for w
    unfolding nr_def info by (rule entry_info_sel(2)) (use at in \<open>simp only: at_entry_def\<close>)
qed

lemma num_arrived [simp]: "pids_ok s \<Longrightarrow> num (arrived v k p s) w = num s w"
  by (simp add: num_def)

lemma sync_call:
  assumes "safe n s" and "waiting s (other v)" and "ps p = EntryStop"
    and "processSyscallSync run Vmaster Vreplica (arrived v k p s) = Some (0, s')"
  shows "nr (arrived v k p s) Vmaster = orig_rax (regs p)"
proof -
  have "nr (arrived v k p s) Vmaster = nr (arrived v k p s) Vreplica"
    using assms(4) by (rule processSyscallSync_0)
  moreover have "nr (arrived v k p s) v = orig_rax (regs p)"
    using both_at_entry(3) [OF assms(1-3), of k v] assms(1) by (simp add: safe_def well_typed_def)
  ultimately show ?thesis by (cases v) simp_all
qed

lemma sync_keeps:
  assumes "ptrace_alternates run" and "safe n s" and "waiting s (other v)"
    and "ps p = EntryStop" and "num s v = num s (other v)"
    and "processSyscallSync run Vmaster Vreplica (arrived v k p s) = Some (0, s')"
    and "orig_rax (regs p) \<noteq> SYS_shutdown"
  shows "safe (Suc n) s' \<or> orig_rax (regs p) = SYS_access \<and> wedged s' \<and> well_typed s'"
proof -
  let ?t = "arrived v k p s"
  note at = both_at_entry [OF assms(2,3,4), of k]
  have pids: "pids_ok s" and wt: "well_typed ?t"
    using assms(2) by (simp_all add: safe_def well_typed_def maps_ok_def)
  have eq: "num ?t Vmaster = num ?t Vreplica"
    using assms(5) pids by (cases v) simp_all
  note nr = sync_call [OF assms(2-4,6)]
  have mo: "maps_ok s'"
    using sync_maps [OF _ at(1) _ assms(6)] wt by (simp add: well_typed_def)
  have cn: "counted n ?t" using assms(2) pids by (simp add: safe_def counted_def)
  from sync_released [OF assms(1) _ at(1) assms(6)] nr assms(7)
  consider (rel) "released Vmaster Vreplica ?t s'"
    | (acc) "orig_rax (regs p) = SYS_access" "same_ids ?t s'" "wedged s'"
    by auto
  then show ?thesis
  proof cases
    case rel
    then have "same_ids ?t s'" by (simp add: released_def)
    with rel mo wt well_typed_same_ids released_lockstep [OF _ rel eq] released_counted [OF _ rel cn]
    show ?thesis by (auto simp: safe_def)
  next
    case acc
    with mo wt well_typed_same_ids show ?thesis by blast
  qed
qed

text \<open>All rounds that go on.\<close>

lemma main_round_child:
  "main_round run child s = Some (Inr (), s') \<Longrightarrow> \<exists>v. child_event run v s = Some (Inr (), s')"
  by (auto simp: main_round_def split: if_splits)

lemma sync_variants:
  "well_typed s \<Longrightarrow> (if vtype (vars s v) = VTYPE_master then v else other v) = Vmaster \<and>
     (if vtype (vars s v) = VTYPE_master then other v else v) = Vreplica"
  by (cases v) (simp_all add: well_typed_def)

lemma step_cases:
  assumes "ptrace_alternates run" and "safe n s" and "n < 2 ^ 64 - 1"
    and "child_event run v s = Some (Inr (), s')"
  obtains (exit_stop) k p where "ps (proc_of s v) = InSyscall" and "ps p = ExitStop"
      and "s' = resumeVariantFromExit v (arrived v k p s)"
      and "run (world s) (pid (vars s v)) (proc_of s v) = (k, p)"
  | (hold) k p where "ps (proc_of s v) = InUser" and "ps p = EntryStop"
      and "num s v \<noteq> num s (other v) \<or> state (vars s (other v)) \<noteq> VSTATE_WAIT"
      and "s' = hold v (arrived v k p s)"
      and "run (world s) (pid (vars s v)) (proc_of s v) = (k, p)"
  | (sync) k p where "ps (proc_of s v) = InUser" and "ps p = EntryStop"
      and "num s v = num s (other v)" and "waiting s (other v)"
      and "processSyscallSync run Vmaster Vreplica (arrived v k p s) = Some (0, s')"
      and "run (world s) (pid (vars s v)) (proc_of s v) = (k, p)"
proof -
  obtain k p where run: "run (world s) (pid (vars s v)) (proc_of s v) = (k, p)"
    and running: "is_running (ps (proc_of s v))" and ok: "checkVariantExit (wait_status p) = 0"
    and ev: "processVariantEvent run v (other v) (upd_proc v (\<lambda>_. p) (s\<lparr>world := k\<rparr>)) =
           Some (Returned 0, s')"
    using assms(4) by (rule child_event_cases)
  have pids: "pids_ok s" and wt: "well_typed s"
    using assms(2) by (simp_all add: safe_def well_typed_def)
  show thesis
  proof (cases "ps (proc_of s v) = InSyscall")
    case True
    then have "ps p = ExitStop" using run_exit_stop [OF assms(1) run _ ok] by simp
    then show thesis using exit_stop [OF True] ev event_exit [OF _ pids] run by auto
  next
    case False
    then have u: "ps (proc_of s v) = InUser"
      using running by (cases "ps (proc_of s v)") auto
    then have "after_user (ps p)"
      using assms(1) run unfolding ptrace_alternates_def by (metis snd_conv)
    then have "ps p = EntryStop"
      using ok check_after [of p] ev event_signal [OF _ pids] by (cases "ps p") auto
    note e = ev [unfolded event_entry [OF this pids other_neq(2)] sync_variants [OF wt]]
    show thesis
    proof (cases "num s v = num s (other v) \<and> state (vars s (other v)) = VSTATE_WAIT")
      case True
      then have "processSyscallSync run Vmaster Vreplica (arrived v k p s) = Some (0, s')"
        using e by (auto simp: bindE Let_def sync_variants [OF wt] split: if_splits)
      with True u \<open>ps p = EntryStop\<close> run partner_waits [OF assms(2) u] show thesis
        by (intro sync) auto
    next
      case False
      then have "s' = hold v (arrived v k p s)"
        using e by (auto split: if_splits)
      with False u \<open>ps p = EntryStop\<close> run show thesis
        by (intro hold) auto
    qed
  qed
qed

lemma arrived_avoids:
  "avoids run c \<Longrightarrow> run (world s) i q = (k, p) \<Longrightarrow> ps p = EntryStop \<Longrightarrow> orig_rax (regs p) \<noteq> c"
  unfolding avoids_def by (metis snd_conv)

lemma step_safe:
  assumes "ptrace_alternates run" and "avoids run SYS_shutdown" and "safe n s" and "n < 2 ^ 64 - 1"
    and "mvee_step run s s'"
  shows "safe (Suc n) s' \<or> wedged s' \<and> well_typed s' \<and> \<not> avoids run SYS_access"
proof -
  obtain v where v: "child_event run v s = Some (Inr (), s')"
    using assms(5) by (auto elim!: mvee_stepE dest!: main_round_child)
  from assms(1,3,4) v show ?thesis
  proof (cases rule: step_cases)
    case (exit_stop k p)
    then show ?thesis using exit_keeps [OF assms(3)] by blast
  next
    case (hold k p)
    then show ?thesis using hold_keeps [OF assms(3)] by blast
  next
    case (sync k p)
    have "orig_rax (regs p) \<noteq> SYS_shutdown"
      by (rule arrived_avoids [OF assms(2) sync(6,2)])
    moreover have "\<not> avoids run SYS_access" if "orig_rax (regs p) = SYS_access"
      using that arrived_avoids [of run SYS_access, OF _ sync(6,2)] by blast
    ultimately show ?thesis
      using sync_keeps [OF assms(1,3) sync(4,2,3,5)] by blast
  qed
qed

lemma wedged_no_event: "wedged s \<Longrightarrow> child_event run v s = None"
  by (simp add: wedged_def child_event_def waitpid_def)

lemma wedged_no_step: "wedged s \<Longrightarrow> \<not> mvee_step run s s'"
  using main_round_child wedged_no_event by (fastforce elim!: mvee_stepE)

text \<open>A reported stop is always handled, but for the call that hangs the monitor.\<close>

lemma event_handled:
  assumes "ptrace_alternates run" and "avoids run SYS_pselect6" and "safe n s"
    and "is_running (ps (proc_of s v))"
  shows "child_event run v s \<noteq> None"
proof -
  obtain k p where run: "run (world s) (pid (vars s v)) (proc_of s v) = (k, p)"
    by fastforce
  have pids: "pids_ok s" and wt: "well_typed s"
    using assms(3) by (simp_all add: safe_def well_typed_def)
  have "processVariantEvent run v (other v) (upd_proc v (\<lambda>_. p) (s\<lparr>world := k\<rparr>)) \<noteq> None"
    if ok: "checkVariantExit (wait_status p) = 0"
  proof (cases "ps (proc_of s v) = InSyscall")
    case True
    then have "ps p = ExitStop" using run_exit_stop [OF assms(1) run _ ok] by simp
    then show ?thesis using event_exit [OF _ pids] by simp
  next
    case False
    then have u: "ps (proc_of s v) = InUser"
      using assms(4) by (cases "ps (proc_of s v)") auto
    then have "after_user (ps p)"
      using assms(1) run unfolding ptrace_alternates_def by (metis snd_conv)
    then consider (sig) g where "ps p = SignalStop g" | (ent) "ps p = EntryStop"
      using ok check_after [of p] by (cases "ps p") auto
    then show ?thesis
    proof cases
      case sig
      then show ?thesis using event_signal [OF _ pids] by simp
    next
      case ent
      have "processSyscallSync run Vmaster Vreplica (arrived v k p s) \<noteq> None"
        if "num s v = num s (other v)" "state (vars s (other v)) = VSTATE_WAIT"
      proof -
        note at = both_at_entry [OF assms(3) partner_waits [OF assms(3) u that] ent, of k]
        have "orig_rax (regs p) \<noteq> SYS_pselect6"
          by (rule arrived_avoids [OF assms(2) run ent])
        then have "nr (arrived v k p s) v \<noteq> SYS_pselect6"
          using at(3) [of v] pids by simp
        moreover have "maps_ok (arrived v k p s)"
          using wt by (simp add: well_typed_def maps_ok_def)
        moreover have "v = Vmaster \<or> v = Vreplica" by (cases v) simp_all
        ultimately show ?thesis
          using total_executor.never_blocks [OF dispatch_total _ at(1), of _ _ Vmaster Vreplica run]
          by (auto simp: processSyscallSync_def split: option.splits)
      qed
      then show ?thesis
        by (auto simp: event_entry [OF ent pids other_neq(2)] sync_variants [OF wt] Let_def
            split: option.splits)
    qed
  qed
  then show ?thesis
    using assms(4) run by (auto simp: child_event_def waitpid_def)
qed

lemma lockstep_runs: "lockstep s \<Longrightarrow> \<exists>v. is_running (ps (proc_of s v))"
  by (auto simp: lockstep_def level_def ahead_def in_user_def in_call_def)
    (metis is_running.simps)+

text \<open>Every reachable state, for as long as no count can wrap.\<close>

lemma reach_cases:
  assumes "reach run s0 n s" and "ptrace_alternates run" and "avoids run SYS_shutdown"
    and "safe 0 s0" and "n < 2 ^ 64"
  shows "well_typed s \<and> (safe n s \<or> wedged s \<and> \<not> avoids run SYS_access)"
  using assms
proof (induction rule: reach.induct)
  case start
  then show ?case by (simp add: safe_def)
next
  case (more n s s')
  then have n: "n < 2 ^ 64 - 1" by simp
  have "\<not> wedged s" using more.hyps(2) wedged_no_step by blast
  with more n have "safe n s" by simp
  from step_safe [OF more.prems(1,2) this n more.hyps(2)] show ?case
    by (auto simp: safe_def)
qed

lemma step_same_ids:
  assumes "ptrace_alternates run" and "avoids run SYS_shutdown" and "safe n s" and "n < 2 ^ 64 - 1"
    and "child_event run v s = Some (Inr (), s')"
  shows "same_ids s s'"
  using assms(1,3,4,5)
proof (cases rule: step_cases)
  case (sync k p)
  note at = both_at_entry [OF assms(3) sync(4,2), of k]
  have pids: "pids_ok s" using assms(3) by (simp add: safe_def well_typed_def)
  have "nr (arrived v k p s) Vmaster \<noteq> SYS_shutdown"
    using sync_call [OF assms(3) sync(4,2,5)] arrived_avoids [OF assms(2) sync(6,2)] by simp
  from sync_released [OF assms(1) _ at(1) sync(5) this]
  have "same_ids (arrived v k p s) s'" by (auto simp: released_def)
  then show ?thesis by (rule same_ids_trans [OF same_ids_sel(1) [OF pids]])
qed (use assms(3) in \<open>auto simp: safe_def well_typed_def same_ids_def\<close>)

lemma reach_same_ids:
  assumes "reach run s0 n s" and "ptrace_alternates run" and "avoids run SYS_shutdown"
    and "safe 0 s0" and "n < 2 ^ 64"
  shows "same_ids s0 s"
  using assms
proof (induction rule: reach.induct)
  case start
  then show ?case by (simp add: same_ids_def)
next
  case (more n s s')
  then have n: "n < 2 ^ 64 - 1" by simp
  have "\<not> wedged s" using more.hyps(2) wedged_no_step by blast
  then have safe: "safe n s" using reach_cases [OF more.hyps(1) more.prems(1-3)] n by simp
  obtain v where v: "child_event run v s = Some (Inr (), s')"
    using more.hyps(2) by (auto elim!: mvee_stepE dest!: main_round_child)
  from more.IH more.prems n have "same_ids s0 s" by simp
  then show ?case using step_same_ids [OF more.prems(1,2) safe n v] by (rule same_ids_trans)
qed

lemma main_round_pid: "pids_ok s \<Longrightarrow> main_round run (pid (vars s v)) s = child_event run v s"
  by (cases v) (auto simp: main_round_def pids_ok_def)

end
