(* ===== verification/Scenario.thy ===== *)
theory Scenario
  imports Monitor
begin

text \<open>
  A concrete machine, on which the properties are evaluated: a kernel in which every call of
  a tracee ends with one result and every tracee goes on to make one call, a process image
  from a call number, arguments and memory, and the state of the monitor for two such
  processes, master (pid 1) and replica (pid 2).
\<close>

definition kernel :: "word64 \<Rightarrow> word64 \<Rightarrow> unit env" where
  "kernel n x k i p =
     (k, case ps p of
           InSyscall \<Rightarrow> p\<lparr>ps := ExitStop, regs := (regs p)\<lparr>rax := x\<rparr>\<rparr>
         | _ \<Rightarrow> p\<lparr>ps := EntryStop, regs := (regs p)\<lparr>orig_rax := n\<rparr>\<rparr>)"

text \<open>A kernel in which the call of the process with pid 1 kills it.\<close>

definition deadly_kernel :: "word64 \<Rightarrow> unit env" where
  "deadly_kernel n k i p =
     (k, case ps p of
           InSyscall \<Rightarrow> p\<lparr>ps := (if i = 1 then Killed 9 else ExitStop)\<rparr>
         | _ \<Rightarrow> p\<lparr>ps := EntryStop, regs := (regs p)\<lparr>orig_rax := n\<rparr>\<rparr>)"

definition image :: "pstate \<Rightarrow> word64 \<Rightarrow> word64 list \<Rightarrow> (word64 \<Rightarrow> byte option) \<Rightarrow> proc" where
  "image st n a mm =
     \<lparr>ps = st,
      regs = \<lparr>rax = 0, orig_rax = n, rdi = a ! 0, rsi = a ! 1, rdx = a ! 2, r10 = a ! 3,
              r8 = a ! 4, r9 = a ! 5, rip = 0, rsp = 2048\<rparr>,
      mem = mm, opts = PTRACE_O_TRACESYSGOOD\<rparr>"

text \<open>All memory mapped and filled with one byte.\<close>

definition filled :: "byte \<Rightarrow> word64 \<Rightarrow> byte option" where
  "filled b = (\<lambda>_. Some b)"

definition no_args :: "word64 list" where
  "no_args = [0, 0, 0, 0, 0, 0]"

text \<open>The last two arguments are the states of master and replica.\<close>

definition scene :: "proc \<Rightarrow> proc \<Rightarrow> int \<Rightarrow> int \<Rightarrow> unit mvee" where
  "scene pm pr sm sr =
     \<lparr>procs = (\<lambda>i. if i = 1 then pm else pr), world = (),
      vars = (\<lambda>v. case v of
          Vmaster \<Rightarrow> \<lparr>pid = 1, state = sm, vtype = VTYPE_master, syscallNum = 0,
                      syscallInfo = get_syscall_info pm\<rparr>
        | Vreplica \<Rightarrow> \<lparr>pid = 2, state = sr, vtype = VTYPE_replica, syscallNum = 0,
                      syscallInfo = get_syscall_info pr\<rparr>),
      bufA = (\<lambda>_. 0), bufB = (\<lambda>_. 0), newfstatat_bufA = (\<lambda>_. 0), newfstatat_bufB = (\<lambda>_. 0),
      mmaps = initial_heap\<rparr>"

text \<open>
  Both variants at the entry of a call, with the arguments and the memory of each; the replica
  came second.
\<close>

definition pair_call ::
    "word64 \<Rightarrow> word64 list \<Rightarrow> byte \<Rightarrow> word64 list \<Rightarrow> byte \<Rightarrow> unit mvee" where
  "pair_call n a b a' b' =
     scene (image EntryStop n a (filled b)) (image EntryStop n a' (filled b'))
       VSTATE_WAIT VSTATE_RUNNING"

text \<open>Both variants run user code.\<close>

definition both_user :: "unit mvee" where
  "both_user = scene (image InUser 0 no_args (filled 0)) (image InUser 0 no_args (filled 0))
     VSTATE_RUNNING VSTATE_RUNNING"

lemma kernel_alternates: "ptrace_alternates (kernel n x)"
  by (simp add: ptrace_alternates_def kernel_def)

lemma deadly_kernel_alternates: "ptrace_alternates (deadly_kernel n)"
  by (simp add: ptrace_alternates_def deadly_kernel_def)

lemma image_sel [simp]:
  "ps (image st n a mm) = st" "mem (image st n a mm) = mm" "orig_rax (regs (image st n a mm)) = n"
  "rax (regs (image st n a mm)) = 0" "opts (image st n a mm) = PTRACE_O_TRACESYSGOOD"
  by (simp_all add: image_def)

lemma scene_sel [simp]:
  "procs (scene pm pr sm sr) = (\<lambda>i. if i = 1 then pm else pr)" "world (scene pm pr sm sr) = u"
  "pids_ok (scene pm pr sm sr)" "mmaps (scene pm pr sm sr) = initial_heap"
  "proc_of (scene pm pr sm sr) v = (case v of Vmaster \<Rightarrow> pm | Vreplica \<Rightarrow> pr)"
  "pid (vars (scene pm pr sm sr) v) = (case v of Vmaster \<Rightarrow> 1 | Vreplica \<Rightarrow> 2)"
  "syscallNum (vars (scene pm pr sm sr) v) = 0"
  "state (vars (scene pm pr sm sr) v) = (case v of Vmaster \<Rightarrow> sm | Vreplica \<Rightarrow> sr)"
  "vtype (vars (scene pm pr sm sr) v) = (case v of Vmaster \<Rightarrow> VTYPE_master | Vreplica \<Rightarrow> VTYPE_replica)"
  "syscallInfo (vars (scene pm pr sm sr) v) = get_syscall_info (case v of Vmaster \<Rightarrow> pm | Vreplica \<Rightarrow> pr)"
  by (simp_all add: scene_def proc_of_def pids_ok_def split: vptr.splits)

lemma entry_args_image [simp]:
  "n < 6 \<Longrightarrow> entry_args (get_syscall_info (image EntryStop c a mm)) n = a ! n"
  by (auto simp: entry_args_def get_syscall_info_def image_def eval_nat_numeral less_Suc_eq)

lemma entry_image [simp]:
  "entry_nr (get_syscall_info (image EntryStop c a mm)) = c"
  "si_op (get_syscall_info (image EntryStop c a mm)) = PTRACE_SYSCALL_INFO_ENTRY"
  by (simp_all add: entry_nr_def get_syscall_info_def image_def)

lemma arg_scene [simp]:
  "n < 6 \<Longrightarrow> arg (scene (image EntryStop c a mm) (image EntryStop c' a' mm') sm sr) v n =
     (case v of Vmaster \<Rightarrow> a ! n | Vreplica \<Rightarrow> a' ! n)"
  "nr (scene (image EntryStop c a mm) (image EntryStop c' a' mm') sm sr) v =
     (case v of Vmaster \<Rightarrow> c | Vreplica \<Rightarrow> c')"
  by (simp_all add: arg_def nr_def split: vptr.splits)

lemma mapped_filled [simp]: "mapped (filled b) a n"
  by (simp add: mapped_def filled_def)

lemma pair_call_sel [simp]:
  "pids_ok (pair_call n a b a' b')"
  "proc_of (pair_call n a b a' b') v =
     (case v of Vmaster \<Rightarrow> image EntryStop n a (filled b) | Vreplica \<Rightarrow> image EntryStop n a' (filled b'))"
  "world (pair_call n a b a' b') = u" "nr (pair_call n a b a' b') v = n"
  "i < 6 \<Longrightarrow> arg (pair_call n a b a' b') v i = (case v of Vmaster \<Rightarrow> a ! i | Vreplica \<Rightarrow> a' ! i)"
  "mmaps (pair_call n a b a' b') = initial_heap"
  "state (vars (pair_call n a b a' b') v) = (case v of Vmaster \<Rightarrow> VSTATE_WAIT | Vreplica \<Rightarrow> VSTATE_RUNNING)"
  "syscallNum (vars (pair_call n a b a' b') v) = 0"
  "vtype (vars (pair_call n a b a' b') v) = (case v of Vmaster \<Rightarrow> VTYPE_master | Vreplica \<Rightarrow> VTYPE_replica)"
  "pid (vars (pair_call n a b a' b') v) = (case v of Vmaster \<Rightarrow> 1 | Vreplica \<Rightarrow> 2)"
  "si_op (syscallInfo (vars (pair_call n a b a' b') v)) = PTRACE_SYSCALL_INFO_ENTRY"
  by (simp_all add: pair_call_def split: vptr.splits)

end
