(* ===== verification/Effects.thy ===== *)
theory Effects
  imports Protocol Scenario
begin

text \<open>
  The vocabulary in which the effect of an executor on the two processes is stated (a run of
  one variant from its entry stop to its exit stop, registers and memory changed by the
  monitor, a completed call), with the lemmas that evaluate an executor under a given
  outcome of the two runs, and the concrete machine of \<open>Scenario\<close> seen through it.
\<close>

section \<open>Copies between the variants\<close>

lemma overwrite_cong: "(\<And>i. i < n \<Longrightarrow> f i = g i) \<Longrightarrow> overwrite m a n f = overwrite m a n g"
  by (auto simp: overwrite_def fun_eq_iff)

text \<open>The sizes for which \<open>writeVariantMem\<close> writes what it was given.\<close>

definition whole_words :: "nat \<Rightarrow> bool" where
  "whole_words n \<longleftrightarrow> n < 8 \<or> n mod 8 = 0"

lemma written_whole: "whole_words n \<Longrightarrow> written b n d = b d"
  by (auto simp: whole_words_def written_def)

definition bytes_at :: "proc \<Rightarrow> word64 \<Rightarrow> nat \<Rightarrow> byte" where
  "bytes_at p a i = the (mem p (a + of_nat i))"

lemma transfer_copies:
  assumes "pids_ok s" and "sz \<le> BUF_SIZE" and "stopped (proc_of s sv)" and "stopped (proc_of s dv)"
    and "mapped (mem (proc_of s sv)) sa (words8 (unat sz))"
    and "mapped (mem (proc_of s dv)) da (max 8 (unat sz))" and "whole_words (unat sz)"
  shows "fst (transferVariantMem sv sa dv da sz s) = 0"
    and "proc_of (snd (transferVariantMem sv sa dv da sz s)) w =
      (if w = dv then (proc_of s dv)\<lparr>mem := overwrite (mem (proc_of s dv)) da (unat sz)
                                             (bytes_at (proc_of s sv) sa)\<rparr>
       else proc_of s w)"
proof -
  have "overwrite (mem (proc_of s dv)) da (unat sz) (written (read_buffer s sv sa sz) (unat sz)) =
      overwrite (mem (proc_of s dv)) da (unat sz) (bytes_at (proc_of s sv) sa)"
  proof (rule overwrite_cong)
    fix i assume i: "i < unat sz"
    then have "read_buffer s sv sa sz i = vbyte s sv sa i"
      using words8_bounds(1) [of "unat sz"] by (simp add: read_buffer_def)
    also have "\<dots> = bytes_at (proc_of s sv) sa i"
      unfolding vbyte_def bytes_at_def by (rule read_byte_mapped [OF assms(3,5) i])
    finally show "written (read_buffer s sv sa sz) (unat sz) i = bytes_at (proc_of s sv) sa i"
      by (simp add: written_whole assms(7))
  qed
  with transferVariantMem_window [OF assms(1-4,6), of sa] assms(1)
  show "fst (transferVariantMem sv sa dv da sz s) = 0"
    and "proc_of (snd (transferVariantMem sv sa dv da sz s)) w =
      (if w = dv then (proc_of s dv)\<lparr>mem := overwrite (mem (proc_of s dv)) da (unat sz)
                                             (bytes_at (proc_of s sv) sa)\<rparr>
       else proc_of s w)"
    by simp_all
qed

section \<open>Runs of one variant\<close>

text \<open>
  \<open>steps_to run s v q k p\<close>: variant \<open>v\<close>, resumed with the process image \<open>q\<close> in the outside
  world \<open>k0\<close>, comes to the stop \<open>p\<close> with the outside world \<open>k\<close>.
\<close>

definition steps_to :: "'k env \<Rightarrow> 'k mvee \<Rightarrow> vptr \<Rightarrow> 'k \<Rightarrow> proc \<Rightarrow> 'k \<Rightarrow> proc \<Rightarrow> bool" where
  "steps_to run s v k0 q k p \<longleftrightarrow> run k0 (pid (vars s v)) (q\<lparr>ps := InSyscall\<rparr>) = (k, p)"

definition with_rax :: "word64 \<Rightarrow> proc \<Rightarrow> proc" where
  "with_rax x p = p\<lparr>regs := (regs p)\<lparr>rax := x\<rparr>\<rparr>"

definition with_call :: "word64 \<Rightarrow> proc \<Rightarrow> proc" where
  "with_call n p = p\<lparr>regs := (regs p)\<lparr>orig_rax := n\<rparr>\<rparr>"

text \<open>Both variants run user code again, the call counted.\<close>

definition completed :: "'k mvee \<Rightarrow> 'k mvee \<Rightarrow> vptr \<Rightarrow> proc \<Rightarrow> bool" where
  "completed s s' v p \<longleftrightarrow> proc_of s' v = p\<lparr>ps := InUser\<rparr> \<and> num s' v = num s v + 1"

lemma stops_at_exit:
  assumes "ptrace_alternates run" and "steps_to run s v k0 q k p"
  shows "\<not> is_dead (ps p) \<longleftrightarrow> ps p = ExitStop" and "checkVariantExit (wait_status p) = (if is_dead (ps p) then - 1 else 0)"
proof -
  have a: "after_syscall (ps p)"
    using assms unfolding ptrace_alternates_def steps_to_def
    by (metis (no_types) proc.select_convs(1) proc.surjective proc.update_convs(1) snd_conv)
  show "\<not> is_dead (ps p) \<longleftrightarrow> ps p = ExitStop" using a by (cases "ps p") auto
  show "checkVariantExit (wait_status p) = (if is_dead (ps p) then - 1 else 0)"
    using a check_after by simp
qed

lemma ptrace_syscall_entry:
  "ps p = EntryStop \<Longrightarrow> ptrace_syscall p = p\<lparr>ps := InSyscall\<rparr>"
  "ps p = ExitStop \<Longrightarrow> ptrace_syscall p = p\<lparr>ps := InUser\<rparr>"
  by (simp_all add: ptrace_syscall_def)

lemma poke_stopped:
  "stopped p \<Longrightarrow> pokeuser p 120 n = with_call n p" "stopped p \<Longrightarrow> pokeuser p 80 n = with_rax n p"
  by (simp_all add: pokeuser_def with_call_def with_rax_def)

lemma with_sel [simp]:
  "ps (with_call n p) = ps p" "mem (with_call n p) = mem p" "orig_rax (regs (with_call n p)) = n"
  "ps (with_rax n p) = ps p" "mem (with_rax n p) = mem p" "rax (regs (with_rax n p)) = n"
  by (simp_all add: with_call_def with_rax_def)

text \<open>A wait for a variant resumed from its entry stop, with the outcome given.\<close>

lemma wait_steps:
  assumes "ptrace_alternates run" and "pids_ok s" and "ps (proc_of s v) = EntryStop"
    and "steps_to run s v (world s) (proc_of s v) k p"
  shows "waitVariant run v (resumeVariantFromWait v s) =
     Some (if is_dead (ps p) then - 1 else 0, ran v k p s)"
  using assms stops_at_exit(2) [OF assms(1,4)]
  by (simp add: wait_returns steps_to_def ptrace_syscall_entry)

text \<open>The same for an outcome in which the variant survives the call.\<close>

lemma wait_exit:
  assumes "ptrace_alternates run" and "pids_ok s" and "ps (proc_of s v) = EntryStop"
    and "steps_to run s v (world s) (proc_of s v) k p" and "\<not> is_dead (ps p)"
  shows "waitVariant run v (resumeVariantFromWait v s) = Some (0, ran v k p s)"
    and "ps p = ExitStop"
  using wait_steps [OF assms(1-4)] stops_at_exit(1) [OF assms(1,4)] assms(5) by simp_all

lemma at_entry_two:
  assumes "m \<noteq> r" and "at_entry s"
  shows "r \<noteq> m" and "pids_ok s" and "ps (proc_of s m) = EntryStop" and "ps (proc_of s r) = EntryStop"
  using assms by (auto simp: at_entry_def)

lemma rval_exit: "ps p = ExitStop \<Longrightarrow> rval (requestSyscallInfo v s) v = rax (regs p)"
  if "proc_of s v = p" for v s
  using that by (simp add: rval_def exit_info_sel)

lemmas effect_simps = at_entry_def completed_def num_def Let_def case_prod_beta rval_exit
  ptrace_syscall_entry poke_stopped exit_info_sel rval_def

section \<open>The data of a call that ran in the master\<close>

definition patched :: "proc \<Rightarrow> word64 \<Rightarrow> nat \<Rightarrow> (nat \<Rightarrow> byte) \<Rightarrow> proc" where
  "patched p a n f = p\<lparr>mem := overwrite (mem p) a n f\<rparr>"

lemma patched_sel [simp]: "ps (patched p a n f) = ps p" "regs (patched p a n f) = regs p"
  by (simp_all add: patched_def)

text \<open>The state in which the master has run the call and the monitor has asked for its result.\<close>

definition master_done :: "vptr \<Rightarrow> 'k \<Rightarrow> proc \<Rightarrow> 'k mvee \<Rightarrow> 'k mvee" where
  "master_done m k p s = requestSyscallInfo m (ran m k p s)"

lemma master_done_sel [simp]:
  "pids_ok (master_done m k p s) = pids_ok s"
  "pids_ok s \<Longrightarrow> proc_of (master_done m k p s) w = (if w = m then p else proc_of s w)"
  "world (master_done m k p s) = k" "mmaps (master_done m k p s) = mmaps s"
  "pids_ok s \<Longrightarrow> ps p = ExitStop \<Longrightarrow> rval (master_done m k p s) m = rax (regs p)"
  by (simp_all add: master_done_def effect_simps)

lemma master_done_vars [simp]:
  "pids_ok s \<Longrightarrow> vars (master_done m k p s) w =
     (if w = m then (vars s m)\<lparr>state := VSTATE_RUNNING, syscallInfo := get_syscall_info p\<rparr>
      else vars s w)"
  by (simp add: master_done_def)

text \<open>A buffer of \<open>n\<close> bytes that can be moved from the master's memory to the replica's.\<close>

definition movable :: "proc \<Rightarrow> word64 \<Rightarrow> proc \<Rightarrow> word64 \<Rightarrow> word64 \<Rightarrow> bool" where
  "movable p a q b n \<longleftrightarrow> n \<le> BUF_SIZE \<and> whole_words (unat n) \<and>
     mapped (mem p) a (words8 (unat n)) \<and> mapped (mem q) b (max 8 (unat n))"

lemma transfer_done:
  assumes "pids_ok s" and "r \<noteq> m" and "ps p = ExitStop" and "ps (proc_of s r) = EntryStop"
    and "movable p a (proc_of s r) b n"
  shows "fst (transferVariantMem m a r b n (master_done m k p s)) = 0"
    and "proc_of (snd (transferVariantMem m a r b n (master_done m k p s))) w =
      (if w = r then patched (proc_of s r) b (unat n) (bytes_at p a)
       else proc_of (master_done m k p s) w)"
  using transfer_copies [of "master_done m k p s" n m r a b] assms
  by (simp_all add: movable_def patched_def)

definition as_lseek :: "word64 \<Rightarrow> word64 \<Rightarrow> proc \<Rightarrow> proc" where
  "as_lseek fd off p =
     p\<lparr>regs := (regs p)\<lparr>orig_rax := SYS_lseek, rdi := fd, rsi := off, rdx := 1\<rparr>\<rparr>"

definition seek_args :: "word64 \<Rightarrow> word64 \<Rightarrow> proc \<Rightarrow> proc" where
  "seek_args fd off p = p\<lparr>regs := (regs p)\<lparr>rdi := fd, rsi := off, rdx := 1\<rparr>\<rparr>"

lemma as_lseek_eq: "as_lseek fd off p = with_call SYS_lseek (seek_args fd off p)"
  by (simp add: as_lseek_def with_call_def seek_args_def)

lemma seek_args_sel [simp]: "ps (seek_args fd off p) = ps p" "mem (seek_args fd off p) = mem p"
    "ps (as_lseek fd off p) = ps p"
  by (simp_all add: seek_args_def as_lseek_def)

lemma setregs_seek:
  "stopped p \<Longrightarrow> regs p = g \<Longrightarrow> setregs p (g\<lparr>rdi := fd, rsi := off, rdx := 1\<rparr>) = seek_args fd off p"
  by (auto simp: setregs_def seek_args_def)

lemma movable_not_minus_1: "movable p a q b n \<Longrightarrow> n \<noteq> - 1"
  by (auto simp: movable_def word_le_nat_alt unsigned_minus_1_eq_mask mask_eq_exp_minus_1)

section \<open>The address space\<close>

definition resumed_both :: "'k mvee \<Rightarrow> 'k mvee \<Rightarrow> bool" where
  "resumed_both s s' \<longleftrightarrow> world s' = world s \<and>
     (\<forall>v. proc_of s' v = (proc_of s v)\<lparr>ps := InSyscall\<rparr> \<and> num s' v = num s v)"

lemma resume_both_resumed:
  "m \<noteq> r \<Longrightarrow> at_entry s \<Longrightarrow> resumed_both s (resume_both m r s)"
  by (simp add: resumed_both_def resume_both_def effect_simps all_vptr_two [of m r])

lemma resumed_both_mmaps: "resumed_both s (t\<lparr>mmaps := mh\<rparr>) = resumed_both s t"
  by (simp add: resumed_both_def num_def)

section \<open>The concrete machine\<close>

lemma steps_kernel [simp]:
  "steps_to (kernel n x) s v k q k (with_rax x (q\<lparr>ps := ExitStop\<rparr>))"
  by (simp add: steps_to_def kernel_def with_rax_def)

lemma at_entry_pair_call [simp]: "at_entry (pair_call n a b a' b')"
  by (simp add: at_entry_def split: vptr.splits)

lemma num_pair_call [simp]: "num (pair_call n a b a' b') v = 0"
  by (simp add: num_def)

lemma filled_apply [simp]: "filled b x = Some b"
  by (simp add: filled_def)

lemma bytes_at_filled [simp]: "mem p = filled b \<Longrightarrow> bytes_at p a i = b"
  by (simp add: bytes_at_def)

lemma vbyte_filled [simp]:
  "stopped (proc_of s v) \<Longrightarrow> mem (proc_of s v) = filled b \<Longrightarrow> vbyte s v a i = b"
  using read_byte_mapped [of "proc_of s v" a "Suc i" i] by (simp add: vbyte_def)

lemmas machine_simps = completed_def movable_def whole_words_def BUF_SIZE_def patched_def
  overwrite_def as_lseek_def seek_args_def with_rax_def with_call_def agree_def holds_def
  buf_size_def Let_def sext32_def

end
