(* ===== verification/CallProps.thy ===== *)
theory CallProps
  imports Effects
begin

text \<open>
  What the executors do to the two processes: which call each of them runs with which
  registers, what the replica finds in its memory and its result register, what the list of
  mappings records. Each property is applied to the concrete machine of \<open>Scenario\<close>.
\<close>

section \<open>The call runs in the master alone, or in both\<close>

text \<open>\<open>runMasterReplicateRet\<close> lets the master run its call and the replica \<open>getpid\<close> in its
  place. If both survive, both go on in user code with the call counted, the replica with the
  master's result, truncated to an \<open>int\<close> and sign-extended, in \<open>rax\<close>; if the master dies in
  the call the replica is not touched and the result is -1, and if the replica dies it is -1.\<close>

lemma master_alone:
  assumes "ptrace_alternates run" and "m \<noteq> r" and "at_entry s"
    and "steps_to run s m (world s) (proc_of s m) k1 p1"
    and "steps_to run s r k1 (with_call SYS_getpid (proc_of s r)) k2 p2"
  shows "\<exists>x s'. runMasterReplicateRet run m r s = Some (x, s') \<and>
     (if is_dead (ps p1) then x = - 1 \<and> world s' = k1 \<and> proc_of s' r = proc_of s r
      else if is_dead (ps p2) then x = - 1 \<and> world s' = k2
      else x = 0 \<and> world s' = k2 \<and> completed s s' m p1 \<and>
           completed s s' r (with_rax (sext32 (rax (regs p1))) p2))"
proof -
  note at = at_entry_two [OF assms(2,3)]
  note w1 = wait_steps [OF assms(1) at(2,3) assms(4)]
  show ?thesis
  proof (cases "is_dead (ps p1)")
    case True
    then show ?thesis
      using w1 at by (simp add: runMasterReplicateRet_def)
  next
    case False
    then have e1: "ps p1 = ExitStop" using stops_at_exit(1) [OF assms(1,4)] by blast
    let ?t = "setNopSyscall r (requestSyscallInfo m (ran m k1 p1 s))"
    have "steps_to run ?t r (world ?t) (proc_of ?t r) k2 p2"
      using assms(5) at by (simp add: steps_to_def poke_stopped)
    from wait_steps [OF assms(1) _ _ this] at
    have w2: "waitVariant run r (resumeVariantFromWait r ?t) =
        Some (if is_dead (ps p2) then - 1 else 0, ran r k2 p2 ?t)"
      by simp
    have "is_dead (ps p2) \<or> ps p2 = ExitStop"
      using stops_at_exit(1) [OF assms(1,5)] by blast
    with False e1 w1 w2 assms(2) at show ?thesis
      by (elim disjE) (simp_all add: runMasterReplicateRet_def effect_simps)
  qed
qed

text \<open>\<open>runBothCopyMasterRet\<close> lets both variants run the call, the master first; if both
  survive, the replica's result is replaced by the master's, as an \<open>int\<close>.\<close>

lemma both_run:
  assumes "ptrace_alternates run" and "m \<noteq> r" and "at_entry s"
    and "steps_to run s m (world s) (proc_of s m) k1 p1"
    and "steps_to run s r k1 (proc_of s r) k2 p2"
  shows "\<exists>x s'. runBothCopyMasterRet run m r s = Some (x, s') \<and>
     (if is_dead (ps p1) then x = - 1 \<and> world s' = k1 \<and> proc_of s' r = proc_of s r
      else if is_dead (ps p2) then x = - 1 \<and> world s' = k2
      else x = 0 \<and> world s' = k2 \<and> completed s s' m p1 \<and>
           completed s s' r (with_rax (sext32 (rax (regs p1))) p2))"
proof -
  note at = at_entry_two [OF assms(2,3)]
  note w1 = wait_steps [OF assms(1) at(2,3) assms(4)]
  show ?thesis
  proof (cases "is_dead (ps p1)")
    case True
    then show ?thesis
      using w1 at by (simp add: runBothCopyMasterRet_def)
  next
    case False
    then have e1: "ps p1 = ExitStop" using stops_at_exit(1) [OF assms(1,4)] by blast
    let ?t = "requestSyscallInfo m (ran m k1 p1 s)"
    have "steps_to run ?t r (world ?t) (proc_of ?t r) k2 p2"
      using assms(5) at by (simp add: steps_to_def)
    from wait_steps [OF assms(1) _ _ this] at
    have w2: "waitVariant run r (resumeVariantFromWait r ?t) =
        Some (if is_dead (ps p2) then - 1 else 0, ran r k2 p2 ?t)"
      by simp
    have "is_dead (ps p2) \<or> ps p2 = ExitStop"
      using stops_at_exit(1) [OF assms(1,5)] by blast
    with False e1 w1 w2 assms(2) at show ?thesis
      by (elim disjE) (simp_all add: runBothCopyMasterRet_def effect_simps)
  qed
qed

section \<open>Calls that read\<close>

text \<open>C17: A \<open>read\<close> with agreeing descriptors and counts that moves \<open>n\<close> bytes between mapped
  buffers, with \<open>n\<close> at most \<open>BUF_SIZE\<close> and less than 8 or a multiple of 8, and in which neither
  variant dies, is made by the master alone. The replica finds the \<open>n\<close> bytes of the master's
  buffer in its own buffer, with the rest of its memory unchanged, makes
  \<open>lseek(fd, n, SEEK_CUR)\<close> in place of the read, and gets the master's result \<open>n\<close>. For other
  \<open>n\<close> the last bytes come from a wrong place (see the tail of a write).\<close>

theorem read_runs:
  assumes "ptrace_alternates run" and "m \<noteq> r" and "at_entry s"
    and "agree [SameInt 0, Same 2] s m r"
    and "steps_to run s m (world s) (proc_of s m) k1 p1" and "\<not> is_dead (ps p1)"
    and "n = rax (regs p1)" and "movable p1 (arg s m 1) (proc_of s r) (arg s r 1) n"
    and "steps_to run s r k1 (as_lseek (arg s r 0) n
          (patched (proc_of s r) (arg s r 1) (unat n) (bytes_at p1 (arg s m 1)))) k2 p2"
    and "\<not> is_dead (ps p2)"
  shows "\<exists>s'. execSyscall_read run m r s = Some (0, s') \<and> world s' = k2 \<and>
     completed s s' m p1 \<and> completed s s' r (with_rax n p2)"
proof -
  note at = at_entry_two [OF assms(2,3)]
  note w1 = wait_exit [OF assms(1) at(2,3) assms(5,6)]
  note tr = transfer_done [OF at(2,1) w1(2) at(4) assms(8), where k = k1]
  note n = movable_not_minus_1 [OF assms(8)]
  let ?u = "snd (transferVariantMem m (arg s m 1) r (arg s r 1) n (master_done m k1 p1 s))"
  let ?t = "setSyscall r SYS_lseek (set_lseek_args r (arg s r 0) n ?u)"
  have "steps_to run ?t r (world ?t) (proc_of ?t r) k2 p2"
    using assms(9) at tr(2) by (simp add: steps_to_def poke_stopped setregs_seek as_lseek_eq)
  from wait_exit [OF assms(1) _ _ this assms(10)] at tr(2)
  have w2: "waitVariant run r (resumeVariantFromWait r ?t) = Some (0, ran r k2 p2 ?t)"
    and e2: "ps p2 = ExitStop"
    by simp_all
  have "sext32 (arg s m 0) = arg s r 0" "arg s m 2 = arg s r 2"
    using assms(4) by (simp_all add: agree_def holds_def)
  then show ?thesis
    using w1 w2 e2 n tr assms(2) at assms(7) [symmetric]
    by (simp add: execSyscall_read_def effect_simps master_done_def [symmetric])
qed

theorem read_runs_witness:
  "\<exists>s'. execSyscall_read (kernel 0 8) Vmaster Vreplica
      (pair_call SYS_read [3, 64, 8, 0, 0, 0] 65 [3, 128, 8, 0, 0, 0] 0) = Some (0, s') \<and>
     mem (proc_of s' Vreplica) 130 = Some 65 \<and> num s' Vreplica = 1"
  using read_runs [OF kernel_alternates [of 0 8] _ _ _ steps_kernel _ refl _ steps_kernel,
      of Vmaster Vreplica "pair_call SYS_read [3, 64, 8, 0, 0, 0] 65 [3, 128, 8, 0, 0, 0] 0"]
  by (auto simp: machine_simps)

text \<open>An accepted \<open>pread64\<close> is made by the master alone, the replica makes \<open>getpid\<close>, finds
  the master's bytes in its buffer and gets the master's 64-bit result.\<close>

lemma pread64_runs:
  assumes "ptrace_alternates run" and "m \<noteq> r" and "at_entry s"
    and "agree [Same 0, Same 2, Same 3] s m r"
    and "steps_to run s m (world s) (proc_of s m) k1 p1" and "\<not> is_dead (ps p1)"
    and "n = rax (regs p1)" and "movable p1 (arg s m 1) (proc_of s r) (arg s r 1) n"
    and "steps_to run s r k1 (with_call SYS_getpid
          (patched (proc_of s r) (arg s r 1) (unat n) (bytes_at p1 (arg s m 1)))) k2 p2"
    and "\<not> is_dead (ps p2)"
  shows "\<exists>s'. execSyscall_pread64 run m r s = Some (0, s') \<and> world s' = k2 \<and>
     completed s s' m p1 \<and> completed s s' r (with_rax n p2)"
proof -
  note at = at_entry_two [OF assms(2,3)]
  note w1 = wait_exit [OF assms(1) at(2,3) assms(5,6)]
  note tr = transfer_done [OF at(2,1) w1(2) at(4) assms(8), where k = k1]
  let ?u = "snd (transferVariantMem m (arg s m 1) r (arg s r 1) n (master_done m k1 p1 s))"
  let ?t = "setNopSyscall r ?u"
  have "steps_to run ?t r (world ?t) (proc_of ?t r) k2 p2"
    using assms(9) at tr(2) by (simp add: steps_to_def poke_stopped)
  from wait_exit [OF assms(1) _ _ this assms(10)] at tr(2)
  have w2: "waitVariant run r (resumeVariantFromWait r ?t) = Some (0, ran r k2 p2 ?t)"
    and e2: "ps p2 = ExitStop"
    by simp_all
  show ?thesis
    using assms(4) w1 w2 e2 tr assms(2) at assms(7) [symmetric]
    by (simp add: execSyscall_pread64_def effect_simps master_done_def [symmetric] agree_def holds_def)
qed

text \<open>C20: A \<open>getrandom\<close> with agreeing length and flags that gives \<open>n\<close> bytes, with \<open>n\<close> at most
  \<open>BUF_SIZE\<close> and less than 8 or a multiple of 8, mapped buffers and no death, leaves the random
  bytes and the result of the master in both variants; both go on in user code, but the call is
  counted in neither of them. For other \<open>n\<close>, such as 10, the last bytes of the replica differ.\<close>

theorem getrandom_runs:
  assumes "ptrace_alternates run" and "m \<noteq> r" and "at_entry s"
    and "agree [Same 1, Same 2] s m r"
    and "steps_to run s m (world s) (proc_of s m) k1 p1" and "\<not> is_dead (ps p1)"
    and "n = rax (regs p1)" and "movable p1 (arg s m 0) (proc_of s r) (arg s r 0) n"
    and "steps_to run s r k1 (with_call SYS_getpid
          (patched (proc_of s r) (arg s r 0) (unat n) (bytes_at p1 (arg s m 0)))) k2 p2"
    and "\<not> is_dead (ps p2)"
  shows "\<exists>s'. execSyscall_getrandom run m r s = Some (0, s') \<and> world s' = k2 \<and>
     proc_of s' m = p1\<lparr>ps := InUser\<rparr> \<and> proc_of s' r = with_rax n p2\<lparr>ps := InUser\<rparr> \<and>
     num s' m = num s m \<and> num s' r = num s r"
proof -
  note at = at_entry_two [OF assms(2,3)]
  note w1 = wait_exit [OF assms(1) at(2,3) assms(5,6)]
  note tr = transfer_done [OF at(2,1) w1(2) at(4) assms(8), where k = k1]
  note n = movable_not_minus_1 [OF assms(8)]
  let ?u = "snd (transferVariantMem m (arg s m 0) r (arg s r 0) n (master_done m k1 p1 s))"
  let ?t = "setNopSyscall r ?u"
  have "steps_to run ?t r (world ?t) (proc_of ?t r) k2 p2"
    using assms(9) at tr(2) by (simp add: steps_to_def poke_stopped)
  from wait_exit [OF assms(1) _ _ this assms(10)] at tr(2)
  have w2: "waitVariant run r (resumeVariantFromWait r ?t) = Some (0, ran r k2 p2 ?t)"
    and e2: "ps p2 = ExitStop"
    by simp_all
  show ?thesis
    using assms(4) w1 w2 e2 n tr assms(2) at assms(7) [symmetric]
    by (simp add: execSyscall_getrandom_def effect_simps master_done_def [symmetric] agree_def holds_def)
qed

theorem getrandom_runs_witness:
  "\<exists>s'. execSyscall_getrandom (kernel 0 16) Vmaster Vreplica
      (pair_call SYS_getrandom [64, 16, 0, 0, 0, 0] 65 [128, 16, 0, 0, 0, 0] 0) = Some (0, s') \<and>
     mem (proc_of s' Vreplica) 130 = Some 65 \<and> num s' Vreplica = 0"
  using getrandom_runs [OF kernel_alternates [of 0 16] _ _ _ steps_kernel _ refl _ steps_kernel,
      of Vmaster Vreplica "pair_call SYS_getrandom [64, 16, 0, 0, 0, 0] 65 [128, 16, 0, 0, 0, 0] 0"]
  by (auto simp: machine_simps)

text \<open>C21: A \<open>newfstatat\<close> with equal directory descriptors and flags, whose paths agree up to the
  master's terminator, in which neither variant dies and whose two \<open>struct stat\<close> buffers are
  mapped, is made by the master alone, and the replica gets its result and the 144 bytes of its
  \<open>struct stat\<close>. The replica's path may go on after the point where the master's ends.\<close>

theorem newfstatat_runs:
  assumes "ptrace_alternates run" and "m \<noteq> r" and "at_entry s"
    and "arg s m 0 = arg s r 0" and "arg s m 3 = arg s r 3"
    and "\<forall>j < strnlen (vbyte s m (arg s m 1)) PATH_LIMIT.
           vbyte s m (arg s m 1) j = vbyte s r (arg s r 1) j"
    and "steps_to run s m (world s) (proc_of s m) k1 p1" and "\<not> is_dead (ps p1)"
    and "movable p1 (arg s m 2) (proc_of s r) (arg s r 2) 144"
    and "steps_to run s r k1 (with_call SYS_getpid
          (patched (proc_of s r) (arg s r 2) 144 (bytes_at p1 (arg s m 2)))) k2 p2"
    and "\<not> is_dead (ps p2)"
  shows "\<exists>s'. execSyscall_newfstatat run m r s = Some (0, s') \<and> world s' = k2 \<and>
     completed s s' m p1 \<and> completed s s' r (with_rax (sext32 (rax (regs p1))) p2)"
proof -
  note at = at_entry_two [OF assms(2,3)]
  define x where "x = snd (fstatat_path m r s)"
  have fx: "fstatat_path m r s = (Inr True, x)"
    unfolding prod_eq_iff fstatat_path_result x_def using assms(6) by simp
  have x: "vars x = vars s" "pids_ok x" "world x = world s" "proc_of x v = proc_of s v" "arg x = arg s" for v
    using at(2) unfolding x_def by simp_all
  have "steps_to run x m (world x) (proc_of x m) k1 p1"
    using assms(7) x by (simp add: steps_to_def)
  note w1 = wait_exit [OF assms(1) x(2) _ this assms(8), unfolded x(4), OF at(3)]
  have mv: "movable p1 (arg s m 2) (proc_of x r) (arg s r 2) 144" "ps (proc_of x r) = EntryStop"
    using assms(9) at(4) x(4) by simp_all
  note tr = transfer_done [OF x(2) at(1) w1(2) mv(2,1), where k = k1, unfolded x(4)]
  let ?u = "snd (transferVariantMem m (arg s m 2) r (arg s r 2) 144 (master_done m k1 p1 x))"
  let ?t = "setNopSyscall r ?u"
  have "steps_to run ?t r (world ?t) (proc_of ?t r) k2 p2"
    using assms(10) x at tr(2) by (simp add: steps_to_def poke_stopped)
  from wait_exit [OF assms(1) _ _ this assms(11)] x at tr(2)
  have w2: "waitVariant run r (resumeVariantFromWait r ?t) = Some (0, ran r k2 p2 ?t)"
    and e2: "ps p2 = ExitStop"
    by simp_all
  show ?thesis
    using assms(4,5) fx w1 w2 e2 tr assms(2) x at
    by (simp add: execSyscall_newfstatat_def effect_simps master_done_def [symmetric])
qed

text \<open>The master's path is empty, the replica's is not.\<close>

lemma strnlen_nul [simp]: "b 0 = 0 \<Longrightarrow> strnlen b n = 0"
  by (cases n) (simp_all add: strnlen_def)

theorem newfstatat_runs_witness:
  "\<exists>s'. execSyscall_newfstatat (kernel 0 0) Vmaster Vreplica
      (pair_call SYS_newfstatat [3, 64, 256, 0, 0, 0] 0 [3, 128, 512, 0, 0, 0] 65) = Some (0, s') \<and>
     mem (proc_of s' Vreplica) 512 = Some 0 \<and> mem (proc_of s' Vreplica) 656 = Some 65"
  using newfstatat_runs [OF kernel_alternates [of 0 0] _ _ _ _ _ steps_kernel _ _ steps_kernel,
      of Vmaster Vreplica "pair_call SYS_newfstatat [3, 64, 256, 0, 0, 0] 0 [3, 128, 512, 0, 0, 0] 65"]
  by (auto simp: machine_simps)

end
