(* ===== verification/ReplyProps.thy ===== *)
theory ReplyProps
  imports Effects
begin

text \<open>
  The executors that let the replica make \<open>getpid\<close> before they copy the master's data and
  result to it: poll, getsockname and accept4, and set_tid_address, which both make.
  \<open>both_done\<close> is the state in which both have run.
\<close>

section \<open>Both variants have run\<close>

text \<open>
  Calls whose data is moved after the replica has run: the master runs its call, the replica
  \<open>getpid\<close>, both from the entry stops of a state that differs from \<open>s\<close> in buffers only.
\<close>

definition both_done :: "vptr \<Rightarrow> vptr \<Rightarrow> 'k \<Rightarrow> proc \<Rightarrow> 'k \<Rightarrow> proc \<Rightarrow> 'k mvee \<Rightarrow> 'k mvee" where
  "both_done m r k1 p1 k2 p2 s = ran r k2 p2 (setNopSyscall r (master_done m k1 p1 s))"

lemma both_done_sel [simp]:
  assumes "pids_ok s"
  shows "pids_ok (both_done m r k1 p1 k2 p2 s)" "world (both_done m r k1 p1 k2 p2 s) = k2"
    "proc_of (both_done m r k1 p1 k2 p2 s) w = (if w = r then p2 else if w = m then p1 else proc_of s w)"
    "r \<noteq> m \<Longrightarrow> vars (both_done m r k1 p1 k2 p2 s) w =
       (if w = r then (vars s r)\<lparr>state := VSTATE_RUNNING\<rparr>
        else if w = m then (vars s m)\<lparr>state := VSTATE_RUNNING, syscallInfo := get_syscall_info p1\<rparr>
        else vars s w)"
  using assms by (simp_all add: both_done_def)

lemma nop_wait:
  assumes "ptrace_alternates run" and "r \<noteq> m" and "pids_ok s" and "ps (proc_of s r) = EntryStop"
    and "steps_to run s r k1 (with_call SYS_getpid (proc_of s r)) k2 p2" and "\<not> is_dead (ps p2)"
  shows "waitVariant run r (resumeVariantFromWait r (setNopSyscall r (master_done m k1 p1 s))) =
      Some (0, both_done m r k1 p1 k2 p2 s)"
    and "ps p2 = ExitStop"
proof -
  let ?t = "setNopSyscall r (master_done m k1 p1 s)"
  have "steps_to run ?t r (world ?t) (proc_of ?t r) k2 p2"
    using assms(2-5) by (simp add: steps_to_def poke_stopped)
  from wait_exit [OF assms(1) _ _ this assms(6)] assms(2-4)
  show "waitVariant run r (resumeVariantFromWait r ?t) = Some (0, both_done m r k1 p1 k2 p2 s)"
    and "ps p2 = ExitStop"
    by (simp_all add: both_done_def)
qed

lemma transfer_both_done:
  assumes "pids_ok s" and "r \<noteq> m" and "ps p1 = ExitStop" and "ps p2 = ExitStop"
    and "movable p1 a p2 b n"
  shows "fst (transferVariantMem m a r b n (both_done m r k1 p1 k2 p2 s)) = 0"
    and "proc_of (snd (transferVariantMem m a r b n (both_done m r k1 p1 k2 p2 s))) w =
      (if w = r then patched p2 b (unat n) (bytes_at p1 a) else if w = m then p1 else proc_of s w)"
  using transfer_copies [of "both_done m r k1 p1 k2 p2 s" n m r a b] assms
  by (simp_all add: movable_def patched_def)

text \<open>The end of such a call: both variants go on, the call counted.\<close>

definition leave :: "vptr \<Rightarrow> vptr \<Rightarrow> 'k mvee \<Rightarrow> 'k mvee" where
  "leave m r s = resumeVariantFromExit r (resumeVariantFromExit m s)"

lemma leave_completes:
  assumes "pids_ok t" and "r \<noteq> m" and "ps (proc_of t m) = ExitStop" and "ps (proc_of t r) = ExitStop"
    and "\<And>v. num t v = num s v"
  shows "completed s (leave m r t) m (proc_of t m)" and "completed s (leave m r t) r (proc_of t r)"
    and "world (leave m r t) = world t"
  using assms by (simp_all add: leave_def effect_simps)

section \<open>poll, getsockname and accept4\<close>

text \<open>C22: An accepted \<open>poll\<close> is made by the master alone, the replica makes \<open>getpid\<close>; then the
  master's array of \<open>struct pollfd\<close>, whole, is copied over the replica's, whatever the result
  is, and the replica gets the master's 64-bit result.\<close>

theorem poll_runs:
  assumes "ptrace_alternates run" and "m \<noteq> r" and "at_entry s"
    and "agree [Same 1, Same 2, SameMem 0 (ArgTimes8 1)] s m r"
    and "steps_to run s m (world s) (proc_of s m) k1 p1" and "\<not> is_dead (ps p1)"
    and "steps_to run s r k1 (with_call SYS_getpid (proc_of s r)) k2 p2" and "\<not> is_dead (ps p2)"
    and "movable p1 (arg s m 0) p2 (arg s r 0) (arg s m 1 * 8)"
  shows "\<exists>s'. execSyscall_poll run m r s = Some (0, s') \<and> world s' = k2 \<and>
     completed s s' m p1 \<and> completed s s' r (with_rax (rax (regs p1))
       (patched p2 (arg s r 0) (unat (arg s m 1 * 8)) (bytes_at p1 (arg s m 0))))"
proof -
  note at = at_entry_two [OF assms(2,3)]
  define x where "x = snd (variantMemCmp m (arg s m 0) r (arg s r 0) (arg s m 1 * 8) s)"
  have x: "vars x = vars s" "pids_ok x" "world x = world s" "proc_of x v = proc_of s v" "arg x = arg s" for v
    using at(2) unfolding x_def by simp_all
  have "steps_to run x m (world x) (proc_of x m) k1 p1"
    using assms(5) x by (simp add: steps_to_def)
  note w1 = wait_exit [OF assms(1) x(2) _ this assms(6), unfolded x(4), OF at(3)]
  have "steps_to run x r k1 (with_call SYS_getpid (proc_of x r)) k2 p2"
    using assms(7) x by (simp add: steps_to_def)
  note w2 = nop_wait [OF assms(1) at(1) x(2) _ this assms(8), unfolded x(4), OF at(4)]
  note tr = transfer_both_done [OF x(2) at(1) w1(2) w2(2) assms(9)]
  have "fst (variantMemCmp m (arg s m 0) r (arg s r 0) (arg s m 1 * 8) s) = 0"
    using assms(4) by (auto simp: check_simps)
  moreover have "arg s r 1 = arg s m 1" "arg s r 2 = arg s m 2"
    using assms(4) by (simp_all add: agree_def holds_def)
  moreover define t where
    "t = snd (transferVariantMem m (arg s m 0) r (arg s r 0) (arg s m 1 * 8) (both_done m r k1 p1 k2 p2 x))"
  moreover have rv: "rval t m = rax (regs p1)"
    using x(2) at(1) w1(2) by (simp add: t_def rval_def exit_info_sel)
  ultimately have "execSyscall_poll run m r s = Some (0, leave m r (setSyscallReturnValue r (rax (regs p1)) t))"
    using w1(1) w2(1) tr(1) x(5)
    by (simp add: execSyscall_poll_def master_done_def [symmetric] x_def [symmetric] leave_def Let_def
        case_prod_beta del: One_nat_def)
  moreover have t: "pids_ok t" "world t = k2" "num t v = num s v"
      "proc_of t m = p1" "proc_of t r = patched p2 (arg s r 0) (unat (arg s m 1 * 8)) (bytes_at p1 (arg s m 0))" for v
    using x at(1) tr(2) by (simp_all add: t_def num_def)
  ultimately show ?thesis
    using leave_completes [OF _ at(1), of "setSyscallReturnValue r (rax (regs p1)) t" s] w1(2) w2(2) at(1)
    by (simp add: num_def poke_stopped)
qed

theorem poll_runs_witness:
  "\<exists>s'. execSyscall_poll (kernel 0 1) Vmaster Vreplica
      (pair_call SYS_poll [64, 2, 0, 0, 0, 0] 65 [128, 2, 0, 0, 0, 0] 65) = Some (0, s') \<and>
     rax (regs (proc_of s' Vreplica)) = 1 \<and> num s' Vreplica = 1"
  using poll_runs [OF kernel_alternates [of 0 1] _ _ _ steps_kernel _ steps_kernel,
      of Vmaster Vreplica "pair_call SYS_poll [64, 2, 0, 0, 0, 0] 65 [128, 2, 0, 0, 0, 0] 65"]
  by (auto simp: machine_simps)

lemma socklen_read:
  assumes "stopped (proc_of s v)" and "mapped (mem (proc_of s v)) a 8"
  shows "socklen_of (snd (readVariantMem v b a 4 s)) =
     zext32 (word_of_bytes (map (bytes_at (proc_of s v) a) [0..<8]))"
proof -
  have "map (\<lambda>i. read_byte (peekdata (proc_of s v)) a i) [0..<8] = map (bytes_at (proc_of s v) a) [0..<8]"
    using assms words8_small [of 8]
    by (intro map_cong) (simp_all add: read_byte_mapped [of _ _ 8] bytes_at_def)
  moreover have "local_load (snd (readVariantMem v b a 4 s)) 0 =
      word_of_bytes (map (\<lambda>i. read_byte (peekdata (proc_of s v)) a i) [0..<8])"
    unfolding local_load_def readVariantMem_def
    by (subst read_mem_eq) (auto simp: BUF_SIZE_def words8_small intro!: arg_cong [where f = word_of_bytes] map_cong)
  ultimately show ?thesis by (simp only: socklen_of_def)
qed

text \<open>C23: A \<open>getsockname\<close> with equal descriptors and equal stored lengths, in which neither
  variant dies, where the length \<open>n\<close> stored before the call is at most \<open>BUF_SIZE\<close> and less than 8
  or a multiple of 8 and the buffers are mapped, is made by the master alone, the replica makes
  \<open>getpid\<close>. If it succeeds, \<open>n\<close> bytes are copied from the master's buffer to the replica's; the
  length that the call stores in the master is not copied. The replica gets the master's result.
  For other \<open>n\<close>, such as 28, the last bytes of the copy come from a wrong place.\<close>

theorem getsockname_runs:
  assumes "ptrace_alternates run" and "m \<noteq> r" and "at_entry s"
    and "agree [Same 0, SameMem 2 (Const 4)] s m r"
    and "steps_to run s m (world s) (proc_of s m) k1 p1" and "\<not> is_dead (ps p1)"
    and "steps_to run s r k1 (with_call SYS_getpid (proc_of s r)) k2 p2" and "\<not> is_dead (ps p2)"
    and "mapped (mem (proc_of s m)) (arg s m 2) 8"
    and "n = zext32 (word_of_bytes (map (bytes_at (proc_of s m) (arg s m 2)) [0..<8]))"
    and "movable p1 (arg s m 1) p2 (arg s r 1) n"
  shows "\<exists>s'. execSyscall_getsockname run m r s = Some (0, s') \<and> world s' = k2 \<and>
     completed s s' m p1 \<and> completed s s' r (with_rax (rax (regs p1))
       (if rax (regs p1) = 0 then patched p2 (arg s r 1) (unat n) (bytes_at p1 (arg s m 1))
        else p2))"
proof -
  note at = at_entry_two [OF assms(2,3)]
  define x where "x = snd (variantMemCmp m (arg s m 2) r (arg s r 2) 4 s)"
  have x: "vars x = vars s" "pids_ok x" "world x = world s" "proc_of x v = proc_of s v" "arg x = arg s" for v
    using at(2) unfolding x_def by simp_all
  have "steps_to run x m (world x) (proc_of x m) k1 p1"
    using assms(5) x by (simp add: steps_to_def)
  note w1 = wait_exit [OF assms(1) x(2) _ this assms(6), unfolded x(4), OF at(3)]
  have "steps_to run x r k1 (with_call SYS_getpid (proc_of x r)) k2 p2"
    using assms(7) x by (simp add: steps_to_def)
  note w2 = nop_wait [OF assms(1) at(1) x(2) _ this assms(8), unfolded x(4), OF at(4)]
  define t where "t = setSyscallReturnValue r (rax (regs p1)) (both_done m r k1 p1 k2 p2 x)"
  have t: "pids_ok t" "world t = k2" "num t v = num s v" "proc_of t m = p1"
      "proc_of t r = with_rax (rax (regs p1)) p2" "rval t m = rax (regs p1)" for v
    using x at(1) w1(2) w2(2) by (simp_all add: t_def num_def rval_def poke_stopped exit_info_sel)
  define u where "u = snd (transferVariantMem m (arg s m 1) r (arg s r 1) n t)"
  have u: "pids_ok u" "world u = k2" "num u v = num s v" "proc_of u m = p1"
      "proc_of u r = with_rax (rax (regs p1)) (patched p2 (arg s r 1) (unat n) (bytes_at p1 (arg s m 1)))" for v
    using t transfer_copies(2) [of t n m r "arg s m 1" "arg s r 1"] assms(11) w1(2) w2(2) at(1)
    by (simp_all add: u_def num_def movable_def with_rax_def patched_def)
  have len: "socklen_of (snd (readVariantMem m (\<lambda>_. 0) (arg s m 2) 4 s)) = n"
    using socklen_read [OF _ assms(9)] assms(10) at(3) by simp
  have "fst (variantMemCmp m (arg s m 2) r (arg s r 2) 4 s) = 0" "arg s m 0 = arg s r 0"
    using assms(4) by (auto simp: check_simps)
  then have "execSyscall_getsockname run m r s =
      Some (0, leave m r (if rax (regs p1) = 0 then u else t))"
    using w1(1) w2(1) x(5) t(6) len
    by (simp add: execSyscall_getsockname_def master_done_def [symmetric] x_def [symmetric]
        leave_def u_def t_def Let_def case_prod_beta del: One_nat_def)
  then show ?thesis
    using leave_completes [OF _ at(1), of t s] leave_completes [OF _ at(1), of u s] t u w1(2) w2(2)
    by (cases "rax (regs p1) = 0") simp_all
qed

text \<open>Memory filled with one byte, but for a length of 16 at an address.\<close>

definition sock_mem :: "word64 \<Rightarrow> byte \<Rightarrow> word64 \<Rightarrow> byte option" where
  "sock_mem a b x = Some (if unat (x - a) = 0 then 16 else if unat (x - a) < 8 then 0 else b)"

lemma sock_mem_at: "i < 8 \<Longrightarrow> sock_mem a b (a + of_nat i) = Some (if i = 0 then 16 else 0)"
  by (simp add: sock_mem_def unat_of_nat)

lemma mapped_sock_mem [simp]: "mapped (sock_mem a b) x n"
  by (simp add: mapped_def sock_mem_def)

lemma vbyte_sock_mem:
  "stopped (proc_of s v) \<Longrightarrow> mem (proc_of s v) = sock_mem a b \<Longrightarrow> i < 8 \<Longrightarrow>
   vbyte s v a i = (if i = 0 then 16 else 0)"
  using read_byte_mapped [of "proc_of s v" a 8 i] sock_mem_at [of i a b] by (simp add: vbyte_def)

theorem getsockname_runs_witness:
  "\<exists>s'. execSyscall_getsockname (kernel 0 0) Vmaster Vreplica
      (scene (image EntryStop SYS_getsockname [3, 64, 256, 0, 0, 0] (sock_mem 256 7))
         (image EntryStop SYS_getsockname [3, 128, 512, 0, 0, 0] (sock_mem 512 9)) 1 0) = Some (0, s') \<and>
     mem (proc_of s' Vreplica) 130 = Some 7 \<and> mem (proc_of s' Vreplica) 144 = Some 9"
proof -
  let ?m = "image EntryStop SYS_getsockname [3, 64, 256, 0, 0, 0] (sock_mem 256 7)"
  let ?s = "scene ?m (image EntryStop SYS_getsockname [3, 128, 512, 0, 0, 0] (sock_mem 512 9)) 1 0"
  have "map (bytes_at ?m 256) [0..<8] = map (\<lambda>i. if i = 0 then 16 else 0) [0..<8]"
    using sock_mem_at [of _ 256 7] by (intro map_cong) (simp_all add: bytes_at_def)
  then have len: "zext32 (word_of_bytes (map (bytes_at (proc_of ?s Vmaster) (arg ?s Vmaster 2)) [0..<8])) = 16"
    by (simp add: zext32_def upt_rec)
  have "agree [Same 0, SameMem 2 (Const 4)] ?s Vmaster Vreplica"
    by (auto simp: agree_def holds_def buf_size_def BUF_SIZE_def vbyte_sock_mem)
  moreover have "at_entry ?s"
    by (simp add: at_entry_def split: vptr.splits)
  ultimately show ?thesis
    using getsockname_runs [OF kernel_alternates [of 0 0] _ _ _ steps_kernel _ steps_kernel _ _ len [symmetric], where r = Vreplica]
    by (auto simp: completed_def movable_def whole_words_def BUF_SIZE_def patched_def overwrite_def
        with_rax_def with_call_def bytes_at_def sock_mem_def)
qed

text \<open>C24: An \<open>accept4\<close> with equal descriptors, flags and stored lengths, in which neither variant
  dies, is made by the master alone, the replica makes \<open>getpid\<close>. If the master asks for the
  address of the peer, the length \<open>n\<close> that the kernel has stored in the master is at most
  \<open>BUF_SIZE\<close> and less than 8 or a multiple of 8, and the buffers are mapped, \<open>n\<close> bytes of the
  address are copied to the replica, whatever the result of the call; that length is not copied.
  The replica gets the master's 64-bit result, so the descriptor of the connection. For other
  \<open>n\<close>, such as 28, the last bytes of the copy come from a wrong place.\<close>

theorem accept4_runs:
  assumes "ptrace_alternates run" and "m \<noteq> r" and "at_entry s"
    and "agree [Same 0, Same 3, SameMem 2 (Const 4)] s m r"
    and "steps_to run s m (world s) (proc_of s m) k1 p1" and "\<not> is_dead (ps p1)"
    and "steps_to run s r k1 (with_call SYS_getpid (proc_of s r)) k2 p2" and "\<not> is_dead (ps p2)"
    and "n = zext32 (word_of_bytes (map (bytes_at p1 (arg s m 2)) [0..<8]))"
    and "arg s m 1 \<noteq> 0 \<Longrightarrow> mapped (mem p1) (arg s m 2) 8 \<and> movable p1 (arg s m 1) p2 (arg s r 1) n"
  shows "\<exists>s'. execSyscall_accept4 run m r s = Some (0, s') \<and> world s' = k2 \<and>
     completed s s' m p1 \<and> completed s s' r (with_rax (rax (regs p1))
       (if arg s m 1 = 0 then p2 else patched p2 (arg s r 1) (unat n) (bytes_at p1 (arg s m 1))))"
proof -
  note at = at_entry_two [OF assms(2,3)]
  define x where "x = snd (variantMemCmp m (arg s m 2) r (arg s r 2) 4 s)"
  have x: "vars x = vars s" "pids_ok x" "world x = world s" "proc_of x v = proc_of s v" "arg x = arg s" for v
    using at(2) unfolding x_def by simp_all
  have "steps_to run x m (world x) (proc_of x m) k1 p1"
    using assms(5) x by (simp add: steps_to_def)
  note w1 = wait_exit [OF assms(1) x(2) _ this assms(6), unfolded x(4), OF at(3)]
  have "steps_to run x r k1 (with_call SYS_getpid (proc_of x r)) k2 p2"
    using assms(7) x by (simp add: steps_to_def)
  note w2 = nop_wait [OF assms(1) at(1) x(2) _ this assms(8), unfolded x(4), OF at(4)]
  define t where "t = both_done m r k1 p1 k2 p2 x"
  have t: "pids_ok t" "world t = k2" "num t v = num s v" "proc_of t m = p1" "proc_of t r = p2"
      "rval t m = rax (regs p1)" for v
    using x at(1) w1(2) w2(2) by (simp_all add: t_def num_def rval_def exit_info_sel)
  have tr: "proc_of (snd (transferVariantMem m (arg s m 1) r (arg s r 1) n t)) w =
      (if w = r then patched p2 (arg s r 1) (unat n) (bytes_at p1 (arg s m 1)) else if w = m then p1 else proc_of x w)"
    if "arg s m 1 \<noteq> 0" for w
    unfolding t_def using assms(10) that by (intro transfer_both_done(2) [OF x(2) at(1) w1(2) w2(2)]) simp
  define u where "u = (if arg s m 1 \<noteq> 0 then snd (transferVariantMem m (arg s m 1) r (arg s r 1) n t) else t)"
  have u: "pids_ok u" "world u = k2" "num u v = num s v" "proc_of u m = p1" "rval u m = rax (regs p1)"
      "proc_of u r = (if arg s m 1 = 0 then p2 else patched p2 (arg s r 1) (unat n) (bytes_at p1 (arg s m 1)))" for v
    using t tr at(1) by (simp_all add: u_def num_def)
  have len: "socklen_of (snd (readVariantMem m (\<lambda>_. 0) (arg s m 2) 4 t)) = n" if "arg s m 1 \<noteq> 0"
    using socklen_read [of t m "arg s m 2"] assms(9,10) that t(4) w1(2) by simp
  have "fst (variantMemCmp m (arg s m 2) r (arg s r 2) 4 s) = 0" "arg s m 0 = arg s r 0" "arg s m 3 = arg s r 3"
    using assms(4) by (auto simp: check_simps)
  then have "execSyscall_accept4 run m r s = Some (0, leave m r (setSyscallReturnValue r (rax (regs p1)) u))"
    using w1(1) w2(1) x(5) t(6) len
    by (simp add: execSyscall_accept4_def master_done_def [symmetric] x_def [symmetric] t_def [symmetric]
        leave_def u_def Let_def case_prod_beta del: One_nat_def)
  then show ?thesis
    using leave_completes [OF _ at(1), of "setSyscallReturnValue r (rax (regs p1)) u" s] u w1(2) w2(2) at(1)
    by (simp add: num_def poke_stopped)
qed

theorem accept4_runs_witness:
  "\<exists>s'. execSyscall_accept4 (kernel 0 5) Vmaster Vreplica
      (scene (image EntryStop SYS_accept4 [3, 64, 256, 0, 0, 0] (sock_mem 256 7))
         (image EntryStop SYS_accept4 [3, 128, 512, 0, 0, 0] (sock_mem 512 9)) 1 0) = Some (0, s') \<and>
     rax (regs (proc_of s' Vreplica)) = 5 \<and>
     mem (proc_of s' Vreplica) 130 = Some 7 \<and> mem (proc_of s' Vreplica) 144 = Some 9"
proof -
  let ?m = "image EntryStop SYS_accept4 [3, 64, 256, 0, 0, 0] (sock_mem 256 7)"
  let ?s = "scene ?m (image EntryStop SYS_accept4 [3, 128, 512, 0, 0, 0] (sock_mem 512 9)) 1 0"
  let ?p = "with_rax 5 (?m\<lparr>ps := ExitStop\<rparr>)"
  have "map (bytes_at ?p 256) [0..<8] = map (\<lambda>i. if i = 0 then 16 else 0) [0..<8]"
    using sock_mem_at [of _ 256 7] by (intro map_cong) (simp_all add: bytes_at_def)
  then have len: "zext32 (word_of_bytes (map (bytes_at ?p (arg ?s Vmaster 2)) [0..<8])) = 16"
    by (simp add: zext32_def upt_rec)
  have "agree [Same 0, Same 3, SameMem 2 (Const 4)] ?s Vmaster Vreplica"
    by (auto simp: agree_def holds_def buf_size_def BUF_SIZE_def vbyte_sock_mem)
  moreover have "at_entry ?s"
    by (simp add: at_entry_def split: vptr.splits)
  moreover have "steps_to (kernel 0 5) ?s Vmaster (world ?s) (proc_of ?s Vmaster) () ?p"
    by (simp add: steps_kernel [of 0 5, simplified])
  ultimately show ?thesis
    using accept4_runs [OF kernel_alternates [of 0 5] _ _ _ _ _ steps_kernel _ len [symmetric], where r = Vreplica]
    by (auto simp: completed_def movable_def whole_words_def BUF_SIZE_def patched_def overwrite_def
        with_rax_def with_call_def bytes_at_def sock_mem_def)
qed

section \<open>set_tid_address\<close>

text \<open>
  \<open>set_tid_address\<close> is made by both variants, each with its own result, and checks nothing;
  afterwards four bytes from the master's pointer are copied to the replica's.
\<close>

lemma setTidAddress_runs:
  assumes "ptrace_alternates run" and "m \<noteq> r" and "at_entry s"
    and "steps_to run s m (world s) (proc_of s m) k1 p1" and "\<not> is_dead (ps p1)"
    and "steps_to run s r k1 (proc_of s r) k2 p2" and "\<not> is_dead (ps p2)"
    and "mapped (mem p1) (arg s m 0) 8" and "mapped (mem p2) (arg s r 0) 8"
  shows "\<exists>s'. execSyscall_setTidAddress run m r s = Some (0, s') \<and> world s' = k2 \<and>
     completed s s' m p1 \<and> completed s s' r (patched p2 (arg s r 0) 4 (bytes_at p1 (arg s m 0)))"
proof -
  note at = at_entry_two [OF assms(2,3)]
  note w1 = wait_exit [OF assms(1) at(2,3) assms(4,5)]
  let ?t = "ran m k1 p1 s"
  have "steps_to run ?t r (world ?t) (proc_of ?t r) k2 p2"
    using assms(6) at(1,2) by (simp add: steps_to_def)
  from wait_exit [OF assms(1) _ _ this assms(7)] at(1,2,4)
  have w2: "waitVariant run r (resumeVariantFromWait r ?t) = Some (0, ran r k2 p2 ?t)" "ps p2 = ExitStop"
    by simp_all
  define t where "t = ran r k2 p2 ?t"
  have t: "pids_ok t" "world t = k2" "num t v = num s v" "proc_of t m = p1" "proc_of t r = p2" for v
    using at(1,2) by (simp_all add: t_def num_def)
  define b where "b = snd (readVariantMem m (\<lambda>_. 0) (arg s m 0) 4 t)"
  have "b i = bytes_at p1 (arg s m 0) i" if "i < 4" for i
    using that t(4) w1(2) assms(8) read_byte_mapped [of p1 "arg s m 0" 4 i]
    by (simp add: b_def readVariantMem_def read_mem_eq BUF_SIZE_def words8_small bytes_at_def)
  then have patch: "overwrite (mem p2) (arg s r 0) 4 (written b 4) =
      overwrite (mem p2) (arg s r 0) 4 (bytes_at p1 (arg s m 0))"
    by (intro overwrite_cong) (simp add: written_whole whole_words_def)
  define u where "u = snd (writeVariantMem r b (arg s r 0) 4 t)"
  have u: "pids_ok u" "world u = k2" "num u v = num s v" "proc_of u m = p1"
      "proc_of u r = patched p2 (arg s r 0) 4 (bytes_at p1 (arg s m 0))" for v
    using t at(1) w2(2) assms(9) patch
    by (simp_all add: u_def num_def write_proc_eq patched_def)
  have "execSyscall_setTidAddress run m r s = Some (0, leave m r u)"
    using w1(1) w2(1)
    by (simp add: execSyscall_setTidAddress_def leave_def u_def b_def t_def Let_def case_prod_beta)
  then show ?thesis
    using leave_completes [OF u(1) at(1), of s] u w1(2) w2(2) by simp
qed

end
