(* ===== verification/SpaceProps.thy ===== *)
theory SpaceProps
  imports Effects
begin

text \<open>
  The address space: the list of mappings as an abstract data type, the rule of
  \<open>checkMMapPerms\<close>, and what the executors of mmap, mprotect and munmap make of them.
\<close>

section \<open>Sequences of list operations\<close>

datatype map_op = Add word64 word64 word32 word32 | Remove word64

fun run_op :: "map_op \<Rightarrow> mapheap \<Rightarrow> (int \<times> mapheap) option" where
  "run_op (Add a l p f) mh = map_option (Pair 0) (addMapping a l p f mh)"
| "run_op (Remove a) mh = removeMapping a mh"

fun run_ops :: "map_op list \<Rightarrow> mapheap \<Rightarrow> (int list \<times> mapheap) option" where
  "run_ops [] mh = Some ([], mh)"
| "run_ops (x # xs) mh = do {
     (r, mh) \<leftarrow> run_op x mh;
     (rs, mh) \<leftarrow> run_ops xs mh;
     Some (r # rs, mh)
   }"

text \<open>The same on lists of entries.\<close>

fun list_op :: "map_op \<Rightarrow> variantMMap list \<Rightarrow> int \<times> variantMMap list" where
  "list_op (Add a l p f) es = (0, es @ [\<lparr>addr = a, len = l, prot = p, flags = f\<rparr>])"
| "list_op (Remove a) es = (if a \<in> addr ` set es then 0 else - 1, delete_first a es)"

fun list_ops :: "map_op list \<Rightarrow> variantMMap list \<Rightarrow> int list \<times> variantMMap list" where
  "list_ops [] es = ([], es)"
| "list_ops (x # xs) es =
     (let (r, es) = list_op x es; (rs, es) = list_ops xs es in (r # rs, es))"

lemma run_op_rep:
  "maps_rep mh es \<Longrightarrow>
   \<exists>mh'. run_op x mh = Some (fst (list_op x es), mh') \<and> maps_rep mh' (snd (list_op x es))"
proof (cases x)
  case (Add a l p f)
  moreover assume "maps_rep mh es"
  ultimately show ?thesis using maps.add_rep [of mh es a l p f] by auto
next
  case (Remove a)
  moreover assume "maps_rep mh es"
  ultimately show ?thesis using maps.remove_rep [of mh es a] by auto
qed

lemma run_ops_rep:
  "maps_rep mh es \<Longrightarrow>
   \<exists>mh'. run_ops xs mh = Some (fst (list_ops xs es), mh') \<and> maps_rep mh' (snd (list_ops xs es))"
proof (induction xs arbitrary: mh es)
  case (Cons x xs)
  obtain mh1 where mh1: "run_op x mh = Some (fst (list_op x es), mh1)"
      "maps_rep mh1 (snd (list_op x es))"
    using run_op_rep [OF Cons.prems] by blast
  from Cons.IH [OF mh1(2)] mh1(1) show ?case
    by (auto simp: case_prod_beta)
qed simp

lemma findMapping_find:
  "maps_rep mh es \<Longrightarrow>
   \<exists>c. findMapping t mh = Some c \<and> Option.bind c (entry_at mh) = List.find (\<lambda>e. covers e t) es"
  by (cases "List.find (\<lambda>e. covers e t) es")
    (use maps.search_missing maps.search_found in fastforce)+

lemma with_mmaps [simp]:
  "arg (s\<lparr>mmaps := mh\<rparr>) = arg s" "at_entry (s\<lparr>mmaps := mh\<rparr>) = at_entry s"
  by (simp_all add: arg_def at_entry_def fun_eq_iff)

text \<open>The list after a shared mapping has been recorded, for the concrete runs.\<close>

lemma one_shared:
  "\<exists>mh. addMapping 4096 0 1 1 initial_heap = Some mh \<and>
        maps_rep mh [\<lparr>addr = 4096, len = 0, prot = 1, flags = 1\<rparr>]"
  using addMapping_rep [OF initial_heap_rep, of 4096 0 1 1] by simp

text \<open>C25: Starting from the empty list, every sequence of \<open>addMapping\<close> and \<open>removeMapping\<close>
  calls terminates without following a dangling pointer, returns the result codes and leaves
  the doubly linked list that the operations on a list of entries give; a following
  \<open>findMapping\<close> returns a pointer to the first entry that covers the address, or NULL, and
  \<open>printMappings\<close> prints the entries in order, numbered from 0.\<close>

theorem mappings_refine_list:
  "\<exists>mh. run_ops ops initial_heap = Some (fst (list_ops ops []), mh) \<and>
        maps_rep mh (snd (list_ops ops [])) \<and>
        (\<forall>t. \<exists>c. findMapping t mh = Some c \<and>
              Option.bind c (entry_at mh) = List.find (\<lambda>e. covers e t) (snd (list_ops ops []))) \<and>
        printMappings mh = Some (enumerate 0 (snd (list_ops ops [])))"
proof -
  obtain mh where "run_ops ops initial_heap = Some (fst (list_ops ops []), mh)"
      "maps_rep mh (snd (list_ops ops []))"
    using run_ops_rep [OF initial_heap_rep] by blast
  then show ?thesis using findMapping_find maps.print_rep by blast
qed

section \<open>The executors\<close>

lemma and_two_bit: "(w :: word32) AND 2 \<noteq> 0 \<longleftrightarrow> bit w 1"
proof -
  have "w AND 2 = (if bit w 1 then 2 else 0)"
    by (rule bit_word_eqI) (auto simp: bit_simps bit_2_iff)
  then show ?thesis by simp
qed

text \<open>\<open>checkMMapPerms\<close> refuses exactly the writable mappings that are not private
  (bit 1 of the protection is \<open>PROT_WRITE\<close>, bit 1 of the flags is \<open>MAP_PRIVATE\<close>).\<close>

lemma checkMMapPerms_exact:
  "checkMMapPerms pr fl = (if bit pr 1 \<and> \<not> bit fl 1 then - 1 else 0)"
  by (simp add: checkMMapPerms_def and_two_bit del: One_nat_def)

lemma mmap_rule:
  "checkMMapPerms (ucast (arg s m 2)) (ucast (arg s m 3)) \<noteq> 0 \<longleftrightarrow>
   bit (arg s m 2) 1 \<and> \<not> bit (arg s m 3) 1"
  by (simp add: checkMMapPerms_exact bit_ucast_iff del: One_nat_def)

text \<open>C30: An mmap with agreeing arguments is refused, before either variant is touched, if it
  is for memory that is writable (bit 1 of the protection) and not private (bit 1 of the
  flags), and fails if the master dies in it. Otherwise it runs to its end in the master, then
  the replica is let into the call, and the mapping is recorded at the master's result with
  the protection and the flags of the call but with length 0, not the length asked for:
  \<open>entry.args[1]\<close> is read after the struct has been overwritten with the exit information.\<close>

theorem mmap_result:
  assumes "ptrace_alternates run" and "m \<noteq> r" and "at_entry s" and "maps_rep (mmaps s) es"
    and "agree [Same 1, SameInt 2, SameInt 3, Same 4, Same 5] s m r"
    and "steps_to run s m (world s) (proc_of s m) k1 p1"
  shows "\<exists>x s'. execSyscall_mmap run m r s = Some (x, s') \<and>
     (if bit (arg s m 2) 1 \<and> \<not> bit (arg s m 3) 1 then x = - 1 \<and> s' = s
      else if is_dead (ps p1) then x = - 1 \<and> world s' = k1 \<and> proc_of s' r = proc_of s r \<and>
        mmaps s' = mmaps s
      else x = 0 \<and> world s' = k1 \<and> completed s s' m p1 \<and>
        proc_of s' r = (proc_of s r)\<lparr>ps := InSyscall\<rparr> \<and>
        maps_rep (mmaps s') (es @ [\<lparr>addr = rax (regs p1), len = 0,
          prot = ucast (arg s m 2), flags = ucast (arg s m 3)\<rparr>]))"
proof -
  note at = at_entry_two [OF assms(2,3)]
  note perms = mmap_rule [of s m]
  show ?thesis
  proof (cases "bit (arg s m 2) 1 \<and> \<not> bit (arg s m 3) 1")
    case True
    then show ?thesis
      using assms(5) perms by (simp add: execSyscall_mmap_def check_simps del: One_nat_def)
  next
    case allowed: False
    show ?thesis
    proof (cases "is_dead (ps p1)")
      case True
      then show ?thesis
        using allowed perms assms(5) at wait_steps [OF assms(1) at(2,3) assms(6)]
        by (auto simp: execSyscall_mmap_def check_simps simp del: One_nat_def)
    next
      case False
      note w1 = wait_exit [OF assms(1) at(2,3) assms(6) False]
      obtain mh where mh: "addMapping (rax (regs p1)) 0 (ucast (arg s m 2)) (ucast (arg s m 3)) (mmaps s) = Some mh"
        "maps_rep mh (es @ [\<lparr>addr = rax (regs p1), len = 0,
           prot = ucast (arg s m 2), flags = ucast (arg s m 3)\<rparr>])"
        using maps.add_rep [OF assms(4)] by blast
      have l: "arg (resumeVariantFromExit m (master_done m k1 p1 s)) m (Suc 0) = 0"
        using at(2) exit_info_sel(3) [OF w1(2), of 1] by (simp add: arg_def)
      have "execSyscall_mmap run m r s = Some (0, resumeVariantFromWait r
          ((resumeVariantFromExit m (master_done m k1 p1 s))\<lparr>mmaps := mh\<rparr>))"
        using allowed perms assms(2,5) w1(1) at mh(1) l w1(2)
        by (simp add: execSyscall_mmap_def master_done_def [symmetric] check_simps)
      then show ?thesis
        using allowed False w1(2) assms(2) at mh(2) by (simp add: effect_simps)
    qed
  qed
qed

theorem mmap_result_witness:
  "(\<exists>s'. execSyscall_mmap (kernel 0 4096) Vmaster Vreplica
      (pair_call SYS_mmap [0, 8192, 1, 1, 5, 0] 0 [0, 8192, 1, 1, 5, 0] 0) = Some (0, s') \<and>
     maps_rep (mmaps s') [\<lparr>addr = 4096, len = 0, prot = 1, flags = 1\<rparr>]) \<and>
   (\<exists>s'. execSyscall_mmap (kernel 0 4096) Vmaster Vreplica
      (pair_call SYS_mmap [0, 8192, 3, 1, 5, 0] 0 [0, 8192, 3, 1, 5, 0] 0) = Some (- 1, s'))"
  using mmap_result [OF kernel_alternates [of 0 4096] _ _ _ _ steps_kernel,
      of Vmaster Vreplica "pair_call SYS_mmap [0, 8192, 1, 1, 5, 0] 0 [0, 8192, 1, 1, 5, 0] 0" "[]"]
    mmap_result [OF kernel_alternates [of 0 4096] _ _ _ _ steps_kernel,
      of Vmaster Vreplica "pair_call SYS_mmap [0, 8192, 3, 1, 5, 0] 0 [0, 8192, 3, 1, 5, 0] 0" "[]"]
  by (auto simp: machine_simps initial_heap_rep bit_numeral_rec)

text \<open>C31: At the entry stops of an mprotect, with a well-formed list of mappings: if the
  lengths are equal, the replica's protection is the master's as an int, and the first recorded
  mapping that covers the master's address, if there is one, is private or the new protection
  not writable, both variants are let into the call. In every other case it is refused and nothing changes.
  The list is never changed.\<close>

theorem mprotect_result:
  assumes "m \<noteq> r" and "at_entry s" and "maps_rep (mmaps s) es"
  shows "\<exists>x s'. execSyscall_mprotect run m r s = Some (x, s') \<and> mmaps s' = mmaps s \<and>
     (if agree [Same 1, SameInt 2] s m r \<and>
         (\<forall>e. List.find (\<lambda>e. covers e (arg s m 0)) es = Some e \<longrightarrow>
            checkMMapPerms (ucast (arg s m 2)) (flags e) = 0)
      then x = 0 \<and> resumed_both s s' else x = - 1 \<and> s' = s)"
proof (cases "List.find (\<lambda>e. covers e (arg s m 0)) es")
  case None
  with maps.search_missing [OF assms(3) None] assms resume_both_resumed [OF assms(1,2)]
  show ?thesis
    by (auto simp: execSyscall_mprotect_def check_simps resume_both_def)
next
  case (Some e)
  obtain c where "findMapping (arg s m 0) (mmaps s) = Some (Some c)" "entry_at (mmaps s) c = Some e"
    using maps.search_found [OF assms(3) Some] by blast
  with Some assms resume_both_resumed [OF assms(1,2)] show ?thesis
    by (auto simp: execSyscall_mprotect_def check_simps resume_both_def)
qed

theorem mprotect_result_witness:
  "\<exists>mh. addMapping 4096 0 1 1 initial_heap = Some mh \<and>
     (let s = pair_call SYS_mprotect [4096, 8192, 3, 0, 0, 0] 0 [4096, 8192, 3, 0, 0, 0] 0
      in execSyscall_mprotect (kernel 0 0) Vmaster Vreplica (s\<lparr>mmaps := mh\<rparr>) =
         Some (- 1, s\<lparr>mmaps := mh\<rparr>))"
proof -
  let ?s = "pair_call SYS_mprotect [4096, 8192, 3, 0, 0, 0] 0 [4096, 8192, 3, 0, 0, 0] 0"
  obtain mh where mh: "addMapping 4096 0 1 1 initial_heap = Some mh"
      "maps_rep mh [\<lparr>addr = 4096, len = 0, prot = 1, flags = 1\<rparr>]"
    using one_shared by blast
  from mprotect_result [of Vmaster Vreplica "?s\<lparr>mmaps := mh\<rparr>"
      "[\<lparr>addr = 4096, len = 0, prot = 1, flags = 1\<rparr>]" "kernel 0 0"] mh show ?thesis
    by (auto simp: machine_simps covers_def checkMMapPerms_def)
qed

text \<open>As mmap records length 0, a mapping is protected at its first address only: with
  entries of length 0, an mprotect of any address that is not the start of one is let through
  with any protection, also inside a shared mapping.\<close>

lemma mprotect_inside_unchecked:
  assumes "m \<noteq> r" and "at_entry s" and "maps_rep (mmaps s) es"
    and "\<forall>e \<in> set es. len e = 0 \<and> addr e \<noteq> arg s m 0"
    and "agree [Same 1, SameInt 2] s m r"
  shows "\<exists>s'. execSyscall_mprotect run m r s = Some (0, s') \<and> resumed_both s s'"
proof -
  have "List.find (\<lambda>e. covers e (arg s m 0)) es = None"
    using assms(4) by (auto simp: find_None_iff covers_def)
  from maps.search_missing [OF assms(3) this] assms resume_both_resumed [OF assms(1,2)]
  show ?thesis
    by (auto simp: execSyscall_mprotect_def check_simps resume_both_def)
qed

text \<open>C32: At the entry stops of an munmap, with a well-formed list of mappings: if the lengths
  are equal and the first recorded mapping that covers the master's address starts there, both
  variants are let into the call and that entry is removed. In every other case, also when no
  mapping is found, it is refused and nothing changes.\<close>

theorem munmap_result:
  assumes "m \<noteq> r" and "at_entry s" and "maps_rep (mmaps s) es"
  shows "\<exists>x s'. execSyscall_munmap run m r s = Some (x, s') \<and>
     (if agree [Same 1] s m r \<and>
         (\<exists>e. List.find (\<lambda>e. covers e (arg s m 0)) es = Some e \<and> addr e = arg s m 0)
      then x = 0 \<and> resumed_both s s' \<and> maps_rep (mmaps s') (delete_first (arg s m 0) es)
      else x = - 1 \<and> s' = s)"
proof (cases "List.find (\<lambda>e. covers e (arg s m 0)) es")
  case None
  with maps.search_missing [OF assms(3) None] assms show ?thesis
    by (auto simp: execSyscall_munmap_def check_simps maps.print_rep)
next
  case (Some e)
  obtain c where c: "findMapping (arg s m 0) (mmaps s) = Some (Some c)" "entry_at (mmaps s) c = Some e"
    using maps.search_found [OF assms(3) Some] by blast
  obtain x mh where mh: "removeMapping (arg s m 0) (mmaps s) = Some (x, mh)"
      "maps_rep mh (delete_first (arg s m 0) es)"
    using maps.remove_rep [OF assms(3)] by blast
  have "at_entry (s\<lparr>mmaps := mh\<rparr>)"
    using assms(2) by (simp add: at_entry_def)
  from resume_both_resumed [OF assms(1) this]
  have "resumed_both s (resume_both m r (s\<lparr>mmaps := mh\<rparr>))"
    by (simp add: resumed_both_def num_def)
  with c mh Some assms show ?thesis
    by (cases "addr e = arg s m 0")
      (auto simp: execSyscall_munmap_def check_simps maps.print_rep resume_both_def)
qed

theorem munmap_result_witness:
  "\<exists>mh s'. addMapping 4096 0 1 1 initial_heap = Some mh \<and>
     execSyscall_munmap (kernel 0 0) Vmaster Vreplica
       ((pair_call SYS_munmap [4096, 8192, 0, 0, 0, 0] 0 [4096, 8192, 0, 0, 0, 0] 0)\<lparr>mmaps := mh\<rparr>) =
     Some (0, s') \<and> maps_rep (mmaps s') []"
proof -
  let ?s = "pair_call SYS_munmap [4096, 8192, 0, 0, 0, 0] 0 [4096, 8192, 0, 0, 0, 0] 0"
  obtain mh where mh: "addMapping 4096 0 1 1 initial_heap = Some mh"
      "maps_rep mh [\<lparr>addr = 4096, len = 0, prot = 1, flags = 1\<rparr>]"
    using one_shared by blast
  from munmap_result [of Vmaster Vreplica "?s\<lparr>mmaps := mh\<rparr>"
      "[\<lparr>addr = 4096, len = 0, prot = 1, flags = 1\<rparr>]" "kernel 0 0"] mh show ?thesis
    by (auto simp: machine_simps covers_def)
qed

end
