(* ===== verification/MemoryProps.thy ===== *)
theory MemoryProps
  imports Effects
begin

text \<open>
  The memory operations of \<open>variant.c\<close> in terms of the memory of the processes: what is
  read, written, copied and compared, and where the code differs from its comments.
\<close>

section \<open>Reading and writing\<close>

lemma words8_idem [simp]: "words8 (words8 n) = words8 n"
proof -
  obtain k where "words8 n = 8 * k" by (simp add: words8_def)
  then show ?thesis by (simp add: words8_def)
qed

lemma vbyte_mapped:
  "stopped (proc_of s v) \<Longrightarrow> mapped (mem (proc_of s v)) a (words8 n) \<Longrightarrow> i < words8 n \<Longrightarrow>
   vbyte s v a i = bytes_at (proc_of s v) a i"
  unfolding vbyte_def bytes_at_def by (rule read_byte_mapped [of _ _ "words8 n"]) simp_all

text \<open>C29: Reading a mapped buffer of a stopped variant returns the size and puts the variant's
  bytes into the local buffer, rounded up to whole longs: the local buffer must be up to seven
  bytes larger than the size asked for (the callers that read into an \<open>int\<close> or a
  \<open>socklen_t\<close> pass one of four bytes). A size above \<open>BUF_SIZE\<close> is refused with -1.\<close>

theorem readVariantMem_reads:
  assumes "stopped (proc_of s v)" and "mapped (mem (proc_of s v)) a (words8 (unat sz))"
  shows "readVariantMem v b a sz s =
     (if sz > BUF_SIZE then (- 1, b)
      else (sz, \<lambda>i. if i < words8 (unat sz) then bytes_at (proc_of s v) a i else b i))"
proof (cases "sz > BUF_SIZE")
  case False
  have "\<And>i. i < words8 (unat sz) \<Longrightarrow>
      read_byte (peekdata (proc_of s v)) a i = bytes_at (proc_of s v) a i"
    using vbyte_mapped [OF assms] by (simp add: vbyte_def)
  with False show ?thesis
    by (auto simp: readVariantMem_def read_mem_eq not_less fun_eq_iff)
qed (simp add: readVariantMem_def read_mem_def)

theorem readVariantMem_reads_witness:
  "snd (readVariantMem Vmaster (\<lambda>_. 0) 64 4 (pair_call SYS_getsockname no_args 7 no_args 0)) 7 = 7"
proof -
  have "readVariantMem Vmaster (\<lambda>_. 0) 64 4 (pair_call SYS_getsockname no_args 7 no_args 0) =
      (4, \<lambda>i. if i < 8 then 7 else 0)"
    using readVariantMem_reads [of "pair_call SYS_getsockname no_args 7 no_args 0" Vmaster 64 4 "\<lambda>_. 0"]
    by (simp add: BUF_SIZE_def words8_small cong: if_cong)
  then show ?thesis by simp
qed

text \<open>Writing to a mapped buffer of a stopped variant returns the size, changes exactly the
  bytes of the buffer, and changes no other variant and no register.\<close>

lemma writeVariantMem_writes:
  assumes "pids_ok s" and "stopped (proc_of s v)"
    and "mapped (mem (proc_of s v)) a (max 8 (unat sz))" and "unat sz < 2 ^ 63"
  shows "\<exists>s'. writeVariantMem v b a sz s = (sz, s') \<and>
     proc_of s' v = patched (proc_of s v) a (unat sz) (written b (unat sz)) \<and>
     (\<forall>w. w \<noteq> v \<longrightarrow> proc_of s' w = proc_of s w) \<and> vars s' = vars s"
  using write_proc_eq [OF assms(2-4)] assms(1) by (simp add: writeVariantMem_def patched_def)

text \<open>C34: A write longer than a long and not a multiple of it takes its last eight bytes from
  the wrong place: byte \<open>d\<close> of them is byte \<open>8 * (n - 8) + (d - (n - 8))\<close> of the local
  buffer, since \<open>((long *) localBuf)[size - sizeof(long)]\<close> scales the index by 8.\<close>

theorem writeVariantMem_tail:
  assumes "pids_ok s" and "stopped (proc_of s v)"
    and "mapped (mem (proc_of s v)) a n" and "unat sz = n" and "n < 2 ^ 63"
    and "8 < n" and "n mod 8 \<noteq> 0" and "n - 8 \<le> d" and "d < n"
  shows "mem (proc_of (snd (writeVariantMem v b a sz s)) v) (a + of_nat d) =
     Some (b (8 * (n - 8) + (d - (n - 8))))"
proof -
  have "mapped (mem (proc_of s v)) a (max 8 (unat sz))" "unat sz < 2 ^ 63"
    using assms by (simp_all add: max_def)
  from write_proc_eq [OF assms(2) this] assms show ?thesis
    by (simp add: writeVariantMem_def overwrite_at written_def)
qed

theorem writeVariantMem_tail_witness:
  "mem (proc_of (snd (writeVariantMem Vreplica (\<lambda>i. of_nat i) 64 12
      (pair_call SYS_read no_args 7 no_args 9))) Vreplica) 72 = Some 36"
  using writeVariantMem_tail [of "pair_call SYS_read no_args 7 no_args 9" Vreplica 64 12 12 8 "\<lambda>i. of_nat i"]
  by simp

text \<open>C28: Round trip. What \<open>writeVariantMem\<close> has written to a mapped buffer of a stopped
  variant, \<open>readVariantMem\<close> reads back, for every size of less than a long or of whole longs
  up to \<open>BUF_SIZE\<close>.\<close>

theorem write_then_read:
  assumes "pids_ok s" and "stopped (proc_of s v)" and "sz \<le> BUF_SIZE" and "whole_words (unat sz)"
    and "mapped (mem (proc_of s v)) a (max 8 (unat sz))"
  shows "\<exists>s' c'. writeVariantMem v b a sz s = (sz, s') \<and> readVariantMem v c a sz s' = (sz, c') \<and>
     (\<forall>i < unat sz. c' i = b i)"
proof -
  have sz: "unat sz \<le> 10000000" using assms(3) by (simp add: word_le_nat_alt)
  then have lt: "unat sz < 2 ^ 63" by simp
  have w8: "words8 (unat sz) \<le> max 8 (unat sz)"
    using assms(4) by (auto simp: whole_words_def words8_def)
  let ?q = "patched (proc_of s v) a (unat sz) (written b (unat sz))"
  obtain s' where s': "writeVariantMem v b a sz s = (sz, s')" "proc_of s' v = ?q"
    using writeVariantMem_writes [OF assms(1,2,5) lt] by blast
  have "mapped (mem ?q) a (words8 (unat sz))"
    using assms(5) w8 by (auto simp: mapped_def patched_def overwrite_def)
  then have "readVariantMem v c a sz s' =
      (sz, \<lambda>i. if i < words8 (unat sz) then bytes_at ?q a i else c i)"
    using readVariantMem_reads [of s' v a sz c] assms(2,3) unfolding s'(2) by (simp add: leD)
  moreover have "bytes_at ?q a i = b i" if "i < unat sz" for i
    using that sz written_whole [OF assms(4)]
    by (simp add: bytes_at_def patched_def overwrite_at)
  moreover have "i < words8 (unat sz)" if "i < unat sz" for i
    using that words8_bounds(1) [of "unat sz"] by simp
  ultimately show ?thesis using s'(1) by auto
qed

theorem write_then_read_witness:
  "\<exists>s' c'. writeVariantMem Vreplica (\<lambda>i. of_nat i) 64 16 (pair_call SYS_read no_args 7 no_args 9) = (16, s') \<and>
     readVariantMem Vreplica (\<lambda>_. 0) 64 16 s' = (16, c') \<and> c' 13 = 13"
  using write_then_read [of "pair_call SYS_read no_args 7 no_args 9" Vreplica 16 64 "\<lambda>i. of_nat i" "\<lambda>_. 0"]
  by (auto simp: BUF_SIZE_def whole_words_def)

section \<open>Copying\<close>



section \<open>Comparing\<close>

text \<open>C27: The comparison of mapped buffers of at most \<open>BUF_SIZE\<close> bytes is 0 exactly when the
  bytes are equal; larger buffers are never found equal. It changes nothing but the monitor's
  own buffers.\<close>

theorem variantMemCmp_exact:
  assumes "stopped (proc_of s v)" and "stopped (proc_of s w)"
    and "mapped (mem (proc_of s v)) a (words8 (unat sz))"
    and "mapped (mem (proc_of s w)) b (words8 (unat sz))"
  shows "(fst (variantMemCmp v a w b sz s) = 0 \<longleftrightarrow> sz \<le> BUF_SIZE \<and>
           (\<forall>i < unat sz. mem (proc_of s v) (a + of_nat i) = mem (proc_of s w) (b + of_nat i))) \<and>
         untouched s (snd (variantMemCmp v a w b sz s))"
proof -
  have "vbyte s v a i = vbyte s w b i \<longleftrightarrow>
      mem (proc_of s v) (a + of_nat i) = mem (proc_of s w) (b + of_nat i)" if "i < unat sz" for i
  proof -
    have i: "i < words8 (unat sz)"
      using that words8_bounds(1) [of "unat sz"] by simp
    with assms(3,4) have "mem (proc_of s v) (a + of_nat i) \<noteq> None"
        "mem (proc_of s w) (b + of_nat i) \<noteq> None"
      by (auto simp: mapped_def)
    with i show ?thesis
      by (auto simp: vbyte_mapped [OF assms(1,3)] vbyte_mapped [OF assms(2,4)] bytes_at_def)
  qed
  then show ?thesis by (auto simp: variantMemCmp_0)
qed

theorem variantMemCmp_exact_witness:
  "fst (variantMemCmp Vmaster 64 Vreplica 128 5 (pair_call SYS_write no_args 7 no_args 7)) = 0 \<and>
   fst (variantMemCmp Vmaster 64 Vreplica 128 5 (pair_call SYS_write no_args 7 no_args 8)) \<noteq> 0"
  using variantMemCmp_exact [of "pair_call SYS_write no_args 7 no_args 7" Vmaster Vreplica 64 5 128]
    variantMemCmp_exact [of "pair_call SYS_write no_args 7 no_args 8" Vmaster Vreplica 64 5 128]
  by (auto simp: BUF_SIZE_def dest: spec [of _ 0])

text \<open>\<open>variantStrCmp\<close> returns -1 for every C string that ends within the first 9,999,900
  bytes, whatever the other string is: the branch that follows a complete read of the string
  is the error return.\<close>

lemma variantStrCmp_refuses_strings:
  assumes "stopped (proc_of s v)" and "mapped (mem (proc_of s v)) a (words8 (Suc k))"
    and "mem (proc_of s v) (a + of_nat k) = Some 0" and "k < STR_LIMIT"
  shows "fst (variantStrCmp v a w b s) = - 1"
proof -
  have "vbyte s v a k = 0"
    using vbyte_mapped [OF assms(1,2), of k] words8_bounds(1) [of "Suc k"] assms(3)
    by (simp add: bytes_at_def)
  with assms(4) show ?thesis by (auto simp: variantStrCmp_result)
qed

text \<open>C33: As \<open>variantStrCmp\<close> fails for every string, each of the six executors that compare paths by \<open>variantStrCmp\<close> refuses every
  call whose path in the master is a C string of less than 9,999,900 bytes, also if both
  variants make the same call; the variants are left at their entry stops.\<close>

theorem path_calls_refused:
  assumes "(exec, i) \<in> {(execSyscall_access, 0), (execSyscall_openat, 1), (execSyscall_unlink, 0),
      (execSyscall_utimensat, 1), (execSyscall_chdir, 0), (execSyscall_getcwd, 0)}"
    and "vbyte s m (arg s m i) k = 0" and "k < STR_LIMIT"
  shows "\<exists>s'. exec run m r s = Some (- 1, s') \<and> untouched s s'"
proof -
  have c: "fst (variantStrCmp m (arg s m i) w b s) = - 1" for w b
    using assms(2,3) by (auto simp: variantStrCmp_result)
  from assms(1) c show ?thesis
    by (auto simp: execSyscall_access_def execSyscall_openat_def execSyscall_unlink_def
        execSyscall_utimensat_def execSyscall_chdir_def execSyscall_getcwd_def Let_def
        case_prod_beta)
qed

theorem path_calls_refused_witness:
  "\<exists>s'. execSyscall_chdir (kernel 0 0) Vmaster Vreplica (pair_call SYS_chdir no_args 0 no_args 0) =
     Some (- 1, s')"
  using path_calls_refused [of execSyscall_chdir 0 "pair_call SYS_chdir no_args 0 no_args 0" Vmaster 0
      "kernel 0 0" Vreplica]
  by (auto simp: STR_LIMIT_def)

end
