(* ===== verification/Barrier.thy ===== *)
theory Barrier
  imports Effects
begin

text \<open>
  What the monitor promises, without processes, registers and ptrace: a barrier at which two
  parties meet before every call. A party is in user code, waits at the barrier or is in a
  call, and has completed a number of calls. The main loop refines it: each of its rounds is
  one step of the barrier.
\<close>

section \<open>The abstract barrier\<close>

datatype phase = Ph_User | Ph_Wait | Ph_Call

record barrier =
  ph :: "vptr \<Rightarrow> phase"
  cnt :: "vptr \<Rightarrow> nat"

definition set_party :: "vptr \<Rightarrow> phase \<Rightarrow> nat \<Rightarrow> barrier \<Rightarrow> barrier" where
  "set_party v p d b = b\<lparr>ph := (ph b)(v := p), cnt := (cnt b)(v := cnt b v + d)\<rparr>"

text \<open>Whether a party that arrives now finds the other one waiting for it.\<close>

definition meets :: "barrier \<Rightarrow> vptr \<Rightarrow> bool" where
  "meets b v \<longleftrightarrow> ph b (other v) = Ph_Wait \<and> cnt b v = cnt b (other v)"

text \<open>
  A party arrives and waits; the second one arrives, and both enter the call, or both have
  completed it, counted or not, or the master has and the replica enters it; a party returns
  from a call.
\<close>

inductive barrier_step :: "barrier \<Rightarrow> barrier \<Rightarrow> bool" where
  wait: "ph b v = Ph_User \<Longrightarrow> \<not> meets b v \<Longrightarrow> barrier_step b (set_party v Ph_Wait 0 b)"
| enter: "ph b v = Ph_User \<Longrightarrow> meets b v \<Longrightarrow>
    barrier_step b (set_party Vmaster Ph_Call 0 (set_party Vreplica Ph_Call 0 b))"
| complete: "ph b v = Ph_User \<Longrightarrow> meets b v \<Longrightarrow>
    barrier_step b (set_party Vmaster Ph_User 1 (set_party Vreplica Ph_User 1 b))"
| ignore: "ph b v = Ph_User \<Longrightarrow> meets b v \<Longrightarrow>
    barrier_step b (set_party Vmaster Ph_User 0 (set_party Vreplica Ph_User 0 b))"
| master_first: "ph b v = Ph_User \<Longrightarrow> meets b v \<Longrightarrow>
    barrier_step b (set_party Vmaster Ph_User 1 (set_party Vreplica Ph_Call 0 b))"
| leave: "ph b v = Ph_Call \<Longrightarrow> barrier_step b (set_party v Ph_User 1 b)"

section \<open>The abstraction\<close>

fun phase_of :: "pstate \<Rightarrow> phase" where
  "phase_of EntryStop = Ph_Wait"
| "phase_of InSyscall = Ph_Call"
| "phase_of _ = Ph_User"

definition barrier_of :: "'k mvee \<Rightarrow> barrier" where
  "barrier_of s = \<lparr>ph = (\<lambda>v. phase_of (ps (proc_of s v))), cnt = (\<lambda>v. unat (num s v))\<rparr>"

lemma barrier_of_sel [simp]:
  "ph (barrier_of s) v = phase_of (ps (proc_of s v))" "cnt (barrier_of s) v = unat (num s v)"
  by (simp_all add: barrier_of_def)

lemma set_party_sel [simp]:
  "ph (set_party v p d b) w = (if w = v then p else ph b w)"
  "cnt (set_party v p d b) w = (if w = v then cnt b v + d else cnt b w)"
  by (simp_all add: set_party_def)

lemma barrier_eqI: "(\<And>v. ph b v = ph c v) \<Longrightarrow> (\<And>v. cnt b v = cnt c v) \<Longrightarrow> b = (c :: barrier)"
  by (cases b; cases c) (simp add: fun_eq_iff)

lemma meets_iff:
  "safe n s \<Longrightarrow> ps (proc_of s v) = InUser \<Longrightarrow>
   meets (barrier_of s) v \<longleftrightarrow> num s v = num s (other v) \<and> state (vars s (other v)) = VSTATE_WAIT"
  unfolding safe_def lockstep_two [OF other_neq(2) [of v]]
  by (auto simp: meets_def level_def ahead_def in_user_def in_call_def waiting_def word_unat_eq_iff)

text \<open>Where a call leaves the two variants, seen at the barrier.\<close>

lemma moved_num: "moved v p d t s \<Longrightarrow> ps (proc_of s v) = p \<and> num s v = num t v + d"
  by (simp add: moved_def num_def)

lemma moved_barrier:
  assumes "\<And>w. num t w = num s w"
    and "moved Vmaster a d t s'" and "moved Vreplica c e t s'"
    and "unat (num s Vmaster + d) = unat (num s Vmaster) + i"
    and "unat (num s Vreplica + e) = unat (num s Vreplica) + j"
  shows "barrier_of s' =
    set_party Vmaster (phase_of a) i (set_party Vreplica (phase_of c) j (barrier_of s))"
proof (rule barrier_eqI)
  fix v
  show "ph (barrier_of s') v =
      ph (set_party Vmaster (phase_of a) i (set_party Vreplica (phase_of c) j (barrier_of s))) v"
    using assms(2,3) by (cases v) (simp_all add: moved_num)
  show "cnt (barrier_of s') v =
      cnt (set_party Vmaster (phase_of a) i (set_party Vreplica (phase_of c) j (barrier_of s))) v"
    using moved_num [OF assms(2)] moved_num [OF assms(3)] assms(1,4,5) by (cases v) simp_all
qed

lemma step_refines:
  assumes "ptrace_alternates run" and "avoids run SYS_shutdown" and "avoids run SYS_access"
    and "safe n s" and "n < 2 ^ 64 - 1" and "mvee_step run s s'"
  shows "barrier_step (barrier_of s) (barrier_of s')"
proof -
  have pids: "pids_ok s" and cn: "\<And>v. unat (num s v) \<le> n"
    using assms(4) by (simp_all add: safe_def well_typed_def counted_def)
  note suc = unat_count [OF cn assms(5)]
  obtain v where "child_event run v s = Some (Inr (), s')"
    using assms(6) by (auto elim!: mvee_stepE dest!: main_round_child)
  from assms(1,4,5) this show ?thesis
  proof (cases rule: step_cases)
    case (exit_stop k p)
    then have "barrier_of s' = set_party v Ph_User 1 (barrier_of s)"
      using pids suc by (intro barrier_eqI) (simp_all add: num_def)
    then show ?thesis using exit_stop(1) barrier_step.leave by simp
  next
    case (hold k p)
    then have "barrier_of s' = set_party v Ph_Wait 0 (barrier_of s)"
      using pids by (intro barrier_eqI) (simp_all add: num_def)
    moreover have "\<not> meets (barrier_of s) v"
      using hold(1,3) meets_iff [OF assms(4)] by blast
    ultimately show ?thesis using hold(1) barrier_step.wait by simp
  next
    case (sync k p)
    let ?t = "arrived v k p s"
    have user: "ph (barrier_of s) v = Ph_User" using sync(1) by simp
    have meet: "meets (barrier_of s) v"
      using sync(1,3,4) meets_iff [OF assms(4)] by (simp add: waiting_def)
    note at = both_at_entry [OF assms(4) sync(4,2), of k]
    have "nr ?t v = orig_rax (regs p)" using at(3) [of v] pids by simp
    moreover have "nr ?t Vmaster = nr ?t Vreplica"
      using sync(5) by (rule processSyscallSync_0)
    ultimately have "nr ?t Vmaster = orig_rax (regs p)" by (cases v) simp_all
    then have "nr ?t Vmaster \<noteq> SYS_shutdown" "nr ?t Vmaster \<noteq> SYS_access"
      using arrived_avoids [OF assms(2) sync(6,2)] arrived_avoids [OF assms(3) sync(6,2)] by simp_all
    then have rel: "released Vmaster Vreplica ?t s'"
      using sync_released [OF assms(1) _ at(1) sync(5)] by auto
    have same: "num ?t w = num s w" for w using pids by simp
    note eqs = moved_barrier [OF same]
    from rel consider
        "moved Vmaster InSyscall 0 ?t s'" "moved Vreplica InSyscall 0 ?t s'"
      | "moved Vmaster InUser 1 ?t s'" "moved Vreplica InUser 1 ?t s'"
      | "moved Vmaster InUser 0 ?t s'" "moved Vreplica InUser 0 ?t s'"
      | "moved Vmaster InUser 1 ?t s'" "moved Vreplica InSyscall 0 ?t s'"
      by (auto simp: released_iff)
    then show ?thesis
    proof cases
      case 1
      from eqs [OF this, of 0 0] barrier_step.enter [OF user meet] show ?thesis by simp
    next
      case 2
      from eqs [OF this, of 1 1] suc barrier_step.complete [OF user meet] show ?thesis by simp
    next
      case 3
      from eqs [OF this, of 0 0] barrier_step.ignore [OF user meet] show ?thesis by simp
    next
      case 4
      from eqs [OF this, of 1 0] suc barrier_step.master_first [OF user meet] show ?thesis by simp
    qed
  qed
qed

section \<open>What the barrier guarantees\<close>

text \<open>
  A party in a call has a partner that is in one too, or is past it: the counts differ by at
  most one, and only while the one behind is in the call.
\<close>

definition aligned :: "barrier \<Rightarrow> bool" where
  "aligned b \<longleftrightarrow>
     (\<forall>v. cnt b v \<le> cnt b (other v) + 1 \<and>
          (cnt b v = cnt b (other v) + 1 \<longrightarrow> ph b v \<noteq> Ph_Call \<and> ph b (other v) = Ph_Call)) \<and>
     (cnt b Vmaster = cnt b Vreplica \<longrightarrow>
       (ph b Vmaster = Ph_Call \<longleftrightarrow> ph b Vreplica = Ph_Call) \<and>
       \<not> (ph b Vmaster = Ph_Wait \<and> ph b Vreplica = Ph_Wait))"

lemma aligned_step: "barrier_step b c \<Longrightarrow> aligned b \<Longrightarrow> aligned c"
  by (induction rule: barrier_step.induct)
    (case_tac [!] v, auto simp: aligned_def meets_def vptr_all)

text \<open>A round of the loop is a step of the barrier, and so is every sequence of rounds.\<close>

lemma reach_refines:
  assumes "reach run s0 n s" and "ptrace_alternates run" and "avoids run SYS_shutdown"
    and "avoids run SYS_access" and "safe 0 s0" and "n < 2 ^ 64"
  shows "(barrier_step ^^ n) (barrier_of s0) (barrier_of s)"
  using assms
proof (induction rule: reach.induct)
  case start
  then show ?case by simp
next
  case (more n s s')
  then have n: "n < 2 ^ 64 - 1" by simp
  have "safe n s"
    using reach_cases [OF more.hyps(1) more.prems(1,2,4)] more.prems(3,5) by simp
  then have "barrier_step (barrier_of s) (barrier_of s')"
    using step_refines [OF more.prems(1-3) _ n more.hyps(2)] by blast
  moreover have "(barrier_step ^^ n) (barrier_of s0) (barrier_of s)"
    using more by simp
  ultimately show ?case by auto
qed

lemma aligned_run: "(barrier_step ^^ n) b c \<Longrightarrow> aligned b \<Longrightarrow> aligned c"
  by (induction n arbitrary: c) (auto intro: aligned_step)

text \<open>Where the two parties start.\<close>

definition barrier_start :: barrier where
  "barrier_start = \<lparr>ph = (\<lambda>_. Ph_User), cnt = (\<lambda>_. 0)\<rparr>"

lemma aligned_start: "aligned barrier_start"
  by (simp add: aligned_def barrier_start_def)

section \<open>The loop and the step relation\<close>

lemma main_loop_snoc:
  "main_loop run (cs @ [c]) s =
     (case main_loop run cs s of Some (Inr _, t) \<Rightarrow> main_round run c t | x \<Rightarrow> x)"
proof (induction cs arbitrary: s)
  case Nil
  show ?case by (cases "main_round run c s") (auto split: sum.splits)
next
  case (Cons a cs)
  then show ?case by (cases "main_round run a s") (auto split: sum.splits)
qed

lemma main_loop_Cons:
  "main_loop run (c # cs) s = Some (Inr (), t) \<longleftrightarrow>
   (\<exists>s1. main_round run c s = Some (Inr (), s1) \<and> main_loop run cs s1 = Some (Inr (), t))"
  by (cases "main_round run c s") (auto split: sum.splits)

lemma main_loop_reach:
  "main_loop run cs s0 = Some (Inr (), s) \<Longrightarrow> reach run s0 (length cs) s"
  by (induction cs arbitrary: s rule: rev_induct)
    (auto simp: main_loop_snoc reach_0 split: option.splits sum.splits
      intro: reach.more [OF _ mvee_step.round])

lemma reach_main_loop:
  "reach run s0 n s \<Longrightarrow> \<exists>cs. length cs = n \<and> main_loop run cs s0 = Some (Inr (), s)"
proof (induction rule: reach.induct)
  case start
  show ?case by simp
next
  case (more n s s')
  then obtain cs where cs: "length cs = n" "main_loop run cs s0 = Some (Inr (), s)" by blast
  obtain c where "main_round run c s = Some (Inr (), s')"
    using more.hyps(2) by (rule mvee_stepE)
  with cs have "length (cs @ [c]) = Suc n \<and> main_loop run (cs @ [c]) s0 = Some (Inr (), s')"
    by (simp add: main_loop_snoc)
  then show ?case by blast
qed

end
