(* ===== verification/DefectProps.thy ===== *)
theory DefectProps
  imports Barrier
begin

text \<open>
  Where the code does not do what it is meant to: executors that run the wrong call, block or
  hide an error, checks that refuse equal calls, and options that are lost. The theorems give
  the behaviour of the code as it is.
\<close>

section \<open>Starting and watching a variant\<close>

text \<open>\<open>checkVariantExit\<close> accepts exactly the wait statuses of a stopped process, those whose
  low seven bits are ones; every exit code and every fatal signal gives -1.\<close>

lemma checkVariantExit_exact:
  "checkVariantExit st = (if st AND 0x7f = 0x7f then 0 else - 1)"
proof -
  let ?x = "st AND 0x7f"
  have "?x = take_bit 7 st"
    by (simp add: take_bit_eq_mask mask_eq_exp_minus_1)
  then have lt: "unat ?x < 128"
    by (simp add: unsigned_take_bit_eq take_bit_nat_eq_self_iff take_bit_nat_def)
  then consider (zero) "?x = 0" | (full) "?x = 0x7f" | (sig) "0 < unat ?x" "unat ?x < 127"
    by (cases "unat ?x = 0 \<or> unat ?x = 127") (auto simp: word_unat_eq_iff)
  then show ?thesis
  proof cases
    case sig
    have "unat (?x + 1) = unat ?x + 1" using sig by (simp add: unat_word_ariths)
    then have c: "unat (ucast (?x + 1) :: byte) = unat ?x + 1"
      using sig by (simp add: unsigned_ucast_eq take_bit_nat_eq_self)
    have "sint (ucast (?x + 1) :: byte) = uint (ucast (?x + 1) :: byte)"
      using sig c by (intro sint_byte_small) (simp add: word_less_nat_alt)
    also have "\<dots> = int (unat ?x + 1)"
      using arg_cong [OF c, of int] by simp
    finally have "sint (ucast (?x + 1) :: byte) = int (unat ?x + 1)" .
    moreover have "0 < (int (unat ?x) + 1) div 2"
      using sig(1) by linarith
    ultimately show ?thesis
      using sig by (auto simp: checkVariantExit_def WIFEXITED_def WTERMSIG_def WIFSIGNALED_def)
  qed (simp_all add: checkVariantExit_def WIFEXITED_def WTERMSIG_def WIFSIGNALED_def)
qed

text \<open>After \<open>configureChildProc\<close> a stopped variant has the option
  \<open>PTRACE_O_TRACESYSGOOD\<close> alone: the second \<open>PTRACE_SETOPTIONS\<close> replaces the first, so
  \<open>PTRACE_O_EXITKILL\<close> is not in force and the variant outlives the monitor.\<close>

lemma configure_loses_exitkill:
  assumes "stopped (proc_of s v)"
  shows "opts (proc_of (configureChildProc v s) v) = PTRACE_O_TRACESYSGOOD"
    using assms by (simp add: configureChildProc_def Let_def upd_proc_def proc_of_def setoptions_def)

section \<open>Wrong calls\<close>

text \<open>C35: After an accepted \<open>write\<close> the call number is changed in the master, which is past its
  call, and not in the replica: the replica, with \<open>rdi\<close>, \<open>rsi\<close> and \<open>rdx\<close> set for \<open>lseek\<close>,
  makes its own call of \<open>write\<close> with the number of bytes written as the address of the buffer
  and \<open>SEEK_CUR\<close>, 1, as the count.\<close>

theorem write_replica_writes:
  assumes "ptrace_alternates run" and "m \<noteq> r" and "at_entry s"
    and "agree [SameInt 0, Same 2, SameMem 1 (Arg64 2)] s m r"
    and "steps_to run s m (world s) (proc_of s m) k1 p1" and "\<not> is_dead (ps p1)"
    and "n = rax (regs p1)"
    and "steps_to run s r k1 (seek_args (arg s r 0) n (proc_of s r)) k2 p2"
    and "\<not> is_dead (ps p2)"
  shows "orig_rax (regs (seek_args (arg s r 0) n (proc_of s r))) = orig_rax (regs (proc_of s r)) \<and>
    (\<exists>s'. execSyscall_write run m r s = Some (0, s') \<and> world s' = k2 \<and>
       completed s s' m (with_call SYS_lseek p1) \<and> completed s s' r (with_rax n p2))"
proof -
  note at = at_entry_two [OF assms(2,3)]
  have ag: "sext32 (arg s m 0) = arg s r 0" "arg s m 2 = arg s r 2"
    and eq: "fst (variantMemCmp m (arg s m 1) r (arg s r 1) (arg s r 2) s) = 0"
    using assms(4) by (auto simp: check_simps)
  let ?s = "snd (variantMemCmp m (arg s m 1) r (arg s r 1) (arg s r 2) s)"
  have "steps_to run ?s m (world ?s) (proc_of ?s m) k1 p1"
    using assms(5) by (simp add: steps_to_def)
  from wait_exit [OF assms(1) _ _ this assms(6)] at
  have w1: "waitVariant run m (resumeVariantFromWait m ?s) = Some (0, ran m k1 p1 ?s)"
    and e1: "ps p1 = ExitStop"
    by simp_all
  let ?t = "setSyscall m SYS_lseek (set_lseek_args r (arg s r 0) n (master_done m k1 p1 ?s))"
  have "steps_to run ?t r (world ?t) (proc_of ?t r) k2 p2"
    using assms(8) at by (simp add: steps_to_def poke_stopped setregs_seek)
  from wait_exit [OF assms(1) _ _ this assms(9)] at
  have w2: "waitVariant run r (resumeVariantFromWait r ?t) = Some (0, ran r k2 p2 ?t)"
    and e2: "ps p2 = ExitStop"
    by simp_all
  note rv = master_done_sel(5) [OF _ e1]
  have "execSyscall_write run m r s = Some (0, resumeVariantFromExit r (resumeVariantFromExit m
      (setSyscallReturnValue r n (ran r k2 p2 ?t))))"
    using ag eq w1 w2
    by (simp add: execSyscall_write_def case_prod_beta Let_def master_done_def [symmetric] rv at assms(7)[symmetric])
  then show ?thesis
    using e1 e2 at assms(2)
    by (simp add: effect_simps seek_args_def)
qed

theorem write_replica_writes_witness:
  "\<exists>s'. execSyscall_write (kernel 0 5) Vmaster Vreplica
      (pair_call SYS_write [1, 64, 5, 0, 0, 0] 65 [1, 128, 5, 0, 0, 0] 65) = Some (0, s') \<and>
     orig_rax (regs (proc_of s' Vreplica)) = SYS_write \<and> rsi (regs (proc_of s' Vreplica)) = 5"
  using write_replica_writes [OF kernel_alternates [of 0 5] _ _ _ steps_kernel _ refl steps_kernel,
      of Vmaster Vreplica "pair_call SYS_write [1, 64, 5, 0, 0, 0] 65 [1, 128, 5, 0, 0, 0] 65"]
  by (auto simp: machine_simps)

text \<open>C36: An accepted \<open>pselect6\<close> blocks the monitor for ever once the master has returned from
  it: the replica, still at its entry stop, is waited for without having been resumed.\<close>

theorem pselect6_blocks:
  assumes "ptrace_alternates run" and "m \<noteq> r" and "at_entry s"
    and "agree [SameLow32 0, SameMem 1 (Const 128), SameMem 2 (Const 128), SameMem 3 (Const 128),
           SameMem 4 (Const 16), SameMem 5 (Const 128)] s m r"
    and "steps_to run s m (world s) (proc_of s m) k p" and "\<not> is_dead (ps p)"
  shows "execSyscall_pselect6 run m r s = None"
proof -
  note at = at_entry_two [OF assms(2,3)]
  have "\<not> is_dead (ps (snd (run (world s) (pid (vars s m)) (ptrace_syscall (proc_of s m)))))"
    "checkVariantExit (wait_status (snd (run (world s) (pid (vars s m)) (ptrace_syscall (proc_of s m))))) = 0"
    using assms(5,6) stops_at_exit [OF assms(1,5)] at(3) by (simp_all add: steps_to_def ptrace_syscall_entry)
  with assms(4) at show ?thesis
    by (auto simp: execSyscall_pselect6_def total_simps check_simps)
qed

theorem pselect6_blocks_witness:
  "execSyscall_pselect6 (kernel 0 0) Vmaster Vreplica
     (pair_call SYS_pselect6 [1, 64, 64, 64, 64, 64] 0 [1, 64, 64, 64, 64, 64] 0) = None"
  by (rule pselect6_blocks [OF kernel_alternates _ _ _ steps_kernel]) (auto simp: machine_simps)

text \<open>\<open>fadvise64\<close> and \<open>rseq\<close> compare their arguments but let both variants into the call
  before they report a difference.\<close>

lemma resumed_before_refused:
  assumes "m \<noteq> r" and "at_entry s"
    and "exec = execSyscall_fadvise64 \<and> \<not> agree [Same 0, Same 1, Same 2, Same 3] s m r \<or>
         exec = execSyscall_rseq \<and> \<not> agree [Same 1, Same 2, Same 3] s m r"
  shows "\<exists>s'. exec run m r s = Some (- 1, s') \<and> resumed_both s s'"
  using assms(3) resume_both_resumed [OF assms(1,2)]
  by (auto simp: execSyscall_fadvise64_def execSyscall_rseq_def agree_def holds_def Let_def)

section \<open>Refused although equal\<close>

text \<open>\<open>read\<close> and \<open>write\<close> refuse two equal calls whose file descriptor register is not
  the sign extension of its lower half, as the master's is read as an \<open>int\<close> and the
  replica's is not: 0xffffffff, which the kernel reads as -1, is such a register.\<close>

lemma wide_descriptor_refused:
  assumes "arg s m 0 = arg s r 0" and "sext32 (arg s m 0) \<noteq> arg s m 0"
    and "exec = execSyscall_read \<or> exec = execSyscall_write"
  shows "exec run m r s = Some (- 1, s)"
  using assms by (auto simp: execSyscall_read_def execSyscall_write_def Let_def)

text \<open>A \<open>read\<close> that fails in the master with any error but -1 (the kernel returns
  \<open>-errno\<close>) is taken for a transfer of that many bytes, which exceeds \<open>BUF_SIZE\<close>: the executor
  reports failure, with the replica still at its entry stop.\<close>

lemma read_error_refused:
  assumes "ptrace_alternates run" and "m \<noteq> r" and "at_entry s" and "agree [SameInt 0, Same 2] s m r"
    and "steps_to run s m (world s) (proc_of s m) k p" and "\<not> is_dead (ps p)"
    and "rax (regs p) > BUF_SIZE" and "rax (regs p) \<noteq> - 1"
  shows "\<exists>s'. execSyscall_read run m r s = Some (- 1, s') \<and> world s' = k \<and>
     proc_of s' r = proc_of s r"
proof -
  note at = at_entry_two [OF assms(2,3)]
  note w1 = wait_exit [OF assms(1) at(2,3) assms(5,6)]
  have "execSyscall_read run m r s = Some (- 1, master_done m k p s)"
    using assms(4,7,8) w1 at
    by (simp add: execSyscall_read_def case_prod_beta Let_def master_done_def [symmetric]
        agree_def holds_def transferVariantMem_too_big)
  then show ?thesis using at by simp
qed

section \<open>Errors and stops that are lost\<close>

text \<open>C39: When the master dies in an \<open>access\<close> call, the executor, which drops the result of
  \<open>runMasterReplicateRet\<close>, reports success: no variant runs any more, and the monitor waits
  for ever.\<close>

theorem access_hides_death:
  assumes "ptrace_alternates run" and "m \<noteq> r" and "at_entry s" and "arg s m 1 = arg s r 1"
    and "\<forall>j < STR_LIMIT. vbyte s m (arg s m 0) j \<noteq> 0 \<and>
           vbyte s m (arg s m 0) j = vbyte s r (arg s r 0) j"
    and "steps_to run s m (world s) (proc_of s m) k p" and "is_dead (ps p)"
  shows "\<exists>s'. execSyscall_access run m r s = Some (0, s') \<and> wedged s' \<and>
     (\<forall>v. child_event run v s' = None)"
proof -
  note at = at_entry_two [OF assms(2,3)]
  let ?s = "snd (variantStrCmp m (arg s m 0) r (arg s r 0) s)"
  have "fst (variantStrCmp m (arg s m 0) r (arg s r 0) s) = 0"
    using assms(5) by (auto simp: variantStrCmp_result)
  moreover have "steps_to run ?s m (world ?s) (proc_of ?s m) k p"
    using assms(6) by (simp add: steps_to_def)
  from wait_steps [OF assms(1) _ _ this] at assms(7)
  have "waitVariant run m (resumeVariantFromWait m ?s) = Some (- 1, ran m k p ?s)"
    by simp
  ultimately have "execSyscall_access run m r s = Some (0, ran m k p ?s)"
    using assms(4) by (simp add: execSyscall_access_def runMasterReplicateRet_def case_prod_beta Let_def)
  moreover have "wedged (ran m k p ?s)"
    using at assms(7) by (cases "ps p") (simp_all add: wedged_def all_vptr_two [OF assms(2)])
  ultimately show ?thesis using wedged_no_event by blast
qed

lemma steps_deadly [simp]:
  "steps_to (deadly_kernel n) s v k q k (q\<lparr>ps := (if pid (vars s v) = 1 then Killed 9 else ExitStop)\<rparr>)"
  by (simp add: steps_to_def deadly_kernel_def)

theorem access_hides_death_witness:
  "\<exists>s'. execSyscall_access (deadly_kernel 0) Vmaster Vreplica
      (pair_call SYS_access no_args 65 no_args 65) = Some (0, s') \<and> wedged s'"
  using access_hides_death [OF deadly_kernel_alternates _ _ _ _ steps_deadly, of Vmaster Vreplica
      "pair_call SYS_access no_args 65 no_args 65"]
  by (auto simp: machine_simps)

text \<open>A signal stop of a variant, of whatever signal, makes the monitor exit with status 1,
  with the variant at its stop and the other one as it was: neither is killed.\<close>

lemma signal_ends_monitor:
  assumes "pids_ok s" and "is_running (ps (proc_of s v))"
    and "run (world s) (pid (vars s v)) (proc_of s v) = (k, p)" and "ps p = SignalStop g"
  shows "\<exists>s'. child_event run v s = Some (Inl 1, s') \<and> proc_of s' v = p \<and>
     proc_of s' (other v) = proc_of s (other v)"
proof -
  have "checkVariantExit (wait_status p) = 0"
    using assms(4) check_stop [of p] by simp
  then show ?thesis
    using assms event_signal [OF assms(4,1), of run v "other v" k]
    by (simp add: child_event_def waitpid_def)
qed

text \<open>A round in which a variant returns from its call.\<close>

lemma exit_round:
  assumes "pids_ok s" and "ps (proc_of s u) = InSyscall"
    and "run (world s) (pid (vars s u)) (proc_of s u) = (k, p)" and "ps p = ExitStop"
  shows "main_round run (pid (vars s u)) s = Some (Inr (), resumeVariantFromExit u (arrived u k p s))"
  using assms event_exit [OF assms(4,1), of run u "other u" k]
  by (simp add: main_round_pid child_event_def waitpid_def check_stop)

text \<open>A round in which a variant arrives at a call while the other one, marked as waiting, has
  exit information: both are killed.\<close>

lemma mismatch_round:
  assumes "well_typed s" and "is_running (ps (proc_of s w))" and "\<not> is_dead (ps (proc_of s (other w)))"
    and "num s w = num s (other w)" and "state (vars s (other w)) = VSTATE_WAIT"
    and "si_op (syscallInfo (vars s (other w))) = PTRACE_SYSCALL_INFO_EXIT"
    and "run (world s) (pid (vars s w)) (proc_of s w) = (k, p)" and "ps p = EntryStop"
  shows "\<exists>t. main_round run (pid (vars s w)) s = Some (Inl 1, t) \<and> (\<forall>v. ps (proc_of t v) = Killed 9)"
proof -
  have pids: "pids_ok s" using assms(1) by (simp add: well_typed_def)
  let ?s = "arrived w k p s" and ?t = "\<lambda>s. upd_proc Vreplica kill9 (upd_proc Vmaster kill9 s)"
  have "si_op (syscallInfo (vars ?s Vmaster)) \<noteq> si_op (syscallInfo (vars ?s Vreplica))"
    using pids assms(6,8) by (cases w) (simp_all add: entry_info_sel)
  then have "processSyscallSync run Vmaster Vreplica ?s = Some (- 1, ?s)"
    by (simp add: processSyscallSync_def)
  then have "processVariantEvent run w (other w) (upd_proc w (\<lambda>_. p) (s\<lparr>world := k\<rparr>)) =
      Some (Returned (- 1), ?t ?s)"
    unfolding event_entry [OF assms(8) pids other_neq(2)] using assms(4,5)
    by (simp add: sync_variants [OF assms(1)])
  then have "main_round run (pid (vars s w)) s = Some (Inl 1, ?t ?s)"
    using assms(2,7,8) by (simp add: main_round_pid [OF pids] child_event_def waitpid_def check_stop)
  moreover have "ps (proc_of (?t ?s) v) = Killed 9" for v
    using pids assms(3,8) by (cases v; cases w) (simp_all add: kill9_def)
  ultimately show ?thesis by blast
qed

text \<open>C37: After an accepted \<open>shutdown\<close> the variant that had reached the call first, \<open>v\<close>, keeps
  the mark that it waits, as the executor resumes both variants by \<open>resumeVariantFromExit\<close>. If
  then both return from the call, in either order (\<open>u\<close> first), and after that the other variant
  is the first to make its next call, the monitor compares this call with the exit information
  of the running \<open>v\<close>, kills both variants and exits with status 1.\<close>

theorem shutdown_race:
  assumes "at_entry s" and "well_typed s"
    and "num s Vmaster = num s Vreplica" and "state (vars s v) = VSTATE_WAIT"
    and "execSyscall_shutdown run Vmaster Vreplica s = Some (0, s1)"
    and "run (world s) (pid (vars s u)) ((proc_of s u)\<lparr>ps := InSyscall\<rparr>) = (k1, p1)"
    and "run k1 (pid (vars s (other u))) ((proc_of s (other u))\<lparr>ps := InSyscall\<rparr>) = (k2, p2)"
    and "run k2 (pid (vars s (other v))) ((if u = v then p2 else p1)\<lparr>ps := InUser\<rparr>) = (k3, p3)"
    and "ps p1 = ExitStop" and "ps p2 = ExitStop" and "ps p3 = EntryStop"
  shows "\<exists>s2. main_loop run [pid (vars s u), pid (vars s (other u)), pid (vars s (other v))] s1 =
       Some (Inl 1, s2) \<and> (\<forall>w. ps (proc_of s2 w) = Killed 9)"
proof -
  have s1: "s1 = resumeVariantFromExit Vreplica (resumeVariantFromExit Vmaster s)"
    using assms(5) by (auto simp: execSyscall_shutdown_def Let_def split: if_splits)
  have pids: "pids_ok s" and en: "\<And>w. ps (proc_of s w) = EntryStop"
    using assms(1) by (simp_all add: at_entry_def)
  have p1: "proc_of s1 w = (proc_of s w)\<lparr>ps := InSyscall\<rparr>" "pid (vars s1 w) = pid (vars s w)"
    "pids_ok s1" "world s1 = world s" for w
    using pids en by (cases w; simp add: s1 ptrace_syscall_entry)+
  let ?s2 = "resumeVariantFromExit u (arrived u k1 p1 s1)"
  have 1: "main_round run (pid (vars s u)) s1 = Some (Inr (), ?s2)"
    using exit_round [of s1 u run k1 p1] p1 assms(6,9) by simp
  have p2: "pids_ok ?s2" "proc_of ?s2 (other u) = (proc_of s (other u))\<lparr>ps := InSyscall\<rparr>"
    "world ?s2 = k1" "pid (vars ?s2 w) = pid (vars s w)" for w
    using p1 by (simp_all add: arrived_def)
  define s3 where "s3 = resumeVariantFromExit (other u) (arrived (other u) k2 p2 ?s2)"
  have 2: "main_round run (pid (vars s (other u))) ?s2 = Some (Inr (), s3)"
    using p2(1) assms(7,10)
    by (unfold s3_def, intro exit_round [of ?s2 "other u" run k2 p2, unfolded p2(2-4)]) simp_all
  have p3: "proc_of s3 w = (if w = u then p1 else p2)\<lparr>ps := InUser\<rparr>" "world s3 = k2"
    "pid (vars s3 w) = pid (vars s w)" "num s3 (other w) = num s3 w" for w
    unfolding s3_def using p1 p2 assms(3,9,10)
    by (cases u; cases w; simp add: ptrace_syscall_entry arrived_def num_def s1)+
  have q: "proc_of s3 (other v) = (if u = v then p2 else p1)\<lparr>ps := InUser\<rparr>"
    using p3(1) by (cases u; cases v) simp_all
  have "well_typed s3"
    using assms(2) p2 p1 by (simp add: s3_def well_typed_def maps_ok_def arrived_def s1)
  moreover have "state (vars s3 v) = VSTATE_WAIT"
    "si_op (syscallInfo (vars s3 v)) = PTRACE_SYSCALL_INFO_EXIT"
    unfolding s3_def using assms(4,9,10) p1 by (cases u; cases v; simp add: s1 arrived_def exit_info_sel)+
  ultimately obtain t where 3: "main_round run (pid (vars s (other v))) s3 = Some (Inl 1, t)"
    and t: "\<forall>w. ps (proc_of t w) = Killed 9"
    using mismatch_round [of s3 "other v" run k3 p3, unfolded q p3(2,3)] assms(8,11) p3(1,4)
    by auto
  have "main_loop run [pid (vars s u), pid (vars s (other u)), pid (vars s (other v))] s1 = Some (Inl 1, t)"
    by (simp only: main_loop.simps 1 2 3 bind_Some_iff prod.case sum.case)
  with t show ?thesis by blast
qed

text \<open>Both variants make an equal call of \<open>shutdown\<close>, then go on to call \<open>getpid\<close>.\<close>

theorem shutdown_race_witness:
  "\<exists>s1 s2. execSyscall_shutdown (kernel SYS_getpid 0) Vmaster Vreplica
        (pair_call SYS_shutdown [3, 2, 0, 0, 0, 0] 0 [3, 2, 0, 0, 0, 0] 0) = Some (0, s1) \<and>
      main_loop (kernel SYS_getpid 0) [1, 2, 2] s1 = Some (Inl 1, s2)"
proof -
  let ?s = "pair_call SYS_shutdown [3, 2, 0, 0, 0, 0] 0 [3, 2, 0, 0, 0, 0] 0"
  let ?run = "kernel SYS_getpid 0"
  obtain s1 where s1: "execSyscall_shutdown ?run Vmaster Vreplica ?s = Some (0, s1)"
    by (simp add: execSyscall_shutdown_def)
  let ?i = "image EntryStop SYS_shutdown [3, 2, 0, 0, 0, 0] (filled 0)"
  let ?p = "snd (?run () 2 (?i\<lparr>ps := InSyscall\<rparr>))"
  have "well_typed ?s"
    using initial_heap_rep by (auto simp: well_typed_def maps_ok_def)
  with s1 have "\<exists>s2. main_loop ?run [pid (vars ?s Vmaster), pid (vars ?s (other Vmaster)), pid (vars ?s (other Vmaster))] s1 =
       Some (Inl 1, s2) \<and> (\<forall>v. ps (proc_of s2 v) = Killed 9)"
    by (intro shutdown_race [where ?k1.0 = "()" and ?k2.0 = "()" and ?k3.0 = "()" and ?p1.0 = ?p
          and ?p2.0 = ?p and ?p3.0 = "snd (?run () 2 (?p\<lparr>ps := InUser\<rparr>))"])
      (simp_all add: kernel_def)
  with s1 show ?thesis by auto
qed

section \<open>Too few processors\<close>

lemma start_alone:
  assumes "mpid \<noteq> rpid" and "t = start_variants mpid rpid child maff mimg False rimg s"
  shows "pids_ok t" "num t u = 0" "state (vars t u) = VSTATE_RUNNING"
    "ps (proc_of t Vreplica) = Exited 1" "ps (proc_of t Vmaster) \<in> {InUser, Exited 1}"
proof -
  show "pids_ok t" "num t u = 0" "state (vars t u) = VSTATE_RUNNING"
    using assms(1) unfolding assms(2)
    by (cases u; simp add: start_variants_def initVariant_def createVariant_def num_def pids_ok_def
        configureChildProc_def Let_def upd_var_def upd_proc_def resumeVariantFromWait_def)+
  show "ps (proc_of t Vreplica) = Exited 1"
    unfolding assms(2) by (simp add: start_variants_def initVariant_def createVariant_def
        configureChildProc_def Let_def upd_var_def upd_proc_def resumeVariantFromWait_def proc_of_def
        child_start_def ptrace_syscall_def setoptions_def)
  show "ps (proc_of t Vmaster) \<in> {InUser, Exited 1}"
    using assms(1) unfolding assms(2) by (cases mimg) (simp_all add: start_variants_def
        initVariant_def createVariant_def
        configureChildProc_def Let_def upd_var_def upd_proc_def resumeVariantFromWait_def proc_of_def
        child_start_def ptrace_syscall_def setoptions_def)
qed

lemma alone_round:
  assumes "ptrace_alternates run" and "pids_ok t" and "ps (proc_of t Vreplica) = Exited c"
    and "ps (proc_of t Vmaster) \<in> {InUser, Exited 1}" and "num t Vmaster = num t Vreplica"
    and "state (vars t Vreplica) = VSTATE_RUNNING" and "main_round run i t = Some (Inr (), t')"
  shows "wedged t' \<and> ps (proc_of t' Vreplica) = Exited c \<and> (\<forall>v. num t' v = num t v)"
proof -
  obtain v where "child_event run v t = Some (Inr (), t')"
    using main_round_child [OF assms(7)] by blast
  then obtain k p where run: "run (world t) (pid (vars t v)) (proc_of t v) = (k, p)"
    and running: "is_running (ps (proc_of t v))" and ok: "checkVariantExit (wait_status p) = 0"
    and ev: "processVariantEvent run v (other v) (upd_proc v (\<lambda>_. p) (t\<lparr>world := k\<rparr>)) =
           Some (Returned 0, t')"
    by (rule child_event_cases)
  have v: "v = Vmaster" "ps (proc_of t v) = InUser"
    using running assms(3,4) by (cases v; auto)+
  then have "after_user (ps p)"
    using assms(1) run unfolding ptrace_alternates_def by (metis snd_conv)
  then have ent: "ps p = EntryStop"
    using ok check_after [of p] ev event_signal [OF _ assms(2)] by (cases "ps p") auto
  have "t' = hold v (arrived v k p t)"
    using ev [unfolded event_entry [OF ent assms(2) other_neq(2)]] v(1) assms(5,6) by simp
  then show ?thesis
    using assms(2,3) v(1) ent by (simp add: wedged_def vptr_all num_def)
qed

text \<open>C38: The monitor needs three processors. The replica is pinned to number
  \<open>systemCores - 3\<close>; with one or two processors that is negative, \<open>sched_setaffinity\<close> fails
  and the replica exits. The monitor does not look: after at most one round, in which the
  master arrives at its first call, no variant runs and no call has been completed.\<close>

theorem two_cores_hang:
  assumes "ptrace_alternates run" and "mpid \<noteq> rpid" and "systemCores < 3"
    and "\<And>c. c < 0 \<Longrightarrow> \<not> affinity c"
    and "main_program run argc systemCores affinity mpid rpid child mimg rimg children s =
      Some (Inr (), t)"
  shows "ps (proc_of t Vreplica) = Exited 1 \<and> num t Vmaster = 0 \<and> length children \<le> 1 \<and>
     (children \<noteq> [] \<longrightarrow> wedged t)"
proof -
  let ?s = "start_variants mpid rpid child (affinity (systemCores - 2)) mimg False rimg s"
  note st = start_alone [OF assms(2) refl, where s = s and child = child and mimg = mimg
      and rimg = rimg and maff = "affinity (systemCores - 2)"]
  have "\<not> affinity (systemCores - 3)" using assms(3) by (intro assms(4)) simp
  then have loop: "main_loop run children ?s = Some (Inr (), t)"
    using assms(5) by (auto simp: main_program_def split: if_splits)
  show ?thesis
  proof (cases children)
    case Nil
    then show ?thesis using loop st by simp
  next
    case (Cons i rest)
    obtain t1 where t1: "main_round run i ?s = Some (Inr (), t1)" "main_loop run rest t1 = Some (Inr (), t)"
      using loop unfolding Cons main_loop_Cons by blast
    from alone_round [OF assms(1) st(1,4,5) _ st(3) t1(1)] st(2)
    have w: "wedged t1" "ps (proc_of t1 Vreplica) = Exited 1" "num t1 Vmaster = 0" by simp_all
    have "rest = []"
    proof (rule ccontr)
      assume "rest \<noteq> []"
      then obtain j js where "rest = j # js" by (cases rest) auto
      then obtain t2 where "main_round run j t1 = Some (Inr (), t2)"
        using t1(2) main_loop_Cons by blast
      then show False using wedged_no_step [OF w(1)] mvee_step.round by blast
    qed
    then show ?thesis using t1(2) w Cons by simp
  qed
qed

text \<open>Two processors, numbered 0 and 1.\<close>

theorem two_cores_hang_witness:
  "\<exists>t. main_program (kernel SYS_brk 0) 1 2 (\<lambda>c. 0 \<le> c \<and> c < 2) 1 2 (image InUser 0 no_args (filled 0))
      (Some (image InUser 0 no_args (filled 0))) (Some (image InUser 0 no_args (filled 0))) [1] both_user =
      Some (Inr (), t) \<and> wedged t"
proof -
  let ?i = "image InUser 0 no_args (filled 0)"
  let ?p = "image EntryStop SYS_brk no_args (filled 0)"
  let ?s = "start_variants 1 2 ?i True (Some ?i) False (Some ?i) both_user"
  note st = start_alone [of 1 2 ?s, OF _ refl]
  have id: "pid (vars ?s Vmaster) = 1" "proc_of ?s Vmaster = ?i"
    by (simp_all add: start_variants_def initVariant_def createVariant_def
        configureChildProc_def Let_def upd_var_def upd_proc_def resumeVariantFromWait_def proc_of_def
        child_start_def ptrace_syscall_def setoptions_def image_def)
  have run: "kernel SYS_brk 0 (world ?s) 1 ?i = ((), ?p)"
    by (simp add: kernel_def image_def)
  have "processVariantEvent (kernel SYS_brk 0) Vmaster Vreplica (upd_proc Vmaster (\<lambda>_. ?p) (?s\<lparr>world := ()\<rparr>)) =
      Some (Returned 0, hold Vmaster (arrived Vmaster () ?p ?s))"
    using event_entry [of ?p ?s Vmaster Vreplica "kernel SYS_brk 0" "()"] st(1-3) by simp
  then have "main_round (kernel SYS_brk 0) 1 ?s = Some (Inr (), hold Vmaster (arrived Vmaster () ?p ?s))"
    using id run by (simp add: main_round_def child_event_def waitpid_def check_stop)
  then have main: "main_program (kernel SYS_brk 0) 1 2 (\<lambda>c. 0 \<le> c \<and> c < 2) 1 2 ?i (Some ?i) (Some ?i) [1] both_user =
      Some (Inr (), hold Vmaster (arrived Vmaster () ?p ?s))"
    by (simp add: main_program_def)
  then have "wedged (hold Vmaster (arrived Vmaster () ?p ?s))"
    using two_cores_hang [OF kernel_alternates _ _ _ main] by simp
  with main show ?thesis by blast
qed

end
