(* ===== verification/Accepts.thy ===== *)
theory Accepts
  imports Barrier
begin

text \<open>
  No false alarm. For most calls of the switch the checks of their row are all that decides:
  if they hold and no variant dies in its call, the executor accepts. Together with the
  other direction (\<open>Checks\<close>) the table of checks is then the exact condition.
\<close>

section \<open>Runs without deaths\<close>

text \<open>
  No call kills its process but \<open>exit_group\<close>. The contract of an executor below is for other
  calls, as the executor of \<open>exit_group\<close> does not wait for its end.
\<close>

definition survives :: "'k env \<Rightarrow> bool" where
  "survives run \<longleftrightarrow> ptrace_alternates run \<and>
     (\<forall>k i p. ps p = InSyscall \<longrightarrow> orig_rax (regs p) \<noteq> SYS_exit_group \<longrightarrow>
        ps (snd (run k i p)) = ExitStop)"

definition stays :: "proc \<Rightarrow> bool" where
  "stays p \<longleftrightarrow> ps p = EntryStop \<and> orig_rax (regs p) \<noteq> SYS_exit_group"

lemma wait_survives:
  assumes "survives run" and "pids_ok s" and "stays (proc_of s v)"
  shows "waitVariant run v (resumeVariantFromWait v s) =
     Some (0, let (k, p) = run (world s) (pid (vars s v)) (ptrace_syscall (proc_of s v)) in ran v k p s)"
proof -
  have "ps (snd (run (world s) (pid (vars s v)) (ptrace_syscall (proc_of s v)))) = ExitStop"
    using assms(1,3) by (simp add: survives_def stays_def ptrace_syscall_def)
  then have "checkVariantExit (wait_status (snd (run (world s) (pid (vars s v))
      (ptrace_syscall (proc_of s v))))) = 0"
    by (intro check_stop) simp
  then show ?thesis
    using assms(2,3)
    by (cases "run (world s) (pid (vars s v)) (ptrace_syscall (proc_of s v))")
      (simp add: wait_returns stays_def)
qed

lemma stays_poke [simp]:
  "stays p \<Longrightarrow> n \<noteq> SYS_exit_group \<Longrightarrow> stays (pokeuser p 120 n)"
  by (simp add: stays_def poke_stopped)

lemma stays_seek [simp]:
  "stays p \<Longrightarrow> stays (setregs p ((regs p)\<lparr>rdi := x, rsi := y, rdx := z\<rparr>))"
  by (simp add: stays_def setregs_def)

section \<open>The interface\<close>

locale accepting_executor = sound_executor +
  assumes accepts: "survives run \<Longrightarrow> m \<noteq> r \<Longrightarrow> pids_ok s \<Longrightarrow> (\<forall>v. stays (proc_of s v)) \<Longrightarrow>
      agree checks s m r \<Longrightarrow> \<exists>s'. exec run m r s = Some (0, s')"
begin

lemma exact:
  "survives run \<Longrightarrow> m \<noteq> r \<Longrightarrow> pids_ok s \<Longrightarrow> (\<forall>v. stays (proc_of s v)) \<Longrightarrow>
   (\<exists>s'. exec run m r s = Some (0, s')) \<longleftrightarrow> agree checks s m r"
  using sound accepts by blast

end

text \<open>
  The executors that let both variants into the call and do nothing else, whatever the
  variants do, accept.
\<close>

locale resuming_executor = sound_executor +
  assumes resumes: "m \<noteq> r \<Longrightarrow> at_entry s \<Longrightarrow> agree checks s m r \<Longrightarrow>
      \<exists>s'. exec run m r s = Some (0, s') \<and> resumed_both s s' \<and> mmaps s' = mmaps s"

sublocale resuming_executor \<subseteq> accepting_executor
proof
  show "\<exists>s'. exec run m r s = Some (0, s')"
    if "m \<noteq> r" "pids_ok s" "\<forall>v. stays (proc_of s v)" "agree checks s m r" for run m r s
    using that resumes [of m r s run] by (auto simp: at_entry_def stays_def)
qed

text \<open>\<open>variantMemCmp\<close> changes the two global buffers only.\<close>

lemma resumed_after_cmp:
  "m \<noteq> r \<Longrightarrow> at_entry s \<Longrightarrow> resumed_both s (resume_both m r (snd (variantMemCmp v a w b n s)))"
  by (simp add: resumed_both_def resume_both_def effect_simps all_vptr_two [of m r])

lemma resume_both_mmaps: "mmaps (resume_both m r s) = mmaps s"
  by (simp add: resume_both_def)

lemmas resuming_simps = check_simps resume_both_resumed resumed_after_cmp resume_both_mmaps

lemmas accept_simps = check_simps wait_survives resume_both_def runMasterReplicateRet_def
  runBothCopyMasterRet_def

interpretation a_no_args: resuming_executor exec_no_args "[]"
  by unfold_locales (auto simp: exec_no_args_def resuming_simps)

interpretation a_brk: resuming_executor execSyscall_brk "[]"
  by unfold_locales (auto simp: execSyscall_brk_def resuming_simps)

interpretation a_setRobustList: resuming_executor execSyscall_setRobustList "[]"
  by unfold_locales (auto simp: execSyscall_setRobustList_def resuming_simps)

interpretation a_arch_prctl: resuming_executor execSyscall_arch_prctl "[Same 0]"
  by unfold_locales (auto simp: execSyscall_arch_prctl_def resuming_simps)

interpretation a_exit_group: resuming_executor execSyscall_exit_group "[Same 0]"
  by unfold_locales (auto simp: execSyscall_exit_group_def resuming_simps)

interpretation a_rt_sigaction: resuming_executor execSyscall_rt_sigaction "[Same 0]"
  by unfold_locales (auto simp: execSyscall_rt_sigaction_def resuming_simps)

interpretation a_prlimit64: resuming_executor execSyscall_prlimit64 "[Same 1]"
  by unfold_locales (auto simp: execSyscall_prlimit64_def resuming_simps)

interpretation a_rseq: resuming_executor execSyscall_rseq "[Same 1, Same 2, Same 3]"
  by unfold_locales (auto simp: execSyscall_rseq_def resuming_simps)

interpretation a_fadvise64: resuming_executor execSyscall_fadvise64 "[Same 0, Same 1, Same 2, Same 3]"
  by unfold_locales (auto simp: execSyscall_fadvise64_def resuming_simps)

interpretation a_lseek: resuming_executor execSyscall_lseek "[Same 0, Same 1, Same 2]"
  by unfold_locales (auto simp: execSyscall_lseek_def resuming_simps)

interpretation a_socket: resuming_executor execSyscall_socket "[Same 0, Same 1, Same 2]"
  by unfold_locales (auto simp: execSyscall_socket_def resuming_simps)

interpretation a_shutdown: accepting_executor execSyscall_shutdown "[Same 0, Same 1]"
  by unfold_locales (simp add: execSyscall_shutdown_def accept_simps)

interpretation a_close: accepting_executor execSyscall_close "[Same 0]"
  by unfold_locales (simp add: execSyscall_close_def accept_simps)

interpretation a_getpid: accepting_executor execSyscall_getpid "[]"
  by unfold_locales (simp add: execSyscall_getpid_def accept_simps)

interpretation a_fchmod: accepting_executor execSyscall_fchmod "[Same 0, Same 1]"
  by unfold_locales (simp add: execSyscall_fchmod_def accept_simps)

interpretation a_fchown: accepting_executor execSyscall_fchown "[Same 0, Same 1, Same 2]"
  by unfold_locales (simp add: execSyscall_fchown_def accept_simps)

interpretation a_listen: accepting_executor execSyscall_listen "[Same 0, Same 1]"
  by unfold_locales (simp add: execSyscall_listen_def accept_simps)

interpretation a_setTidAddress: accepting_executor execSyscall_setTidAddress "[]"
  by unfold_locales (simp add: execSyscall_setTidAddress_def accept_simps)

interpretation a_setsockopt: resuming_executor execSyscall_setsockopt "[Same 0, Same 1, Same 2, SameU32 4, SameMem 3 (Arg32 4)]"
  by unfold_locales (auto simp: execSyscall_setsockopt_def resuming_simps)

interpretation a_rt_sigprocmask: resuming_executor execSyscall_rt_sigprocmask "[SameIf 1 0, SameMem 1 (Arg64 3)]"
  by unfold_locales (auto simp: execSyscall_rt_sigprocmask_def resuming_simps)

interpretation a_bind: accepting_executor execSyscall_bind
  "[Same 0, SameU32 2, SameMem 1 (Arg32 2)]"
  by unfold_locales (auto simp: execSyscall_bind_def accept_simps)

interpretation a_write: accepting_executor execSyscall_write
  "[SameInt 0, Same 2, SameMem 1 (Arg64 2)]"
  by unfold_locales (auto simp: execSyscall_write_def accept_simps)

interpretation a_accept4: accepting_executor execSyscall_accept4
  "[Same 0, Same 3, SameMem 2 (Const 4)]"
  by unfold_locales (simp add: execSyscall_accept4_def accept_simps)

interpretation a_getsockname: accepting_executor execSyscall_getsockname
  "[Same 0, SameMem 2 (Const 4)]"
  by unfold_locales (simp add: execSyscall_getsockname_def accept_simps)

interpretation a_poll: accepting_executor execSyscall_poll
  "[Same 1, Same 2, SameMem 0 (ArgTimes8 1)]"
  by unfold_locales (auto simp: execSyscall_poll_def accept_simps transfer_accepts)

section \<open>The table\<close>

text \<open>The calls whose acceptance depends on nothing but their row of the table.\<close>

definition plain_calls :: "word64 list" where
  "plain_calls =
    [SYS_getuid, SYS_geteuid, SYS_getgid, SYS_getegid, SYS_brk, SYS_arch_prctl, SYS_close,
     SYS_write, SYS_set_tid_address, SYS_set_robust_list, SYS_rseq, SYS_fadvise64,
     SYS_prlimit64, SYS_rt_sigaction, SYS_rt_sigprocmask, SYS_fchown, SYS_fchmod, SYS_lseek,
     SYS_getpid, SYS_socket, SYS_setsockopt, SYS_bind, SYS_listen, SYS_accept4, SYS_poll,
     SYS_shutdown, SYS_getsockname]"

lemmas accepting_all =
  a_no_args.accepting_executor_axioms a_brk.accepting_executor_axioms
  a_setRobustList.accepting_executor_axioms a_arch_prctl.accepting_executor_axioms
  a_rt_sigaction.accepting_executor_axioms a_prlimit64.accepting_executor_axioms
  a_rseq.accepting_executor_axioms a_fadvise64.accepting_executor_axioms
  a_lseek.accepting_executor_axioms a_socket.accepting_executor_axioms
  a_shutdown.accepting_executor_axioms a_close.accepting_executor_axioms
  a_getpid.accepting_executor_axioms a_fchmod.accepting_executor_axioms
  a_fchown.accepting_executor_axioms a_listen.accepting_executor_axioms
  a_setTidAddress.accepting_executor_axioms a_setsockopt.accepting_executor_axioms
  a_rt_sigprocmask.accepting_executor_axioms a_bind.accepting_executor_axioms
  a_write.accepting_executor_axioms a_accept4.accepting_executor_axioms
  a_getsockname.accepting_executor_axioms a_poll.accepting_executor_axioms

lemma dispatch_accepting_all:
  "list_all2 (\<lambda>(n, e) (n', cs). n = n' \<and> (n \<in> set plain_calls \<longrightarrow> accepting_executor e cs))
     dispatch_table arg_checks"
  unfolding dispatch_table_def arg_checks_def plain_calls_def
  by (simp add: accepting_all del: One_nat_def)

lemmas dispatch_accepting = list_all2_map_of [OF dispatch_accepting_all]

text \<open>The calls that both variants make.\<close>

definition resume_calls :: "word64 list" where
  "resume_calls =
    [SYS_getuid, SYS_geteuid, SYS_getgid, SYS_getegid, SYS_brk, SYS_arch_prctl,
     SYS_set_robust_list, SYS_rseq, SYS_fadvise64, SYS_exit_group, SYS_prlimit64,
     SYS_rt_sigaction, SYS_rt_sigprocmask, SYS_lseek, SYS_socket, SYS_setsockopt]"

lemmas resuming_all =
  a_no_args.resuming_executor_axioms
  a_brk.resuming_executor_axioms
  a_setRobustList.resuming_executor_axioms
  a_arch_prctl.resuming_executor_axioms
  a_rt_sigaction.resuming_executor_axioms
  a_prlimit64.resuming_executor_axioms
  a_rseq.resuming_executor_axioms
  a_fadvise64.resuming_executor_axioms
  a_lseek.resuming_executor_axioms
  a_socket.resuming_executor_axioms
  a_setsockopt.resuming_executor_axioms
  a_rt_sigprocmask.resuming_executor_axioms
  a_exit_group.resuming_executor_axioms

lemma dispatch_resuming_all:
  "list_all2 (\<lambda>(n, e) (n', cs). n = n' \<and> (n \<in> set resume_calls \<longrightarrow> resuming_executor e cs))
     dispatch_table arg_checks"
  unfolding dispatch_table_def arg_checks_def resume_calls_def
  by (simp add: resuming_all del: One_nat_def)

lemmas dispatch_resuming = list_all2_map_of [OF dispatch_resuming_all]

text \<open>The records of the variants hold the information of their entry stops.\<close>

definition info_current :: "'k mvee \<Rightarrow> bool" where
  "info_current s \<longleftrightarrow> (\<forall>v. syscallInfo (vars s v) = get_syscall_info (proc_of s v))"

lemma info_current_entry:
  assumes "at_entry s" and "info_current s"
  shows "si_op (syscallInfo (vars s v)) = PTRACE_SYSCALL_INFO_ENTRY"
    and "nr s v = orig_rax (regs (proc_of s v))"
  using assms entry_info_sel [of "proc_of s v"] by (simp_all add: at_entry_def info_current_def nr_def)

text \<open>The executor that a permitted call is handed to, and the row it passes.\<close>

lemma sync_exec:
  fixes s :: "'k mvee"
  assumes "at_entry s" and "info_current s" and "permitted s m r"
  obtains e :: "'k exec" and cs where "\<And>run. processSyscallSync run m r s = e run m r s"
    and "map_of dispatch_table (nr s m) = Some e" and "map_of arg_checks (nr s m) = Some cs"
    and "agree cs s m r"
proof -
  obtain cs where cs: "nr s m = nr s r" "map_of arg_checks (nr s m) = Some cs" "agree cs s m r"
    using assms(3) by (auto simp: permitted_def split: option.splits)
  have "fst ` set arg_checks = fst ` set (dispatch_table :: (word64 \<times> 'k exec) list)"
    by (simp add: arg_checks_def dispatch_table_def)
  then have "map_of (dispatch_table :: (word64 \<times> 'k exec) list) (nr s m) \<noteq> None"
    using cs(2) by (metis map_of_eq_None_iff option.distinct(1))
  then obtain e where e: "map_of (dispatch_table :: (word64 \<times> 'k exec) list) (nr s m) = Some e"
    by blast
  have "processSyscallSync run m r s = e run m r s" for run
    using e cs(1) info_current_entry(1) [OF assms(1,2)] by (simp add: processSyscallSync_def)
  then show ?thesis using that e cs by blast
qed

lemma sync_accepts:
  fixes s :: "'k mvee"
  assumes "survives run" and "m \<noteq> r" and "at_entry s" and "info_current s"
    and "nr s m \<in> set plain_calls" and "permitted s m r"
  shows "\<exists>s'. processSyscallSync run m r s = Some (0, s')"
proof -
  obtain e :: "'k exec" and cs where e: "\<And>run. processSyscallSync run m r s = e run m r s"
      "map_of dispatch_table (nr s m) = Some e" "map_of arg_checks (nr s m) = Some cs" "agree cs s m r"
    using sync_exec [OF assms(3,4,6)] by metis
  then have acc: "accepting_executor e cs"
    using dispatch_accepting [OF e(2)] assms(5) by auto
  note nrs = info_current_entry(2) [OF assms(3,4)]
  have "nr s m = nr s r" "nr s m \<noteq> SYS_exit_group"
    using assms(5,6) by (auto simp: plain_calls_def permitted_def)
  then have "stays (proc_of s v)" for v
    using nrs [of v] assms(2,3) by (cases v; cases m; cases r) (simp_all add: stays_def at_entry_def)
  moreover have "pids_ok s" using assms(3) by (simp add: at_entry_def)
  ultimately show ?thesis
    using accepting_executor.accepts [OF acc assms(1,2) _ _ e(4)] e(1) by simp
qed

lemma sync_accepts_exit:
  assumes "at_entry s" and "info_current s" and "nr s m = SYS_exit_group" and "permitted s m r"
  shows "processSyscallSync run m r s = Some (0, resume_both m r s)"
  using assms info_current_entry(1) [OF assms(1,2)]
  by (simp add: processSyscallSync_def permitted_def arg_checks_def dispatch_table_def check_simps
      execSyscall_exit_group_def)

section \<open>A run of two variants that agree\<close>

text \<open>The variants get no signals and make the calls above, or exit.\<close>

definition plain_program :: "'k env \<Rightarrow> bool" where
  "plain_program run \<longleftrightarrow> survives run \<and>
     (\<forall>k i p. ps p = InUser \<longrightarrow> ps (snd (run k i p)) = EntryStop \<and>
        orig_rax (regs (snd (run k i p))) \<in> set (SYS_exit_group # plain_calls))"

lemma plain_alternates: "plain_program run \<Longrightarrow> ptrace_alternates run"
  by (simp add: plain_program_def survives_def)

lemma plain_round:
  assumes "plain_program run" and "safe n s" and "n < 2 ^ 64 - 1"
    and "is_running (ps (proc_of s v))"
    and "\<And>k p. run (world s) (pid (vars s v)) (proc_of s v) = (k, p) \<Longrightarrow> waiting s (other v) \<Longrightarrow>
      ps p = EntryStop \<Longrightarrow> num s v = num s (other v) \<Longrightarrow>
      permitted (arrived v k p s) Vmaster Vreplica"
  shows "\<exists>s'. child_event run v s = Some (Inr (), s') \<or>
     ps (proc_of s v) = InSyscall \<and> orig_rax (regs (proc_of s v)) = SYS_exit_group \<and>
     child_event run v s = Some (Inl 0, s')"
proof -
  obtain k p where run: "run (world s) (pid (vars s v)) (proc_of s v) = (k, p)"
    by fastforce
  have pids: "pids_ok s" and wt: "well_typed s" and cn: "\<And>v. unat (num s v) \<le> n"
    using assms(2) by (simp_all add: safe_def well_typed_def counted_def)
  have ev: "child_event run v s = do {
      let s1 = upd_proc v (\<lambda>_. p) (s\<lparr>world := k\<rparr>);
      if checkVariantExit (wait_status p) \<noteq> 0 then Some (Inl 0, s1) else do {
        (res, s2) \<leftarrow> processVariantEvent run v (other v) s1;
        Some (case res of Returned r \<Rightarrow> if r \<noteq> 0 then Inl 1 else Inr () | Exits c \<Rightarrow> Inl c, s2)
      }
    }"
    using assms(4) run by (simp add: child_event_def waitpid_def)
  show ?thesis
  proof (cases "ps (proc_of s v) = InSyscall")
    case True
    show ?thesis
    proof (cases "checkVariantExit (wait_status p) = 0")
      case ok: True
      then have "ps p = ExitStop"
        using run_exit_stop [OF plain_alternates [OF assms(1)] run True] by simp
      then show ?thesis using ev ok event_exit [OF _ pids] by simp
    next
      case False
      then have "ps p \<noteq> ExitStop" using check_stop [of p] by auto
      then have "orig_rax (regs (proc_of s v)) = SYS_exit_group"
        using assms(1) run True unfolding plain_program_def survives_def by (metis snd_conv)
      then show ?thesis using True False ev by simp
    qed
  next
    case False
    then have u: "ps (proc_of s v) = InUser"
      using assms(4) by (cases "ps (proc_of s v)") auto
    then have ent: "ps p = EntryStop" and call: "orig_rax (regs p) \<in> set (SYS_exit_group # plain_calls)"
      using assms(1) run unfolding plain_program_def by (metis snd_conv)+
    have ge: "num s v = num s (other v) \<or> num s (other v) < num s v"
      using assms(2,3) u cn [of "other v"] unfolding safe_def lockstep_two [OF other_neq(2) [of v]]
      by (auto simp: level_def ahead_def in_call_def word_less_nat_alt unat_count)
    show ?thesis
    proof (cases "num s v = num s (other v) \<and> state (vars s (other v)) = VSTATE_WAIT")
      case True
      then have w: "waiting s (other v)" using partner_waits [OF assms(2) u] by blast
      let ?t = "arrived v k p s"
      note at = both_at_entry [OF assms(2) w ent, of k]
      have perm: "permitted ?t Vmaster Vreplica"
        using assms(5) [OF run w ent] True by blast
      have "nr ?t Vmaster = nr ?t Vreplica" using perm by (simp add: permitted_def)
      then have "nr ?t Vmaster = orig_rax (regs p)"
        using at(3) [of v] pids by (cases v) simp_all
      moreover have "info_current ?t" using at(2) by (simp add: info_current_def)
      moreover have "survives run" using assms(1) by (simp add: plain_program_def)
      ultimately obtain s' where "processSyscallSync run Vmaster Vreplica ?t = Some (0, s')"
        using sync_accepts [OF _ _ at(1) _ _ perm] sync_accepts_exit [OF at(1) _ _ perm] call by auto
      then show ?thesis
        using True ent ev event_entry [OF ent pids other_neq(2)]
        by (simp add: check_stop sync_variants [OF wt] Let_def)
    next
      case False
      then show ?thesis
        using ge ent ev event_entry [OF ent pids other_neq(2)] by (auto simp: check_stop)
    qed
  qed
qed

end
