(* ===== verification/DispatchProps.thy ===== *)
theory DispatchProps
  imports CallProps Accepts
begin

text \<open>
  The calls of the switch that move no data, by what \<open>processSyscallSync\<close> makes of them when
  the two variants agree: both variants are let into the call, or the master makes it alone,
  or both make it and the master's result counts.
\<close>

text \<open>C16: The calls of \<open>resume_calls\<close> are made by both variants: if the two calls are permitted,
  both variants are let into the call with their registers, memory and counts unchanged, and
  neither the outside world nor the list of mappings has changed.\<close>

theorem resumed_calls_run:
  fixes s :: "'k mvee"
  assumes "m \<noteq> r" and "at_entry s" and "info_current s"
    and "nr s m \<in> set resume_calls" and "permitted s m r"
  shows "\<exists>s'. processSyscallSync run m r s = Some (0, s') \<and> resumed_both s s' \<and> mmaps s' = mmaps s"
proof -
  obtain e :: "'k exec" and cs where e: "\<And>run. processSyscallSync run m r s = e run m r s"
      "map_of dispatch_table (nr s m) = Some e" "map_of arg_checks (nr s m) = Some cs" "agree cs s m r"
    using sync_exec [OF assms(2,3,5)] by metis
  then have "resuming_executor e cs"
    using dispatch_resuming [OF e(2)] assms(4) by auto
  from resuming_executor.resumes [OF this assms(1,2) e(4)] e(1) show ?thesis by simp
qed

theorem resumed_calls_run_witness:
  "\<exists>s'. processSyscallSync (kernel 0 0) Vmaster Vreplica
      (pair_call SYS_setsockopt [3, 1, 2, 64, 4, 0] 65 [3, 1, 2, 128, 4, 0] 65) = Some (0, s') \<and>
     ps (proc_of s' Vreplica) = InSyscall"
proof -
  let ?s = "pair_call SYS_setsockopt [3, 1, 2, 64, 4, 0] 65 [3, 1, 2, 128, 4, 0] 65"
  have "permitted ?s Vmaster Vreplica" "info_current ?s"
    by (auto simp: permitted_def arg_checks_def machine_simps zext32_def info_current_def pair_call_def)
  from resumed_calls_run [OF _ at_entry_pair_call this(2) _ this(1), of "kernel 0 0"] show ?thesis
    by (auto simp: resume_calls_def resumed_both_def)
qed

text \<open>The arguments of the two wrappers below differ from the state in the buffers only.\<close>

definition same_machine :: "'k mvee \<Rightarrow> 'k mvee \<Rightarrow> bool" where
  "same_machine s t \<longleftrightarrow> procs t = procs s \<and> world t = world s \<and> vars t = vars s"

lemma same_machine_sel:
  assumes "same_machine s t"
  shows "proc_of t v = proc_of s v" "world t = world s" "num t v = num s v" "at_entry t = at_entry s"
    "steps_to run t = steps_to run s" "completed t = completed s"
  using assms
  by (simp_all add: same_machine_def proc_of_def num_def at_entry_def pids_ok_def steps_to_def
      completed_def fun_eq_iff)

definition replicated_calls :: "word64 list" where
  "replicated_calls = [SYS_getpid, SYS_fchmod, SYS_fchown, SYS_listen, SYS_bind]"

lemma replicated_exec:
  assumes "map_of dispatch_table n = Some e" and "map_of arg_checks n = Some cs"
    and "agree cs s m r" and "n \<in> set replicated_calls"
  shows "\<exists>t. e run m r s = runMasterReplicateRet run m r t \<and> same_machine s t"
proof -
  consider "n = SYS_getpid" | "n = SYS_fchmod" | "n = SYS_fchown" | "n = SYS_listen" | "n = SYS_bind"
    using assms(4) by (auto simp: replicated_calls_def)
  then show ?thesis
  proof cases
    case 5
    let ?t = "snd (variantMemCmp m (arg s m 1) r (arg s r 1) (zext32 (arg s m 2)) s)"
    have "e run m r s = runMasterReplicateRet run m r ?t"
      using assms(1-3) 5 by (auto simp: dispatch_table_def arg_checks_def execSyscall_bind_def check_simps)
    moreover have "same_machine s ?t" by (simp add: same_machine_def)
    ultimately show ?thesis by blast
  qed (use assms(1-3) in \<open>auto simp: dispatch_table_def arg_checks_def execSyscall_getpid_def
        execSyscall_fchmod_def execSyscall_fchown_def execSyscall_listen_def check_simps
        same_machine_def\<close>)
qed

text \<open>C18: Calls the master makes alone. For permitted calls of \<open>getpid\<close>, \<open>fchmod\<close>, \<open>fchown\<close>,
  \<open>listen\<close> and \<open>bind\<close> the master runs its call and the replica \<open>getpid\<close> in its place. If both
  survive, both go on in user code with the call counted, the replica with the master's result,
  truncated to an \<open>int\<close> and sign-extended, in \<open>rax\<close>; if the master dies in the call the
  replica is not touched and the result is -1, and if the replica dies it is -1.\<close>

theorem replicated_calls_run:
  fixes s :: "'k mvee"
  assumes "ptrace_alternates run" and "m \<noteq> r" and "at_entry s" and "info_current s"
    and "nr s m \<in> set replicated_calls" and "permitted s m r"
    and "steps_to run s m (world s) (proc_of s m) k1 p1"
    and "steps_to run s r k1 (with_call SYS_getpid (proc_of s r)) k2 p2"
  shows "\<exists>x s'. processSyscallSync run m r s = Some (x, s') \<and>
     (if is_dead (ps p1) then x = - 1 \<and> world s' = k1 \<and> proc_of s' r = proc_of s r
      else if is_dead (ps p2) then x = - 1 \<and> world s' = k2
      else x = 0 \<and> world s' = k2 \<and> completed s s' m p1 \<and>
           completed s s' r (with_rax (sext32 (rax (regs p1))) p2))"
proof -
  obtain e :: "'k exec" and cs where e: "\<And>run. processSyscallSync run m r s = e run m r s"
      "map_of dispatch_table (nr s m) = Some e" "map_of arg_checks (nr s m) = Some cs" "agree cs s m r"
    using sync_exec [OF assms(3,4,6)] by metis
  obtain t where t: "e run m r s = runMasterReplicateRet run m r t" "same_machine s t"
    using replicated_exec [OF e(2-4) assms(5)] by blast
  note same = same_machine_sel [OF t(2)]
  show ?thesis
    using master_alone [OF assms(1,2), of t k1 p1 k2 p2] assms(3,7,8) e(1) t(1) unfolding same by simp
qed

theorem replicated_calls_run_witness:
  "\<exists>s'. processSyscallSync (kernel 0 7) Vmaster Vreplica
      (pair_call SYS_bind [3, 64, 16, 0, 0, 0] 65 [3, 128, 16, 0, 0, 0] 65) = Some (0, s') \<and>
     rax (regs (proc_of s' Vreplica)) = 7 \<and> num s' Vreplica = 1"
proof -
  let ?s = "pair_call SYS_bind [3, 64, 16, 0, 0, 0] 65 [3, 128, 16, 0, 0, 0] 65"
  have "permitted ?s Vmaster Vreplica" "info_current ?s"
    by (auto simp: permitted_def arg_checks_def machine_simps zext32_def info_current_def pair_call_def)
  from replicated_calls_run [OF kernel_alternates _ at_entry_pair_call this(2) _ this(1)
      steps_kernel steps_kernel, of 0 7]
  show ?thesis by (auto simp: replicated_calls_def completed_def sext32_def)
qed

text \<open>C19: A permitted \<open>close\<close> is made by both variants, the master first; if both survive, the
  replica's result is replaced by the master's, as an \<open>int\<close>.\<close>

theorem close_runs:
  fixes s :: "'k mvee"
  assumes "ptrace_alternates run" and "m \<noteq> r" and "at_entry s" and "info_current s"
    and "nr s m = SYS_close" and "permitted s m r"
    and "steps_to run s m (world s) (proc_of s m) k1 p1"
    and "steps_to run s r k1 (proc_of s r) k2 p2"
  shows "\<exists>x s'. processSyscallSync run m r s = Some (x, s') \<and>
     (if is_dead (ps p1) then x = - 1 \<and> world s' = k1 \<and> proc_of s' r = proc_of s r
      else if is_dead (ps p2) then x = - 1 \<and> world s' = k2
      else x = 0 \<and> world s' = k2 \<and> completed s s' m p1 \<and>
           completed s s' r (with_rax (sext32 (rax (regs p1))) p2))"
proof -
  obtain e :: "'k exec" and cs where e: "\<And>run. processSyscallSync run m r s = e run m r s"
      "map_of dispatch_table (nr s m) = Some e" "map_of arg_checks (nr s m) = Some cs" "agree cs s m r"
    using sync_exec [OF assms(3,4,6)] by metis
  then have "e run m r s = runBothCopyMasterRet run m r s"
    using assms(5) by (auto simp: dispatch_table_def arg_checks_def execSyscall_close_def check_simps)
  with both_run [OF assms(1-3,7,8)] e(1) show ?thesis by simp
qed

theorem close_runs_witness:
  "\<exists>s'. processSyscallSync (kernel 0 7) Vmaster Vreplica
      (pair_call SYS_close [3, 0, 0, 0, 0, 0] 0 [3, 0, 0, 0, 0, 0] 0) = Some (0, s') \<and>
     rax (regs (proc_of s' Vreplica)) = 7 \<and> num s' Vreplica = 1"
proof -
  let ?s = "pair_call SYS_close [3, 0, 0, 0, 0, 0] 0 [3, 0, 0, 0, 0, 0] 0"
  have "permitted ?s Vmaster Vreplica" "info_current ?s"
    by (auto simp: permitted_def arg_checks_def machine_simps info_current_def pair_call_def)
  from close_runs [OF kernel_alternates _ at_entry_pair_call this(2) _ this(1)
      steps_kernel steps_kernel, of 0 7]
  show ?thesis by (auto simp: completed_def sext32_def)
qed

end
