(* ===== verification/DirectTransfer.thy ===== *)
theory DirectTransfer
  imports Effects
begin

text \<open>
  The code of \<open>monitor.c\<close> and \<open>variant.c\<close> that only a build with \<open>USE_DIRECT_TRANSFER\<close> has:
  before its first call a variant is made to give up \<open>CAP_SYS_PTRACE\<close>, by a call of \<open>capset\<close>
  that the monitor injects after the exit of \<open>brk\<close>; the data of a read is to be copied by a
  call of \<open>process_vm_readv\<close> that the replica is made to make.

  What \<open>capget\<close> returns for a process is the kernel's answer, a parameter. So is the effect of
  the two \<open>ptrace\<close> requests to which \<open>transferVariantMemDirect\<close> hands \<open>regs\<close> by value: their
  data argument is indeterminate.
\<close>

section \<open>Capabilities\<close>

record user_cap_data =
  effective :: word32
  permitted_caps :: word32
  inheritable :: word32

abbreviation (input) SYS_capset :: word64 where "SYS_capset \<equiv> 126"

text \<open>\<open>CAP_SYS_PTRACE\<close> is 19: bit 19 of the first of the two structs.\<close>

definition CAP_MASK :: word32 where
  "CAP_MASK = push_bit 19 1"

text \<open>A buffer that holds 32-bit words, in memory order.\<close>

definition words32 :: "word32 list \<Rightarrow> buffer" where
  "words32 ws i = (if i div 4 < length ws then ucast (drop_bit (8 * (i mod 4)) (ws ! (i div 4))) else 0)"

definition cap_header :: "int \<Rightarrow> buffer" where
  "cap_header p = words32 [0x20080522, word_of_int p]"

definition cap_bytes :: "user_cap_data \<Rightarrow> user_cap_data \<Rightarrow> buffer" where
  "cap_bytes c d = words32
     [effective c, permitted_caps c, inheritable c, effective d, permitted_caps d, inheritable d]"

text \<open>The change of \<open>capdata\<close>; \<open>assert(0)\<close> for any state but 0 and 1.\<close>

definition set_ptrace_cap :: "int \<Rightarrow> user_cap_data \<Rightarrow> user_cap_data option" where
  "set_ptrace_cap newState c =
     (if newState = 0 then Some (c\<lparr>effective := effective c AND NOT CAP_MASK\<rparr>)
      else if newState = 1 then Some (c\<lparr>effective := effective c OR CAP_MASK\<rparr>)
      else None)"

section \<open>Memory without ptrace\<close>

text \<open>
  In this configuration \<open>USE_PTRACE_TRANSFER\<close> is not defined either: \<open>readVariantMem\<close> and
  \<open>writeVariantMem\<close> are one \<open>process_vm_readv\<close> or \<open>process_vm_writev\<close>, which by their
  documentation do not split the one buffer they are given.
\<close>

definition readVariantMem_vm ::
    "vptr \<Rightarrow> buffer \<Rightarrow> word64 \<Rightarrow> word64 \<Rightarrow> 'k mvee \<Rightarrow> word64 \<times> buffer" where
  "readVariantMem_vm v localBuf remoteBuf sz s =
     (if sz > BUF_SIZE then (- 1, localBuf)
      else let p = proc_of s v
           in if \<not> is_dead (ps p) \<and> mapped (mem p) remoteBuf (unat sz)
              then (sz, \<lambda>i. if i < unat sz then the (mem p (remoteBuf + of_nat i)) else localBuf i)
              else (- 1, localBuf))"

definition writeVariantMem_vm ::
    "vptr \<Rightarrow> buffer \<Rightarrow> word64 \<Rightarrow> word64 \<Rightarrow> 'k mvee \<Rightarrow> word64 \<times> 'k mvee" where
  "writeVariantMem_vm v localBuf remoteBuf sz s =
     (let p = proc_of s v
      in if \<not> is_dead (ps p) \<and> mapped (mem p) remoteBuf (unat sz)
         then (sz, upd_proc v (\<lambda>p. p\<lparr>mem := overwrite (mem p) remoteBuf (unat sz) localBuf\<rparr>) s)
         else (- 1, s))"

lemma write_vm_frame [simp]:
  "vars (snd (writeVariantMem_vm v b a n s)) = vars s"
  "world (snd (writeVariantMem_vm v b a n s)) = world s"
  "pids_ok (snd (writeVariantMem_vm v b a n s)) = pids_ok s"
  "pids_ok s \<Longrightarrow> w \<noteq> v \<Longrightarrow> proc_of (snd (writeVariantMem_vm v b a n s)) w = proc_of s w"
  by (simp_all add: writeVariantMem_vm_def Let_def)

text \<open>
  Where the loops over longs are right, both builds do the same: a write of less than a long or
  of whole longs, a read up to the size asked for.
\<close>

lemma write_vm_same:
  assumes "pids_ok s" and "stopped (proc_of s v)" and "mapped (mem (proc_of s v)) a (max 8 (unat n))"
    and "whole_words (unat n)" and "unat n < 2 ^ 63"
  shows "writeVariantMem v b a n s = writeVariantMem_vm v b a n s"
proof -
  have "written b (unat n) = b" using written_whole [OF assms(4)] by (simp add: fun_eq_iff)
  moreover have "mapped (mem (proc_of s v)) a (unat n)"
    using assms(3) by (simp add: mapped_def)
  moreover have "\<not> is_dead (ps (proc_of s v))"
    using assms(2) by (cases "ps (proc_of s v)") simp_all
  ultimately show ?thesis
    using write_proc_eq [OF assms(2,3,5), of b]
    by (simp add: writeVariantMem_def writeVariantMem_vm_def upd_proc_def Let_def)
qed

lemma read_vm_same:
  assumes "stopped (proc_of s v)" and "mapped (mem (proc_of s v)) a (words8 (unat n))" and "n \<le> BUF_SIZE"
  shows "fst (readVariantMem v b a n s) = fst (readVariantMem_vm v b a n s)"
    and "i < unat n \<Longrightarrow> snd (readVariantMem v b a n s) i = snd (readVariantMem_vm v b a n s) i"
proof -
  have "mapped (mem (proc_of s v)) a (unat n)"
    using assms(2) words8_bounds(1) [of "unat n"] by (simp add: mapped_def)
  moreover have "\<not> is_dead (ps (proc_of s v))"
    using assms(1) by (cases "ps (proc_of s v)") simp_all
  moreover have "\<not> n > BUF_SIZE" using assms(3) by simp
  ultimately show "fst (readVariantMem v b a n s) = fst (readVariantMem_vm v b a n s)"
    and "i < unat n \<Longrightarrow> snd (readVariantMem v b a n s) i = snd (readVariantMem_vm v b a n s) i"
    using read_byte_mapped [OF assms(1,2), of i] words8_bounds(1) [of "unat n"]
    by (simp_all add: readVariantMem_def readVariantMem_vm_def read_mem_eq [OF assms(3)])
qed

section \<open>The injected call\<close>

type_synonym 'k capget = "'k \<Rightarrow> int \<Rightarrow> (user_cap_data \<times> user_cap_data) option"

definition variantChangePtraceCap ::
    "'k capget \<Rightarrow> 'k env \<Rightarrow> vptr \<Rightarrow> int \<Rightarrow> 'k mvee \<Rightarrow> (int \<times> 'k mvee) option" where
  "variantChangePtraceCap capget run v newState s = do {
     let s = upd_proc v (\<lambda>p. setregs p ((regs p)\<lparr>rip := rip (regs p) - 2\<rparr>)) s;
     let s = upd_proc v ptrace_syscall s;
     (r, s) \<leftarrow> waitVariant run v s;
     if r \<noteq> 0 then Some (- 1, s) else
       (case capget (world s) (pid (vars s v)) of
          None \<Rightarrow> Some (- 1, s)
        | Some (c, d) \<Rightarrow> do {
            c \<leftarrow> set_ptrace_cap newState c;
            let headerAddr = stack_pointer (syscallInfo (vars s v)) - 8;
            let dataAddr = headerAddr - 12 * 2;
            let (_, s) = writeVariantMem_vm v (cap_header (pid (vars s v))) headerAddr 8 s;
            let (_, s) = writeVariantMem_vm v (cap_bytes c d) dataAddr (12 * 2) s;
            let s = upd_proc v (\<lambda>p. setregs p
                      ((regs p)\<lparr>orig_rax := SYS_capset, rdi := headerAddr, rsi := dataAddr\<rparr>)) s;
            let s = upd_proc v ptrace_syscall s;
            (_, s) \<leftarrow> waitpid run v s;
            Some (0, s)
          })
   }"

definition dropVariantsCap ::
    "'k capget \<Rightarrow> 'k env \<Rightarrow> vptr \<Rightarrow> 'k mvee \<Rightarrow> (int \<times> 'k mvee) option" where
  "dropVariantsCap capget run v s = (
     let originalCall = (ucast (nr s v) :: word32)
     in if originalCall \<noteq> ucast (SYS_brk :: word64) then Some (- 1, s) else do {
          let s = upd_proc v ptrace_syscall s;
          (r, s) \<leftarrow> waitVariant run v s;
          if r \<noteq> 0 then Some (- 1, s) else do {
            let s = requestSyscallInfo v s;
            let ret = sext32 (rval s v);
            (_, s) \<leftarrow> variantChangePtraceCap capget run v 0 s;
            let s = setSyscallReturnValue v ret s;
            let s = resumeVariantFromWait v s;
            Some (0, s)
          }
        })"

text \<open>
  The block that this configuration adds to \<open>processSyscallSync\<close>, before its switch:
  \<open>first_call\<close> is the global \<open>firstCall\<close>. The results of the two calls are not looked at.
\<close>

definition drop_first ::
    "'k capget \<Rightarrow> 'k env \<Rightarrow> vptr \<Rightarrow> vptr \<Rightarrow> 'k mvee \<Rightarrow> (int \<times> 'k mvee) option" where
  "drop_first capget run master replica s = do {
     (_, s) \<leftarrow> dropVariantsCap capget run master s;
     (_, s) \<leftarrow> dropVariantsCap capget run replica s;
     Some (0, s)
   }"

lemma drop_first_not_brk:
  assumes "\<And>v. v \<in> {m, r} \<Longrightarrow> (ucast (nr s v) :: word32) \<noteq> ucast (SYS_brk :: word64)"
  shows "drop_first capget run m r s = Some (0, s)"
  using assms by (simp add: drop_first_def dropVariantsCap_def)

section \<open>The direct transfer\<close>

text \<open>
  The effects of \<open>PTRACE_GETREGS\<close>, which stores the registers of the tracee at an unknown
  address of the monitor, and of \<open>PTRACE_SETREGS\<close>, which reads them from one (None: the request
  fails). The statement \<open>regs.rip -= 2\<close> between them changes a local variable that is next
  overwritten.
\<close>

record 'k wild_requests =
  wild_getregs :: "'k mvee \<Rightarrow> 'k mvee"
  wild_setregs :: "'k mvee \<Rightarrow> user_regs_struct option"

abbreviation (input) SYS_process_vm_readv :: word64 where "SYS_process_vm_readv \<equiv> 310"

text \<open>\<open>struct iovec\<close>: an address and a length.\<close>

definition iovec_bytes :: "word64 \<Rightarrow> word64 \<Rightarrow> buffer" where
  "iovec_bytes base n i = (if i < 8 then byte_of base i else if i < 16 then byte_of n (i - 8) else 0)"

definition transferVariantMemDirect ::
    "'k wild_requests \<Rightarrow> 'k capget \<Rightarrow> 'k env \<Rightarrow> vptr \<Rightarrow> word64 \<Rightarrow> vptr \<Rightarrow> word64 \<Rightarrow> word64 \<Rightarrow>
     'k mvee \<Rightarrow> (int \<times> 'k mvee) option" where
  "transferVariantMemDirect wild capget run sourceV sourceVBuf destV destVBuf sz s = do {
     (r, s) \<leftarrow> variantChangePtraceCap capget run destV 1 s;
     if r \<noteq> 0 then Some (- 1, s) else do {
       let s = wild_getregs wild s;
       let s = (case wild_setregs wild s of
                  None \<Rightarrow> s | Some g \<Rightarrow> upd_proc destV (\<lambda>p. setregs p g) s);
       let s = upd_proc destV ptrace_syscall s;
       (r, s) \<leftarrow> waitVariant run destV s;
       if r \<noteq> 0 then Some (- 1, s) else do {
         let localAddr = stack_pointer (syscallInfo (vars s destV)) - 16;
         let remoteAddr = stack_pointer (syscallInfo (vars s sourceV)) - 16 * 2;
         let (_, s) = writeVariantMem_vm destV (iovec_bytes destVBuf sz) localAddr 16 s;
         let (_, s) = writeVariantMem_vm destV (iovec_bytes sourceVBuf sz) remoteAddr 16 s;
         let source = word_of_int (pid (vars s sourceV));
         let s = upd_proc destV (\<lambda>p. setregs p
                   ((regs p)\<lparr>orig_rax := SYS_process_vm_readv, rdi := source, rsi := localAddr,
                             rdx := 1, r10 := remoteAddr, r8 := 1, r9 := 0\<rparr>)) s;
         let s = upd_proc destV ptrace_syscall s;
         (_, s) \<leftarrow> waitpid run destV s;
         let s = requestSyscallInfo destV s;
         if rval s destV = - 1 then Some (- 1, s)
         else if rval s destV \<noteq> sz then Some (- 1, s)
         else do {
           (r, s) \<leftarrow> variantChangePtraceCap capget run destV 0 s;
           if r \<noteq> 0 then Some (- 1, s) else Some (0, s)
         }
       }
     }
   }"

text \<open>\<open>execSyscall_read\<close> in this configuration: the replica keeps the result of its \<open>lseek\<close>.\<close>

definition execSyscall_read_direct :: "'k wild_requests \<Rightarrow> 'k capget \<Rightarrow> 'k exec" where
  "execSyscall_read_direct wild capget run master replica s = (
     let masterFd = sext32 (arg s master 0);
         eq = (masterFd = arg s replica 0);
         masterBuf = arg s master 1;
         replicaBuf = arg s replica 1;
         eq = (eq \<and> arg s master 2 = arg s replica 2)
     in if \<not> eq then Some (- 1, s) else do {
          let s = resumeVariantFromWait master s;
          (r, s) \<leftarrow> waitVariant run master s;
          if r \<noteq> 0 then Some (- 1, s) else do {
            let s = requestSyscallInfo master s;
            let bytesRead = rval s master;
            (ret, s) \<leftarrow> (if bytesRead \<noteq> - 1
                        then transferVariantMemDirect wild capget run master masterBuf
                               replica replicaBuf bytesRead s
                        else Some (0, s));
            if ret \<noteq> 0 then Some (- 1, s) else do {
              let s = set_lseek_args replica masterFd bytesRead s;
              let s = setSyscall replica SYS_lseek s;
              let s = resumeVariantFromWait replica s;
              (r, s) \<leftarrow> waitVariant run replica s;
              if r \<noteq> 0 then Some (- 1, s) else do {
                let s = resumeVariantFromExit master s;
                let s = resumeVariantFromExit replica s;
                Some (0, s)
              }
            }
          }
        })"

text \<open>
  \<open>processSyscallSync\<close> in this configuration; the global \<open>firstCall\<close> is an argument and, as it
  is after the call, a result. The other executors, built with the memory operations above, are
  an argument.
\<close>

definition processSyscallSync_direct ::
    "'k wild_requests \<Rightarrow> 'k capget \<Rightarrow> (word64 \<times> 'k exec) list \<Rightarrow> 'k env \<Rightarrow> vptr \<Rightarrow> vptr \<Rightarrow> bool \<Rightarrow>
     'k mvee \<Rightarrow> (int \<times> bool \<times> 'k mvee) option" where
  "processSyscallSync_direct wild capget executors run master replica firstCall s =
     (if si_op (syscallInfo (vars s master)) \<noteq> si_op (syscallInfo (vars s replica))
      then Some (- 1, firstCall, s)
      else if nr s master \<noteq> nr s replica then Some (- 1, firstCall, s)
      else if firstCall then do {
        (r, s) \<leftarrow> drop_first capget run master replica s;
        Some (r, False, s)
      }
      else (case map_of ((SYS_read, execSyscall_read_direct wild capget) # executors) (nr s master) of
              Some exec \<Rightarrow> do {
                (r, s) \<leftarrow> exec run master replica s;
                Some (r, firstCall, s)
              }
            | None \<Rightarrow> Some (- 1, firstCall, s)))"

text \<open>
  The child of \<open>createVariant\<close>: \<open>cap_get_proc\<close>, \<open>cap_set_flag\<close> (both uses) and \<open>cap_set_proc\<close>
  may fail; a failing \<open>prctl\<close> is only reported.
\<close>

definition child_start_direct :: "bool \<Rightarrow> bool \<Rightarrow> bool \<Rightarrow> bool \<Rightarrow> proc option \<Rightarrow> proc \<Rightarrow> proc" where
  "child_start_direct got flagged applied affinity_ok img child =
     (if \<not> got then child\<lparr>ps := Exited 1\<rparr>
      else if \<not> flagged then child\<lparr>ps := Exited 1\<rparr>
      else if \<not> applied then child\<lparr>ps := Exited 1\<rparr>
      else child_start affinity_ok img child)"

section \<open>What happens to the variant\<close>

text \<open>The variant goes back to its \<open>syscall\<close> instruction; at its next stop the call is changed.\<close>

definition stepped_back :: "proc \<Rightarrow> proc" where
  "stepped_back p = p\<lparr>regs := (regs p)\<lparr>rip := rip (regs p) - 2\<rparr>\<rparr>"

definition rewound :: "proc \<Rightarrow> proc" where
  "rewound p = (stepped_back p)\<lparr>ps := InUser\<rparr>"

definition injected :: "word64 \<Rightarrow> buffer \<Rightarrow> buffer \<Rightarrow> proc \<Rightarrow> proc" where
  "injected sp h d p =
     (let q = patched (patched p (sp - 8) 8 h) (sp - 32) 24 d
      in q\<lparr>regs := (regs p)\<lparr>orig_rax := SYS_capset, rdi := sp - 8, rsi := sp - 32\<rparr>\<rparr>)"

lemma write_vm:
  assumes "pids_ok s" and "stopped (proc_of s v)" and "mapped (mem (proc_of s v)) a (unat n)"
  shows "proc_of (snd (writeVariantMem_vm v b a n s)) w =
     (if w = v then patched (proc_of s v) a (unat n) b else proc_of s w)"
  using assms by (cases "ps (proc_of s v)") (simp_all add: writeVariantMem_vm_def patched_def Let_def)

lemma mapped_patched: "mapped (mem p) x k \<Longrightarrow> mapped (mem (patched p a n f)) x k"
  by (auto simp: mapped_def patched_def overwrite_def)

text \<open>Whatever the two stops are at which the variant is resumed.\<close>

lemma change_cap:
  assumes "pids_ok s" and "stopped (proc_of s v)"
    and "run (world s) (pid (vars s v)) (ptrace_syscall (stepped_back (proc_of s v))) = (k2, p2)"
    and "stopped p2"
    and "capget k2 (pid (vars s v)) = Some (c, d)" and "set_ptrace_cap st c = Some c'"
    and "sp = stack_pointer (syscallInfo (vars s v))" and "mapped (mem p2) (sp - 32) 32"
    and "run k2 (pid (vars s v))
      (ptrace_syscall (injected sp (cap_header (pid (vars s v))) (cap_bytes c' d) p2)) = (k3, p3)"
  shows "\<exists>s'. variantChangePtraceCap capget run v st s = Some (0, s') \<and> world s' = k3 \<and>
     vars s' = vars s \<and> (\<forall>w. proc_of s' w = (if w = v then p3 else proc_of s w))"
proof -
  let ?h = "cap_header (pid (vars s v))" and ?d = "cap_bytes c' d"
  let ?s1 = "upd_proc v (\<lambda>p. setregs p ((regs p)\<lparr>rip := rip (regs p) - 2\<rparr>)) s"
  define s2 where "s2 = upd_proc v (\<lambda>_. p2) ((upd_proc v ptrace_syscall ?s1)\<lparr>world := k2\<rparr>)"
  have runs: "is_running (resumed x)" if "is_stop x" for x using that by (cases x) simp_all
  have set: "setregs (proc_of s v) ((regs (proc_of s v))\<lparr>rip := rip (regs (proc_of s v)) - 2\<rparr>) =
      stepped_back (proc_of s v)"
    using assms(2) by (simp add: setregs_def stepped_back_def)
  then have w1: "waitVariant run v (upd_proc v ptrace_syscall ?s1) = Some (0, s2)"
    using assms(1-4) runs by (simp add: waitVariant_def waitpid_def s2_def check_stop stepped_back_def)
  have s2: "pids_ok s2" "vars s2 = vars s" "world s2 = k2" "proc_of s2 u = (if u = v then p2 else proc_of s u)" for u
    using assms(1) by (simp_all add: s2_def)
  have m2: "mapped (mem p2) (sp - 8) 8" "mapped (mem p2) (sp - 32) 24"
    using mapped_sub [OF assms(8), of 24 8] mapped_sub [OF assms(8), of 0 24] by simp_all
  define s3 where "s3 = snd (writeVariantMem_vm v ?h (sp - 8) 8 s2)"
  have s3: "pids_ok s3" "vars s3 = vars s" "world s3 = k2"
      "proc_of s3 u = (if u = v then patched p2 (sp - 8) 8 ?h else proc_of s u)" for u
    using s2 write_vm [of s2 v "sp - 8" 8 ?h] m2(1) assms(4)
    by (simp_all add: s3_def)
  define s4 where "s4 = snd (writeVariantMem_vm v ?d (sp - 32) 24 s3)"
  have s4: "pids_ok s4" "vars s4 = vars s" "world s4 = k2"
      "proc_of s4 u = (if u = v then patched (patched p2 (sp - 8) 8 ?h) (sp - 32) 24 ?d else proc_of s u)" for u
    using s3 write_vm [of s3 v "sp - 32" 24 ?d] mapped_patched [OF m2(2)] assms(4)
    by (simp_all add: s4_def)
  let ?s5 = "upd_proc v ptrace_syscall (upd_proc v (\<lambda>p. setregs p
      ((regs p)\<lparr>orig_rax := SYS_capset, rdi := sp - 8, rsi := sp - 32\<rparr>)) s4)"
  have "proc_of ?s5 v = ptrace_syscall (injected sp ?h ?d p2)"
    using s4 assms(4) by (simp add: injected_def setregs_def Let_def patched_def)
  moreover have "is_running (ps (ptrace_syscall (injected sp ?h ?d p2)))"
    using assms(4) runs by (simp add: injected_def Let_def)
  ultimately have "waitpid run v ?s5 = Some (wait_status p3, upd_proc v (\<lambda>_. p3) (?s5\<lparr>world := k3\<rparr>))"
    using assms(9) s4 by (simp add: waitpid_def)
  moreover have "pids_ok ?s5" using s4(1) by simp
  ultimately show ?thesis
    using w1 s2 assms(5,6,7)
    by (intro exI [of _ "upd_proc v (\<lambda>_. p3) (?s5\<lparr>world := k3\<rparr>)"])
      (simp add: variantChangePtraceCap_def Let_def case_prod_beta s3_def s4_def)
qed

text \<open>From an exit stop, as its comments say: back to the instruction, and \<open>capset\<close> in its place.\<close>

lemma change_cap_runs:
  assumes "pids_ok s" and "ps (proc_of s v) = ExitStop"
    and "run (world s) (pid (vars s v)) (rewound (proc_of s v)) = (k2, p2)" and "ps p2 = EntryStop"
    and "capget k2 (pid (vars s v)) = Some (c, d)" and "set_ptrace_cap st c = Some c'"
    and "sp = stack_pointer (syscallInfo (vars s v))" and "mapped (mem p2) (sp - 32) 32"
    and "steps_to run s v k2 (injected sp (cap_header (pid (vars s v))) (cap_bytes c' d) p2) k3 p3"
  shows "\<exists>s'. variantChangePtraceCap capget run v st s = Some (0, s') \<and> world s' = k3 \<and>
     vars s' = vars s \<and> (\<forall>w. proc_of s' w = (if w = v then p3 else proc_of s w))"
proof -
  have "ps (injected sp (cap_header (pid (vars s v))) (cap_bytes c' d) p2) = EntryStop"
    using assms(4) by (simp add: injected_def Let_def)
  from ptrace_syscall_entry(1) [OF this]
  have "run k2 (pid (vars s v)) (ptrace_syscall (injected sp (cap_header (pid (vars s v)))
      (cap_bytes c' d) p2)) = (k3, p3)"
    using assms(9) by (simp add: steps_to_def)
  moreover have "run (world s) (pid (vars s v)) (ptrace_syscall (stepped_back (proc_of s v))) = (k2, p2)"
    using assms(2,3) by (simp add: stepped_back_def rewound_def ptrace_syscall_def)
  ultimately show ?thesis
    using assms(1,2,4-8)
    by (intro change_cap [where ?k2.0 = k2 and ?p2.0 = p2 and c = c and d = d and c' = c' and sp = sp])
      simp_all
qed

text \<open>
  From an entry stop, where \<open>transferVariantMemDirect\<close> starts it: the call in progress, with its
  own number, is let into the kernel and runs to its end; the change of \<open>orig_rax\<close> comes at
  the exit stop, and the variant goes on in user code.
\<close>

lemma change_cap_at_entry:
  assumes "ptrace_alternates run" and "pids_ok s" and "ps (proc_of s v) = EntryStop"
    and "steps_to run s v (world s) (stepped_back (proc_of s v)) k2 p2" and "\<not> is_dead (ps p2)"
    and "capget k2 (pid (vars s v)) = Some (c, d)" and "set_ptrace_cap st c = Some c'"
    and "sp = stack_pointer (syscallInfo (vars s v))" and "mapped (mem p2) (sp - 32) 32"
    and "run k2 (pid (vars s v))
      ((injected sp (cap_header (pid (vars s v))) (cap_bytes c' d) p2)\<lparr>ps := InUser\<rparr>) = (k3, p3)"
  shows "\<exists>s'. variantChangePtraceCap capget run v st s = Some (0, s') \<and> world s' = k3 \<and>
     vars s' = vars s \<and> (\<forall>w. proc_of s' w = (if w = v then p3 else proc_of s w))"
proof -
  have e: "ps p2 = ExitStop" using stops_at_exit(1) [OF assms(1,4)] assms(5) by blast
  have "ps (injected sp (cap_header (pid (vars s v))) (cap_bytes c' d) p2) = ExitStop"
    using e by (simp add: injected_def Let_def)
  from ptrace_syscall_entry(2) [OF this]
  have "run k2 (pid (vars s v)) (ptrace_syscall (injected sp (cap_header (pid (vars s v)))
      (cap_bytes c' d) p2)) = (k3, p3)"
    using assms(10) by simp
  moreover have "ps (stepped_back (proc_of s v)) = EntryStop" using assms(3) by (simp add: stepped_back_def)
  from ptrace_syscall_entry(1) [OF this]
  have "run (world s) (pid (vars s v)) (ptrace_syscall (stepped_back (proc_of s v))) = (k2, p2)"
    using assms(4) by (simp add: steps_to_def)
  ultimately show ?thesis
    using assms(2,3,6-9) e
    by (intro change_cap [where ?k2.0 = k2 and ?p2.0 = p2 and c = c and d = d and c' = c' and sp = sp])
      simp_all
qed

text \<open>
  So a read in this configuration is made by the replica too: the first thing that
  \<open>transferVariantMemDirect\<close> does is to let it into the kernel, from its entry stop, with the
  number of the read; whatever that call does to the replica and the outside world is done.
\<close>

lemma direct_read_reads_twice:
  assumes "ptrace_alternates run" and "m \<noteq> r" and "at_entry s" and "agree [SameInt 0, Same 2] s m r"
    and "steps_to run s m (world s) (proc_of s m) k1 p1" and "\<not> is_dead (ps p1)"
    and "rax (regs p1) \<noteq> - 1"
    and "steps_to run s r k1 (stepped_back (proc_of s r)) k2 p2" and "is_dead (ps p2)"
  shows "orig_rax (regs (stepped_back (proc_of s r))) = orig_rax (regs (proc_of s r))"
    and "\<exists>s'. execSyscall_read_direct wild capget run m r s = Some (- 1, s') \<and> world s' = k2 \<and>
      proc_of s' r = p2"
proof -
  show "orig_rax (regs (stepped_back (proc_of s r))) = orig_rax (regs (proc_of s r))"
    by (simp add: stepped_back_def)
  note at = at_entry_two [OF assms(2,3)]
  note w1 = wait_exit [OF assms(1) at(2,3) assms(5,6)]
  let ?t = "master_done m k1 p1 s"
  let ?u = "upd_proc r (\<lambda>_. p2) ((upd_proc r ptrace_syscall (upd_proc r (\<lambda>p. setregs p
      ((regs p)\<lparr>rip := rip (regs p) - 2\<rparr>)) ?t))\<lparr>world := k2\<rparr>)"
  have "ptrace_syscall (setregs (proc_of s r) ((regs (proc_of s r))\<lparr>rip := rip (regs (proc_of s r)) - 2\<rparr>)) =
      (stepped_back (proc_of s r))\<lparr>ps := InSyscall\<rparr>"
    using at(4) by (simp add: setregs_def stepped_back_def ptrace_syscall_def)
  then have "variantChangePtraceCap capget run r 1 ?t = Some (- 1, ?u)"
    using assms(8) at(1,2,4) stops_at_exit(2) [OF assms(1,8)] assms(9)
    by (simp add: variantChangePtraceCap_def waitVariant_def waitpid_def steps_to_def Let_def)
  then have "execSyscall_read_direct wild capget run m r s = Some (- 1, ?u)"
    using assms(4,7) w1 at(2)
    by (simp add: execSyscall_read_direct_def check_simps transferVariantMemDirect_def
        master_done_def [symmetric])
  then show "\<exists>s'. execSyscall_read_direct wild capget run m r s = Some (- 1, s') \<and> world s' = k2 \<and>
      proc_of s' r = p2"
    using at(2) by simp
qed

lemma exit_stack: "ps p = ExitStop \<Longrightarrow> stack_pointer (get_syscall_info p) = rsp (regs p)"
  by (simp add: get_syscall_info_def)

text \<open>C40: With \<open>USE_DIRECT_TRANSFER\<close>, a variant at its first call, which is \<open>brk\<close>, runs it, goes
  back to its \<open>syscall\<close> instruction and makes \<open>capset\<close> instead, with the header and the
  capability sets, \<open>CAP_SYS_PTRACE\<close> cleared in the effective one, in the 32 bytes below its
  stack pointer; then it goes on in user code, uncounted, with the result of \<open>brk\<close> in \<open>rax\<close>,
  but truncated to an \<open>int\<close> and sign-extended.\<close>

theorem drop_caps_runs:
  assumes "ptrace_alternates run" and "pids_ok s" and "ps (proc_of s v) = EntryStop"
    and "nr s v = SYS_brk"
    and "steps_to run s v (world s) (proc_of s v) k1 p1" and "\<not> is_dead (ps p1)"
    and "run k1 (pid (vars s v)) (rewound p1) = (k2, p2)" and "ps p2 = EntryStop"
    and "capget k2 (pid (vars s v)) = Some (c, d)"
    and "sp = rsp (regs p1)" and "mapped (mem p2) (sp - 32) 32"
    and "steps_to run s v k2 (injected sp (cap_header (pid (vars s v)))
          (cap_bytes (c\<lparr>effective := effective c AND NOT CAP_MASK\<rparr>) d) p2) k3 p3"
    and "\<not> is_dead (ps p3)"
  shows "\<exists>s'. dropVariantsCap capget run v s = Some (0, s') \<and> world s' = k3 \<and>
     proc_of s' v = (with_rax (sext32 (rax (regs p1))) p3)\<lparr>ps := InUser\<rparr> \<and>
     num s' v = num s v \<and> (\<forall>w. w \<noteq> v \<longrightarrow> proc_of s' w = proc_of s w)"
proof -
  have e1: "ps p1 = ExitStop" using stops_at_exit(1) [OF assms(1,5)] assms(6) by blast
  have e3: "ps p3 = ExitStop" using stops_at_exit(1) [OF assms(1,12)] assms(13) by blast
  define s1 where "s1 = upd_proc v (\<lambda>_. p1) ((upd_proc v ptrace_syscall s)\<lparr>world := k1\<rparr>)"
  have w1: "waitVariant run v (upd_proc v ptrace_syscall s) = Some (0, s1)"
    using assms(2,3,5) e1
    by (simp add: waitVariant_def waitpid_def s1_def check_stop steps_to_def ptrace_syscall_entry)
  let ?t = "requestSyscallInfo v s1"
  have t: "pids_ok ?t" "world ?t = k1" "proc_of ?t u = (if u = v then p1 else proc_of s u)"
      "pid (vars ?t v) = pid (vars s v)" "num ?t v = num s v" "rval ?t v = rax (regs p1)"
      "stack_pointer (syscallInfo (vars ?t v)) = sp" for u
    using assms(2,10) e1 by (simp_all add: s1_def num_def rval_def exit_info_sel exit_stack)
  have "\<exists>s'. variantChangePtraceCap capget run v 0 ?t = Some (0, s') \<and> world s' = k3 \<and>
      vars s' = vars ?t \<and> (\<forall>w. proc_of s' w = (if w = v then p3 else proc_of ?t w))"
    by (rule change_cap_runs [where ?k2.0 = k2 and ?p2.0 = p2 and c = c and d = d and sp = sp
          and c' = "c\<lparr>effective := effective c AND NOT CAP_MASK\<rparr>"])
      (use assms(7,8,9,11,12) t e1 in \<open>simp_all add: steps_to_def set_ptrace_cap_def\<close>)
  then obtain s2 where s2: "variantChangePtraceCap capget run v 0 ?t = Some (0, s2)" "world s2 = k3"
      "vars s2 = vars ?t" "\<And>w. proc_of s2 w = (if w = v then p3 else proc_of ?t w)"
    by blast
  have p2: "pids_ok s2" using t(1) s2(3) by (simp add: pids_ok_def)
  have "dropVariantsCap capget run v s =
      Some (0, resumeVariantFromWait v (setSyscallReturnValue v (sext32 (rax (regs p1))) s2))"
    using assms(4) w1 s2(1) t(6) by (simp add: dropVariantsCap_def Let_def)
  with s2 p2 e3 t(3,5) show ?thesis
    by (simp add: num_def poke_stopped ptrace_syscall_entry)
qed

lemma kernel_user: "ps q = InUser \<Longrightarrow> kernel n x k i q = (k, with_call n (q\<lparr>ps := EntryStop\<rparr>))"
  by (simp add: kernel_def with_call_def)

text \<open>A \<open>brk\<close> that returns 0x555500001000, in a kernel that reports all capabilities.\<close>

theorem drop_caps_runs_witness:
  "\<exists>s'. dropVariantsCap (\<lambda>_ _. Some (\<lparr>effective = - 1, permitted_caps = - 1, inheritable = 0\<rparr>,
        \<lparr>effective = 0, permitted_caps = 0, inheritable = 0\<rparr>))
      (kernel SYS_brk 0x555500001000) Vmaster (pair_call SYS_brk no_args 0 no_args 0) = Some (0, s') \<and>
     rax (regs (proc_of s' Vmaster)) = 0x1000 \<and>
     mem (proc_of s' Vmaster) (2048 - 30) = Some 0xf7"
proof -
  let ?c = "\<lparr>effective = - 1, permitted_caps = - 1, inheritable = 0\<rparr>"
  let ?d = "\<lparr>effective = 0, permitted_caps = 0, inheritable = 0\<rparr>"
  let ?c' = "?c\<lparr>effective := effective ?c AND NOT CAP_MASK\<rparr>"
  let ?s = "pair_call SYS_brk no_args 0 no_args 0"
  let ?p1 = "with_rax 0x555500001000 ((image EntryStop SYS_brk no_args (filled 0))\<lparr>ps := ExitStop\<rparr>)"
  let ?p2 = "with_call SYS_brk ((rewound ?p1)\<lparr>ps := EntryStop\<rparr>)"
  let ?p3 = "with_rax 0x555500001000
    ((injected 2048 (cap_header 1) (cap_bytes ?c' ?d) ?p2)\<lparr>ps := ExitStop\<rparr>)"
  have "\<exists>s'. dropVariantsCap (\<lambda>_ _. Some (?c, ?d)) (kernel SYS_brk 0x555500001000) Vmaster ?s = Some (0, s') \<and>
     world s' = () \<and> proc_of s' Vmaster = (with_rax (sext32 (rax (regs ?p1))) ?p3)\<lparr>ps := InUser\<rparr> \<and>
     num s' Vmaster = num ?s Vmaster \<and> (\<forall>w. w \<noteq> Vmaster \<longrightarrow> proc_of s' w = proc_of ?s w)"
    by (rule drop_caps_runs [OF kernel_alternates, where ?p1.0 = ?p1 and ?p2.0 = ?p2 and sp = 2048
          and c = ?c and d = ?d and ?k1.0 = "()" and ?k2.0 = "()" and ?p3.0 = ?p3])
      (simp_all add: kernel_user rewound_def stepped_back_def, simp_all add: with_rax_def image_def)
  then show ?thesis
    by (auto simp: injected_def Let_def patched_def overwrite_def cap_bytes_def words32_def CAP_MASK_def
        sext32_def with_rax_def)
qed

end
