(* ===== verification/Start.thy ===== *)
theory Start
  imports Accepts
begin

text \<open>
  Where the main loop starts: the state in which \<open>main\<close> enters it, and, for the properties
  of whole runs, the first states of a run of two processes on the concrete kernel of
  \<open>Scenario\<close>.
\<close>

section \<open>The state in which the loop is entered\<close>

lemma start_sel:
  assumes "mpid \<noteq> rpid" and "mmaps s = initial_heap"
    and "t = start_variants mpid rpid child True (Some p) True (Some q) s"
  shows "pid (vars t Vmaster) = mpid" "pid (vars t Vreplica) = rpid"
    "vtype (vars t Vmaster) = VTYPE_master" "vtype (vars t Vreplica) = VTYPE_replica"
    "syscallNum (vars t u) = 0" "state (vars t u) = VSTATE_RUNNING" "mmaps t = initial_heap"
    "ps (proc_of t u) = InUser"
proof -
  show "pid (vars t Vmaster) = mpid" "pid (vars t Vreplica) = rpid"
    "vtype (vars t Vmaster) = VTYPE_master" "vtype (vars t Vreplica) = VTYPE_replica"
    "syscallNum (vars t u) = 0" "state (vars t u) = VSTATE_RUNNING" "mmaps t = initial_heap"
    using assms(2) unfolding assms(3) by (cases u; simp add: start_variants_def initVariant_def
        createVariant_def configureChildProc_def Let_def upd_var_def upd_proc_def
        resumeVariantFromWait_def)+
  show "ps (proc_of t u) = InUser"
    using assms(1) unfolding assms(3)
    by (cases u) (simp_all add: start_variants_def initVariant_def createVariant_def
        configureChildProc_def Let_def upd_var_def upd_proc_def resumeVariantFromWait_def proc_of_def
        child_start_def ptrace_syscall_def setoptions_def)
qed

text \<open>The state in which \<open>main\<close> enters its loop satisfies the invariant.\<close>

lemma start_safe:
  assumes "mpid \<noteq> rpid" and "mmaps s = initial_heap"
  shows "safe 0 (start_variants mpid rpid child True (Some p) True (Some q) s)"
  using start_sel [OF assms refl] assms(1) initial_heap_rep
  by (auto simp: safe_def well_typed_def counted_def lockstep_def level_def in_user_def num_def
      pids_ok_def maps_ok_def)

text \<open>The image the master starts from.\<close>

lemma start_image:
  assumes "mpid \<noteq> rpid"
  shows "proc_of (start_variants mpid rpid child True (Some p) True (Some q) s) Vmaster =
     p\<lparr>ps := InUser, opts := PTRACE_O_TRACESYSGOOD\<rparr>"
  using assms
  by (simp add: start_variants_def initVariant_def createVariant_def
      configureChildProc_def Let_def upd_var_def upd_proc_def resumeVariantFromWait_def proc_of_def
      child_start_def ptrace_syscall_def setoptions_def)

lemma main_enters:
  assumes "affinity (systemCores - 2)" and "affinity (systemCores - 3)"
  shows "main_program run argc systemCores affinity mpid rpid child (Some p) (Some q) children s =
     (if argc < 1 \<or> systemCores = - 1 \<or> \<not> affinity (systemCores - 1) then Some (Inl 1, s)
      else main_loop run children (start_variants mpid rpid child True (Some p) True (Some q) s))"
  using assms by (simp add: main_program_def)

section \<open>The first states of a run\<close>

lemma both_user_safe: "safe 0 both_user"
proof -
  have "maps_ok both_user"
    using initial_heap_rep by (auto simp: maps_ok_def both_user_def)
  then show ?thesis
    by (simp add: safe_def both_user_def well_typed_def counted_def lockstep_def level_def in_user_def
        num_def)
qed

lemma kernel_avoids: "c \<noteq> n \<Longrightarrow> avoids (kernel n x) c"
  by (simp add: avoids_def kernel_def split: pstate.splits)

text \<open>The master arrives at its first call and has to wait.\<close>

definition one_waits :: "unit mvee" where
  "one_waits = hold Vmaster (arrived Vmaster () (image EntryStop SYS_brk no_args (filled 0)) both_user)"

lemma one_waits_round:
  assumes "run () 1 (image InUser 0 no_args (filled 0)) =
    ((), image EntryStop SYS_brk no_args (filled 0))"
  shows "main_round run 1 both_user = Some (Inr (), one_waits)"
proof -
  let ?p = "image EntryStop SYS_brk no_args (filled 0)"
  have "processVariantEvent run Vmaster Vreplica
      (upd_proc Vmaster (\<lambda>_. ?p) (both_user\<lparr>world := ()\<rparr>)) = Some (Returned 0, one_waits)"
    using event_entry [of ?p both_user Vmaster Vreplica run "()"]
    by (simp add: both_user_def one_waits_def num_def)
  then show ?thesis
    using assms by (simp add: main_round_def child_event_def waitpid_def both_user_def check_stop)
qed

lemma one_waits_reachable:
  assumes "run () 1 (image InUser 0 no_args (filled 0)) =
    ((), image EntryStop SYS_brk no_args (filled 0))"
  shows "reach run both_user 1 one_waits"
  using reach.more [OF reach.start mvee_step.round [OF one_waits_round [of run, OF assms]]] by simp

lemma kernel_arrives: "kernel n 0 () i (image InUser 0 no_args (filled 0)) =
    ((), image EntryStop n no_args (filled 0))"
  by (simp add: kernel_def image_def)

lemmas one_waits_reached = one_waits_reachable [of "kernel SYS_brk 0", OF kernel_arrives]

lemma one_waits_sel:
  "proc_of one_waits Vmaster = image EntryStop SYS_brk no_args (filled 0)"
  "proc_of one_waits Vreplica = image InUser 0 no_args (filled 0)" "world one_waits = ()"
  "state (vars one_waits Vmaster) = VSTATE_WAIT" "state (vars one_waits Vreplica) = VSTATE_RUNNING"
  "pid (vars one_waits Vmaster) = 1" "pid (vars one_waits Vreplica) = 2" "pids_ok one_waits"
  "vtype (vars one_waits Vmaster) = VTYPE_master" "vtype (vars one_waits Vreplica) = VTYPE_replica"
  "num one_waits v = 0"
  "syscallInfo (vars one_waits Vmaster) = get_syscall_info (image EntryStop SYS_brk no_args (filled 0))"
  by (simp_all add: one_waits_def both_user_def num_def)

text \<open>After the first arrival the replica arrives too, and both are let into the call.\<close>

definition both_go :: "unit mvee" where
  "both_go = resume_both Vmaster Vreplica
     (arrived Vreplica () (image EntryStop SYS_brk no_args (filled 0)) one_waits)"

lemma both_go_round: "main_round (kernel SYS_brk 0) 2 one_waits = Some (Inr (), both_go)"
proof -
  let ?p = "image EntryStop SYS_brk no_args (filled 0)"
  let ?t = "arrived Vreplica () ?p one_waits"
  have "processSyscallSync (kernel SYS_brk 0) Vmaster Vreplica ?t = Some (0, both_go)"
    by (simp add: processSyscallSync_def dispatch_table_def execSyscall_brk_def both_go_def nr_def
        one_waits_sel)
  then have "processVariantEvent (kernel SYS_brk 0) Vreplica Vmaster
      (upd_proc Vreplica (\<lambda>_. ?p) (one_waits\<lparr>world := ()\<rparr>)) = Some (Returned 0, both_go)"
    using event_entry [of ?p one_waits Vreplica Vmaster "kernel SYS_brk 0" "()"]
    by (simp add: one_waits_sel)
  then show ?thesis
    using kernel_arrives [of SYS_brk 2]
    by (simp add: main_round_def child_event_def waitpid_def one_waits_sel check_stop)
qed

lemmas both_go_step = mvee_step.round [OF both_go_round]

lemma both_go_loop: "main_loop (kernel SYS_brk 0) [1, 2] both_user = Some (Inr (), both_go)"
  using one_waits_round [of "kernel SYS_brk 0", OF kernel_arrives] both_go_round by simp

lemma kernel_survives: "survives (kernel n x)"
  using kernel_alternates by (simp add: survives_def kernel_def)

lemma info_current_pair: "info_current (pair_call n a b a' b')"
  by (simp add: info_current_def pair_call_def)

lemma kernel_plain: "n \<in> set plain_calls \<Longrightarrow> plain_program (kernel n x)"
  using kernel_survives by (simp add: plain_program_def kernel_def)

lemma start_both_user:
  "start_variants 1 2 p True (Some (image InUser 0 no_args (filled 0))) True
     (Some (image InUser 0 no_args (filled 0))) both_user = both_user"
  by (simp add: start_variants_def initVariant_def createVariant_def configureChildProc_def Let_def
      upd_var_def upd_proc_def resumeVariantFromWait_def proc_of_def child_start_def
      ptrace_syscall_def setoptions_def both_user_def scene_def image_def get_syscall_info_def fun_eq_iff
      split: vptr.splits)

end
