(* ===== verification/Isolation.thy ===== *)
theory Isolation
  imports Start
begin

text \<open>
  What the replica is kept from. For the calls of \<open>master_only\<close> the replica is made to make
  another, harmless call (\<open>getpid\<close> or \<open>lseek\<close>) in place of its own. Stated as a
  noninterference: the monitor never consults the kernel about such a call of the replica, so
  that two kernels that differ only there give the same run.
\<close>

section \<open>The calls\<close>

definition master_only :: "word64 list" where
  "master_only =
    [SYS_read, SYS_pread64, SYS_newfstatat, SYS_access, SYS_getrandom, SYS_unlink, SYS_utimensat,
     SYS_fchown, SYS_fchmod, SYS_bind, SYS_listen, SYS_accept4, SYS_poll, SYS_getsockname,
     SYS_pselect6]"

definition in_own_call :: "proc \<Rightarrow> bool" where
  "in_own_call p \<longleftrightarrow> ps p = InSyscall \<and> orig_rax (regs p) \<in> set master_only"

text \<open>The two kernels agree, but on calls of \<open>master_only\<close> made by the process \<open>i\<close>.\<close>

definition same_outside :: "int \<Rightarrow> 'k env \<Rightarrow> 'k env \<Rightarrow> bool" where
  "same_outside i run run' \<longleftrightarrow>
     (\<forall>k j p. \<not> (j = i \<and> in_own_call p) \<longrightarrow> run k j p = run' k j p)"

section \<open>The contract of an executor\<close>

text \<open>The call in progress in a variant at its entry stop, and the replica after an accepted one.\<close>

locale isolating_executor =
  fixes exec :: "'k exec" and call :: word64
  assumes isolates: "m \<noteq> r \<Longrightarrow> at_entry s \<Longrightarrow> orig_rax (regs (proc_of s r)) = call \<Longrightarrow>
      same_outside (pid (vars s r)) run run' \<Longrightarrow> exec run m r s = exec run' m r s"
    and leaves_clean: "ptrace_alternates run \<Longrightarrow> m \<noteq> r \<Longrightarrow> at_entry s \<Longrightarrow>
      orig_rax (regs (proc_of s r)) = call \<Longrightarrow> exec run m r s = Some (0, s') \<Longrightarrow>
      \<not> in_own_call (proc_of s' r)"

lemma same_outside_master:
  "same_outside i run run' \<Longrightarrow> j \<noteq> i \<Longrightarrow> run k j p = run' k j p"
  by (simp add: same_outside_def)

lemma same_outside_replica:
  "same_outside i run run' \<Longrightarrow> orig_rax (regs p) \<notin> set master_only \<Longrightarrow> run k i p = run' k i p"
  by (simp add: same_outside_def in_own_call_def)

text \<open>Both laws with the facts in the form in which an executor is evaluated by rewriting.\<close>

lemma isolating_executorI:
  fixes exec :: "'k exec"
  assumes "\<And>run run' m r s. \<lbrakk>m \<noteq> r; r \<noteq> m; pids_ok s; ps (proc_of s m) = EntryStop;
      ps (proc_of s r) = EntryStop; orig_rax (regs (proc_of s r)) = call;
      \<And>k p. run k (pid (vars s m)) p = run' k (pid (vars s m)) p;
      \<And>k p. orig_rax (regs p) \<notin> set master_only \<Longrightarrow>
         run k (pid (vars s r)) p = run' k (pid (vars s r)) p\<rbrakk> \<Longrightarrow> exec run m r s = exec run' m r s"
    and "\<And>run m r s s'. \<lbrakk>m \<noteq> r; r \<noteq> m; pids_ok s; ps (proc_of s m) = EntryStop;
      ps (proc_of s r) = EntryStop; orig_rax (regs (proc_of s r)) = call;
      \<And>k i p. ps p = InSyscall \<Longrightarrow> ps (snd (run k i p)) \<noteq> InSyscall \<and>
         (checkVariantExit (wait_status (snd (run k i p))) = 0 \<longrightarrow> ps (snd (run k i p)) = ExitStop);
      exec run m r s = Some (0, s')\<rbrakk> \<Longrightarrow> \<not> in_own_call (proc_of s' r)"
  shows "isolating_executor exec call"
proof
  fix m r :: vptr and s :: "'k mvee" and run run' :: "'k env"
  assume *: "m \<noteq> r" "at_entry s" "orig_rax (regs (proc_of s r)) = call"
    "same_outside (pid (vars s r)) run run'"
  have "pid (vars s m) \<noteq> pid (vars s r)"
    using *(1) pid_inj [of s m r] *(2) by (simp add: at_entry_def)
  then show "exec run m r s = exec run' m r s"
    using * same_outside_master [OF *(4)] same_outside_replica [OF *(4)]
    by (intro assms(1)) (auto simp: at_entry_def)
next
  fix m r :: vptr and s s' :: "'k mvee" and run :: "'k env"
  assume *: "ptrace_alternates run" "m \<noteq> r" "at_entry s" "orig_rax (regs (proc_of s r)) = call"
    "exec run m r s = Some (0, s')"
  have "ps (snd (run k i p)) \<noteq> InSyscall \<and>
      (checkVariantExit (wait_status (snd (run k i p))) = 0 \<longrightarrow> ps (snd (run k i p)) = ExitStop)"
    if "ps p = InSyscall" for k i p
    using run_exit_stop [OF *(1) _ that, of k i] run_stops [OF *(1), of p k i] that
    by (metis is_running.simps(1,2) prod.collapse)
  with * show "\<not> in_own_call (proc_of s' r)"
    by (intro assms(2)) (auto simp: at_entry_def)
qed

lemma orig_rax_setregs [simp]:
  "orig_rax (regs (setregs p g)) = (if stopped p then orig_rax g else orig_rax (regs p))"
  by (simp add: setregs_def)

lemma orig_rax_with_call [simp]: "orig_rax (regs (with_rax x p)) = orig_rax (regs p)"
  by (simp add: with_rax_def)

lemma not_master_only [simp]: "SYS_getpid \<notin> set master_only" "SYS_lseek \<notin> set master_only"
  by (simp_all add: master_only_def)

lemmas isolate_simps = total_simps in_own_call_def runMasterReplicateRet_def runBothCopyMasterRet_def
  poke_stopped check_minus_1

interpretation i_getuid: isolating_executor exec_no_args SYS_getuid
  by (rule isolating_executorI) (auto simp: exec_no_args_def isolate_simps master_only_def split: if_splits)

interpretation i_geteuid: isolating_executor exec_no_args SYS_geteuid
  by (rule isolating_executorI) (auto simp: exec_no_args_def isolate_simps master_only_def split: if_splits)

interpretation i_getgid: isolating_executor exec_no_args SYS_getgid
  by (rule isolating_executorI) (auto simp: exec_no_args_def isolate_simps master_only_def split: if_splits)

interpretation i_getegid: isolating_executor exec_no_args SYS_getegid
  by (rule isolating_executorI) (auto simp: exec_no_args_def isolate_simps master_only_def split: if_splits)

interpretation i_brk: isolating_executor execSyscall_brk SYS_brk
  by (rule isolating_executorI) (auto simp: execSyscall_brk_def isolate_simps master_only_def split: if_splits)

interpretation i_mmap: isolating_executor execSyscall_mmap SYS_mmap
  by (rule isolating_executorI) (auto simp: execSyscall_mmap_def isolate_simps master_only_def split: if_splits option.splits Option.bind_splits)

interpretation i_read: isolating_executor execSyscall_read SYS_read
  by (rule isolating_executorI) (auto simp: execSyscall_read_def isolate_simps master_only_def split: if_splits)

interpretation i_arch_prctl: isolating_executor execSyscall_arch_prctl SYS_arch_prctl
  by (rule isolating_executorI) (auto simp: execSyscall_arch_prctl_def isolate_simps master_only_def split: if_splits)

interpretation i_openat: isolating_executor execSyscall_openat SYS_openat
  by (rule isolating_executorI) (auto simp: execSyscall_openat_def isolate_simps master_only_def split: if_splits)

interpretation i_close: isolating_executor execSyscall_close SYS_close
  by (rule isolating_executorI) (auto simp: execSyscall_close_def isolate_simps master_only_def split: if_splits)

interpretation i_write: isolating_executor execSyscall_write SYS_write
  by (rule isolating_executorI) (auto simp: execSyscall_write_def isolate_simps master_only_def split: if_splits)

interpretation i_pread64: isolating_executor execSyscall_pread64 SYS_pread64
  by (rule isolating_executorI) (auto simp: execSyscall_pread64_def isolate_simps master_only_def split: if_splits)

interpretation i_access: isolating_executor execSyscall_access SYS_access
  by (rule isolating_executorI) (auto simp: execSyscall_access_def isolate_simps master_only_def split: if_splits)

interpretation i_setTidAddress: isolating_executor execSyscall_setTidAddress SYS_set_tid_address
  by (rule isolating_executorI) (auto simp: execSyscall_setTidAddress_def isolate_simps master_only_def split: if_splits)

interpretation i_setRobustList: isolating_executor execSyscall_setRobustList SYS_set_robust_list
  by (rule isolating_executorI) (auto simp: execSyscall_setRobustList_def isolate_simps master_only_def split: if_splits)

interpretation i_mprotect: isolating_executor execSyscall_mprotect SYS_mprotect
  by (rule isolating_executorI) (auto simp: execSyscall_mprotect_def isolate_simps master_only_def split: if_splits option.splits Option.bind_splits)

interpretation i_munmap: isolating_executor execSyscall_munmap SYS_munmap
  by (rule isolating_executorI) (auto simp: execSyscall_munmap_def isolate_simps master_only_def split: if_splits option.splits Option.bind_splits)

interpretation i_rseq: isolating_executor execSyscall_rseq SYS_rseq
  by (rule isolating_executorI) (auto simp: execSyscall_rseq_def isolate_simps master_only_def split: if_splits)

interpretation i_fadvise64: isolating_executor execSyscall_fadvise64 SYS_fadvise64
  by (rule isolating_executorI) (auto simp: execSyscall_fadvise64_def isolate_simps master_only_def split: if_splits)

interpretation i_getrandom: isolating_executor execSyscall_getrandom SYS_getrandom
  by (rule isolating_executorI) (auto simp: execSyscall_getrandom_def isolate_simps master_only_def split: if_splits)

interpretation i_exit_group: isolating_executor execSyscall_exit_group SYS_exit_group
  by (rule isolating_executorI) (auto simp: execSyscall_exit_group_def isolate_simps master_only_def split: if_splits)

interpretation i_prlimit64: isolating_executor execSyscall_prlimit64 SYS_prlimit64
  by (rule isolating_executorI) (auto simp: execSyscall_prlimit64_def isolate_simps master_only_def split: if_splits)

interpretation i_rt_sigaction: isolating_executor execSyscall_rt_sigaction SYS_rt_sigaction
  by (rule isolating_executorI) (auto simp: execSyscall_rt_sigaction_def isolate_simps master_only_def split: if_splits)

interpretation i_rt_sigprocmask: isolating_executor execSyscall_rt_sigprocmask SYS_rt_sigprocmask
  by (rule isolating_executorI) (auto simp: execSyscall_rt_sigprocmask_def isolate_simps master_only_def split: if_splits)

interpretation i_unlink: isolating_executor execSyscall_unlink SYS_unlink
  by (rule isolating_executorI) (auto simp: execSyscall_unlink_def isolate_simps master_only_def split: if_splits)

interpretation i_utimensat: isolating_executor execSyscall_utimensat SYS_utimensat
  by (rule isolating_executorI) (auto simp: execSyscall_utimensat_def isolate_simps master_only_def split: if_splits)

interpretation i_fchown: isolating_executor execSyscall_fchown SYS_fchown
  by (rule isolating_executorI) (auto simp: execSyscall_fchown_def isolate_simps master_only_def split: if_splits)

interpretation i_fchmod: isolating_executor execSyscall_fchmod SYS_fchmod
  by (rule isolating_executorI) (auto simp: execSyscall_fchmod_def isolate_simps master_only_def split: if_splits)

interpretation i_lseek: isolating_executor execSyscall_lseek SYS_lseek
  by (rule isolating_executorI) (auto simp: execSyscall_lseek_def isolate_simps master_only_def split: if_splits)

interpretation i_getcwd: isolating_executor execSyscall_getcwd SYS_getcwd
  by (rule isolating_executorI) (auto simp: execSyscall_getcwd_def isolate_simps master_only_def split: if_splits)

interpretation i_getpid: isolating_executor execSyscall_getpid SYS_getpid
  by (rule isolating_executorI) (auto simp: execSyscall_getpid_def isolate_simps master_only_def split: if_splits)

interpretation i_chdir: isolating_executor execSyscall_chdir SYS_chdir
  by (rule isolating_executorI) (auto simp: execSyscall_chdir_def isolate_simps master_only_def split: if_splits)

interpretation i_socket: isolating_executor execSyscall_socket SYS_socket
  by (rule isolating_executorI) (auto simp: execSyscall_socket_def isolate_simps master_only_def split: if_splits)

interpretation i_setsockopt: isolating_executor execSyscall_setsockopt SYS_setsockopt
  by (rule isolating_executorI) (auto simp: execSyscall_setsockopt_def isolate_simps master_only_def split: if_splits)

interpretation i_bind: isolating_executor execSyscall_bind SYS_bind
  by (rule isolating_executorI) (auto simp: execSyscall_bind_def isolate_simps master_only_def split: if_splits)

interpretation i_listen: isolating_executor execSyscall_listen SYS_listen
  by (rule isolating_executorI) (auto simp: execSyscall_listen_def isolate_simps master_only_def split: if_splits)

interpretation i_accept4: isolating_executor execSyscall_accept4 SYS_accept4
  by (rule isolating_executorI) (auto simp: execSyscall_accept4_def isolate_simps master_only_def split: if_splits)

interpretation i_poll: isolating_executor execSyscall_poll SYS_poll
  by (rule isolating_executorI) (auto simp: execSyscall_poll_def isolate_simps master_only_def split: if_splits)

interpretation i_shutdown: isolating_executor execSyscall_shutdown SYS_shutdown
  by (rule isolating_executorI) (auto simp: execSyscall_shutdown_def isolate_simps master_only_def split: if_splits)

interpretation i_getsockname: isolating_executor execSyscall_getsockname SYS_getsockname
  by (rule isolating_executorI) (auto simp: execSyscall_getsockname_def isolate_simps master_only_def split: if_splits)

interpretation i_pselect6: isolating_executor execSyscall_pselect6 SYS_pselect6
  by (rule isolating_executorI) (auto simp: execSyscall_pselect6_def isolate_simps master_only_def split: if_splits)

lemma newfstatat_isolates: "isolating_executor execSyscall_newfstatat SYS_newfstatat"
proof (rule isolating_executorI)
  fix run run' :: "'k env" and m r :: vptr and s :: "'k mvee"
  assume *: "m \<noteq> r" "r \<noteq> m" "pids_ok s" "ps (proc_of s m) = EntryStop"
    "ps (proc_of s r) = EntryStop" "orig_rax (regs (proc_of s r)) = SYS_newfstatat"
    "\<And>k p. run k (pid (vars s m)) p = run' k (pid (vars s m)) p"
    "\<And>k p. orig_rax (regs p) \<notin> set master_only \<Longrightarrow>
       run k (pid (vars s r)) p = run' k (pid (vars s r)) p"
  obtain b x where x: "fstatat_path m r s = (Inr b, x)"
    using fstatat_path_Inr by blast
  with * path_frames [OF x] show "execSyscall_newfstatat run m r s = execSyscall_newfstatat run' m r s"
    by (auto simp: execSyscall_newfstatat_def isolate_simps)
next
  fix run :: "'k env" and m r :: vptr and s s' :: "'k mvee"
  assume *: "m \<noteq> r" "r \<noteq> m" "pids_ok s" "ps (proc_of s m) = EntryStop"
    "ps (proc_of s r) = EntryStop" "orig_rax (regs (proc_of s r)) = SYS_newfstatat"
    "\<And>k i p. ps p = InSyscall \<Longrightarrow> ps (snd (run k i p)) \<noteq> InSyscall \<and>
       (checkVariantExit (wait_status (snd (run k i p))) = 0 \<longrightarrow> ps (snd (run k i p)) = ExitStop)"
    "execSyscall_newfstatat run m r s = Some (0, s')"
  obtain b x where x: "fstatat_path m r s = (Inr b, x)"
    using fstatat_path_Inr by blast
  with * path_frames [OF x] show "\<not> in_own_call (proc_of s' r)"
    by (auto simp: execSyscall_newfstatat_def isolate_simps split: if_splits)
qed

interpretation i_newfstatat: isolating_executor execSyscall_newfstatat SYS_newfstatat
  by (rule newfstatat_isolates)

section \<open>The table\<close>

lemmas isolating_all =
  i_getuid.isolating_executor_axioms i_geteuid.isolating_executor_axioms
  i_getgid.isolating_executor_axioms i_getegid.isolating_executor_axioms
  i_brk.isolating_executor_axioms i_mmap.isolating_executor_axioms
  i_read.isolating_executor_axioms i_arch_prctl.isolating_executor_axioms
  i_openat.isolating_executor_axioms i_close.isolating_executor_axioms
  i_write.isolating_executor_axioms i_pread64.isolating_executor_axioms
  i_access.isolating_executor_axioms i_setTidAddress.isolating_executor_axioms
  i_setRobustList.isolating_executor_axioms i_mprotect.isolating_executor_axioms
  i_munmap.isolating_executor_axioms i_rseq.isolating_executor_axioms
  i_fadvise64.isolating_executor_axioms i_getrandom.isolating_executor_axioms
  i_exit_group.isolating_executor_axioms i_prlimit64.isolating_executor_axioms
  i_rt_sigaction.isolating_executor_axioms i_rt_sigprocmask.isolating_executor_axioms
  i_unlink.isolating_executor_axioms i_utimensat.isolating_executor_axioms
  i_fchown.isolating_executor_axioms i_fchmod.isolating_executor_axioms
  i_lseek.isolating_executor_axioms i_getcwd.isolating_executor_axioms
  i_getpid.isolating_executor_axioms i_chdir.isolating_executor_axioms
  i_socket.isolating_executor_axioms i_setsockopt.isolating_executor_axioms
  i_bind.isolating_executor_axioms i_listen.isolating_executor_axioms
  i_accept4.isolating_executor_axioms i_poll.isolating_executor_axioms
  i_shutdown.isolating_executor_axioms i_getsockname.isolating_executor_axioms
  i_pselect6.isolating_executor_axioms i_newfstatat.isolating_executor_axioms

lemma dispatch_isolating_all: "\<forall>(n, e) \<in> set dispatch_table. isolating_executor e n"
  unfolding dispatch_table_def by (simp add: isolating_all)

lemma dispatch_isolating: "map_of dispatch_table n = Some e \<Longrightarrow> isolating_executor e n"
  using dispatch_isolating_all map_of_SomeD by fastforce

lemma sync_isolated:
  assumes "m \<noteq> r" and "at_entry s" and "orig_rax (regs (proc_of s r)) = nr s r"
    and "same_outside (pid (vars s r)) run run'"
  shows "processSyscallSync run m r s = processSyscallSync run' m r s"
  using isolating_executor.isolates [OF dispatch_isolating assms(1,2) _ assms(4)] assms(3)
  by (auto simp: processSyscallSync_def split: option.splits)

lemma sync_leaves_clean:
  assumes "ptrace_alternates run" and "m \<noteq> r" and "at_entry s"
    and "orig_rax (regs (proc_of s r)) = nr s r" and "processSyscallSync run m r s = Some (0, s')"
  shows "\<not> in_own_call (proc_of s' r)"
  using assms(4) isolating_executor.leaves_clean [OF dispatch_isolating assms(1-3)]
  by (auto intro: processSyscallSync_0 [OF assms(5)])

section \<open>The rounds of the main loop\<close>

definition clean :: "'k mvee \<Rightarrow> bool" where
  "clean s \<longleftrightarrow> \<not> in_own_call (proc_of s Vreplica)"

lemma event_other:
  "ps p \<noteq> EntryStop \<Longrightarrow> pids_ok s \<Longrightarrow>
   processVariantEvent run v w (upd_proc v (\<lambda>_. p) (s\<lparr>world := k\<rparr>)) =
     Some (if ps p = ExitStop then (Returned 0, resumeVariantFromExit v (arrived v k p s))
           else (Exits 1, arrived v k p s))"
  by (cases "ps p = ExitStop")
    (auto simp: processVariantEvent_def get_syscall_info_def arrived_def [symmetric] Let_def
      split: pstate.splits)

lemma event_isolated:
  assumes "ptrace_alternates run" and "safe n s" and "clean s"
    and "same_outside (pid (vars s Vreplica)) run run'"
  shows "child_event run v s = child_event run' v s"
proof -
  have pids: "pids_ok s" and wt: "well_typed s"
    using assms(2) by (simp_all add: safe_def well_typed_def)
  obtain k p where run: "run (world s) (pid (vars s v)) (proc_of s v) = (k, p)"
    by fastforce
  have "\<not> (pid (vars s v) = pid (vars s Vreplica) \<and> in_own_call (proc_of s v))"
    using assms(3) pid_inj [OF pids, of v Vreplica] by (auto simp: clean_def)
  then have run': "run' (world s) (pid (vars s v)) (proc_of s v) = (k, p)"
    using assms(4) run by (simp add: same_outside_def)
  let ?t = "arrived v k p s"
  let ?u = "upd_proc v (\<lambda>_. p) (s\<lparr>world := k\<rparr>)"
  have "processVariantEvent run v (other v) ?u = processVariantEvent run' v (other v) ?u"
    if running: "is_running (ps (proc_of s v))" and ok: "checkVariantExit (wait_status p) = 0"
  proof (cases "ps p = EntryStop \<and> num s v = num s (other v) \<and> state (vars s (other v)) = VSTATE_WAIT")
    case True
    then have ent: "ps p = EntryStop" by simp
    have "ps (proc_of s v) \<noteq> InSyscall"
      using run_exit_stop [OF assms(1) run _ ok] ent by auto
    then have "ps (proc_of s v) = InUser"
      using running by (cases "ps (proc_of s v)") auto
    then have w: "waiting s (other v)"
      using partner_waits [OF assms(2)] True by blast
    note at = both_at_entry [OF assms(2) w ent, of k]
    have "same_outside (pid (vars ?t Vreplica)) run run'"
      using assms(4) pids by simp
    from sync_isolated [OF _ at(1) at(3) [symmetric] this, of Vmaster]
    show ?thesis
      by (simp add: event_entry [OF ent pids other_neq(2)] sync_variants [OF wt])
  next
    case False
    then show ?thesis
      by (cases "ps p = EntryStop")
        (auto simp: event_entry [OF _ pids other_neq(2)] event_other [OF _ pids])
  qed
  then show ?thesis
    using run run' by (simp add: child_event_def waitpid_def)
qed


lemma step_clean:
  assumes "ptrace_alternates run" and "safe n s" and "n < 2 ^ 64 - 1" and "clean s"
    and "child_event run v s = Some (Inr (), s')"
  shows "clean s'"
  using assms(1,2,3,5)
proof (cases rule: step_cases)
  case (exit_stop k p)
  then show ?thesis
    using assms(2,4) by (auto simp: clean_def in_own_call_def safe_def well_typed_def)
next
  case (hold k p)
  then show ?thesis
    using assms(2,4) by (auto simp: clean_def in_own_call_def safe_def well_typed_def)
next
  case (sync k p)
  note at = both_at_entry [OF assms(2) sync(4,2), of k]
  show ?thesis
    using sync_leaves_clean [OF assms(1) _ at(1) at(3) [symmetric] sync(5)] by (simp add: clean_def)
qed

lemma main_round_eq:
  "(\<And>v. child_event run v s = child_event run' v s) \<Longrightarrow> main_round run c s = main_round run' c s"
  by (simp add: main_round_def)

lemma loop_isolated:
  assumes "ptrace_alternates run" and "avoids run SYS_shutdown"
    and "safe n s \<and> clean s \<or> wedged s" and "n + length cs < 2 ^ 64"
    and "same_outside (pid (vars s Vreplica)) run run'"
  shows "main_loop run cs s = main_loop run' cs s"
  using assms(3-5)
proof (induction cs arbitrary: n s)
  case (Cons c cs)
  have round: "main_round run c s = main_round run' c s"
    using Cons.prems(1) event_isolated [OF assms(1) _ _ Cons.prems(3)]
      wedged_no_event [of s run] wedged_no_event [of s run']
    by (intro main_round_eq) auto
  have "main_loop run cs s' = main_loop run' cs s'"
    if step: "main_round run c s = Some (Inr (), s')" for s'
  proof -
    have n: "n < 2 ^ 64 - 1" using Cons.prems(2) by simp
    have st: "mvee_step run s s'" using step by (rule mvee_step.round)
    obtain v where v: "child_event run v s = Some (Inr (), s')"
      using main_round_child [OF step] by blast
    have safe: "safe n s" "clean s"
      using Cons.prems(1) wedged_no_step st by blast+
    have "same_ids s s'"
      using step_same_ids [OF assms(1,2) safe(1) n v] .
    then have "same_outside (pid (vars s' Vreplica)) run run'"
      using Cons.prems(3) by (simp add: same_ids_def)
    moreover have "safe (Suc n) s' \<and> clean s' \<or> wedged s'"
      using step_safe [OF assms(1,2) safe(1) n st] step_clean [OF assms(1) safe(1) n safe(2) v] by blast
    ultimately show ?thesis
      using Cons.prems(2) by (intro Cons.IH [of "Suc n"]) simp_all
  qed
  then show ?case
    using round by (cases "main_round run' c s") (auto split: sum.splits)
qed simp

section \<open>The whole program\<close>

lemma start_clean:
  assumes "mpid \<noteq> rpid" and "mmaps s = initial_heap"
  shows "clean (start_variants mpid rpid child True (Some p) True (Some q) s)"
  using start_sel(8) [OF assms refl] by (simp add: clean_def in_own_call_def)

text \<open>C5: Containment, for a program that does not call \<open>shutdown\<close>, started with two variants
  that could be created, pinned and loaded. For the calls of \<open>master_only\<close> (data read from
  files and sockets, changes to the file system, the accepting side of connections) the monitor
  never lets the replica reach the kernel with its own call: whatever the kernel would do for
  such a call of the replica, the run of the monitor from \<open>main\<close> on is the same, with the same
  result, outside world, processes and records, for every sequence of less than 2^64 stops.\<close>

theorem replica_makes_no_external_call:
  assumes "ptrace_alternates run" and "avoids run SYS_shutdown" and "mpid \<noteq> rpid"
    and "mmaps s = initial_heap" and "affinity (systemCores - 2)" and "affinity (systemCores - 3)"
    and "length children < 2 ^ 64" and "same_outside rpid run run'"
  shows "main_program run argc systemCores affinity mpid rpid child (Some p) (Some q) children s =
     main_program run' argc systemCores affinity mpid rpid child (Some p) (Some q) children s"
proof -
  let ?s = "start_variants mpid rpid child True (Some p) True (Some q) s"
  note start = start_sel [OF assms(3,4) refl]
  have "safe 0 ?s \<and> clean ?s"
    using start_safe [OF assms(3,4)] start_clean [OF assms(3,4)] by simp
  then have "main_loop run children ?s = main_loop run' children ?s"
    using assms(7,8) start(2) by (intro loop_isolated [OF assms(1,2), of 0]) simp_all
  then show ?thesis by (simp add: main_enters assms(5,6))
qed

text \<open>A kernel in which such a call of process \<open>i\<close> is fatal.\<close>

definition muted :: "int \<Rightarrow> 'k env \<Rightarrow> 'k env" where
  "muted i run k j p = (if j = i \<and> in_own_call p then (k, p\<lparr>ps := Killed 9\<rparr>) else run k j p)"

theorem replica_makes_no_external_call_witness:
  "let i = image InUser 0 no_args (filled 0); k = kernel SYS_listen 0 in
     main_program k 1 4 (\<lambda>_. True) 1 2 i (Some i) (Some i) [1, 2, 1, 2] both_user =
     main_program (muted 2 k) 1 4 (\<lambda>_. True) 1 2 i (Some i) (Some i) [1, 2, 1, 2] both_user"
  unfolding Let_def
  by (rule replica_makes_no_external_call [OF kernel_alternates kernel_avoids])
    (simp_all add: both_user_def same_outside_def muted_def)

end
