(* ===== verification/Native.thy ===== *)
theory Native
  imports Isolation
begin

text \<open>
  What the outside world sees of the two variants: one program. The outside world and the
  process image of the master are only ever changed by the master and the kernel, as if the
  master were merely traced, and by runs of the replica that are not in a call of
  \<open>master_only\<close>. The one exception is a register that \<open>execSyscall_write\<close> sets at the exit stop of
  a write.
\<close>

section \<open>Steps of a process that is traced and not changed\<close>

text \<open>
  The outside world and the image of process \<open>i\<close>; the process \<open>j\<close> runs beside it.
\<close>

inductive traced :: "'k env \<Rightarrow> int \<Rightarrow> int \<Rightarrow> 'k \<times> proc \<Rightarrow> 'k \<times> proc \<Rightarrow> bool" for run i j where
  runs: "is_running (ps p) \<Longrightarrow> traced run i j (k, p) (run k i p)"
| resumes: "stopped p \<Longrightarrow> traced run i j (k, p) (k, ptrace_syscall p)"
| relabels: "ps p = ExitStop \<Longrightarrow> traced run i j (k, p) (k, with_call SYS_lseek p)"
| beside: "is_running (ps q) \<Longrightarrow> \<not> in_own_call q \<Longrightarrow> traced run i j (k, p) (fst (run k j q), p)"

text \<open>
  The same for one call, from the entry stop: the process is let into the call; or it has run
  it, and may have been resumed from the exit stop; and the other one may have run too.
\<close>

definition after_exit :: "proc \<Rightarrow> proc \<Rightarrow> bool" where
  "after_exit p q \<longleftrightarrow> q = p \<or>
     ps p = ExitStop \<and> (q = ptrace_syscall p \<or> q = ptrace_syscall (with_call SYS_lseek p))"

definition traced_call :: "'k env \<Rightarrow> int \<Rightarrow> int \<Rightarrow> 'k \<Rightarrow> proc \<Rightarrow> 'k \<Rightarrow> proc \<Rightarrow> bool" where
  "traced_call run i j k p k' q \<longleftrightarrow> k' = k \<and> q = ptrace_syscall p \<or>
     (let (k1, p1) = run k i (ptrace_syscall p)
      in after_exit p1 q \<and> (k' = k1 \<or> (\<exists>x. is_running (ps x) \<and> \<not> in_own_call x \<and> k' = fst (run k1 j x))))"

lemma after_exit_simps [simp]:
  "after_exit p p" "ps p = ExitStop \<Longrightarrow> after_exit p (ptrace_syscall p)"
  "ps p = ExitStop \<Longrightarrow> after_exit p (ptrace_syscall (with_call SYS_lseek p))"
  by (simp_all add: after_exit_def)

lemma traced_call_simps [simp]:
  "traced_call run i j k p k (ptrace_syscall p)"
  "after_exit (snd (run k i (ptrace_syscall p))) q \<Longrightarrow>
   traced_call run i j k p (fst (run k i (ptrace_syscall p))) q"
  "after_exit (snd (run k i (ptrace_syscall p))) q \<Longrightarrow> is_running (ps x) \<Longrightarrow> \<not> in_own_call x \<Longrightarrow>
   traced_call run i j k p (fst (run (fst (run k i (ptrace_syscall p))) j x)) q"
  by (auto simp: traced_call_def case_prod_beta Let_def)

lemma after_exit_steps:
  assumes "after_exit p q"
  shows "(traced run i j)\<^sup>*\<^sup>* (k, p) (k, q)"
proof -
  have "(traced run i j)\<^sup>*\<^sup>* (k, p) (k, ptrace_syscall p)"
    "(traced run i j)\<^sup>*\<^sup>* (k, p) (k, ptrace_syscall (with_call SYS_lseek p))" if "ps p = ExitStop"
    using traced.resumes [of p run i j k] traced.resumes [of "with_call SYS_lseek p" run i j k]
      traced.relabels [OF that, of run i j k] that by (auto intro: converse_rtranclp_into_rtranclp)
  with assms show ?thesis by (auto simp: after_exit_def)
qed

lemma traced_call_steps:
  assumes "ps p = EntryStop" and "traced_call run i j k p k' q"
  shows "(traced run i j)\<^sup>*\<^sup>* (k, p) (k', q)"
proof -
  have enter: "(traced run i j)\<^sup>*\<^sup>* (k, p) (k, ptrace_syscall p)"
    using traced.resumes [of p run i j k] assms(1) by auto
  obtain k1 p1 where run: "run k i (ptrace_syscall p) = (k1, p1)" by fastforce
  have ran: "(traced run i j)\<^sup>*\<^sup>* (k, p) (k1, p1)"
    using traced.runs [of "ptrace_syscall p" run i j k] assms(1) run
    by (auto intro: rtranclp.rtrancl_into_rtrancl [OF enter])
  consider "k' = k" "q = ptrace_syscall p" | "after_exit p1 q" "k' = k1"
    | x where "after_exit p1 q" "is_running (ps x)" "\<not> in_own_call x" "k' = fst (run k1 j x)"
    using assms(2) run by (auto simp: traced_call_def)
  then show ?thesis
  proof cases
    case 1
    then show ?thesis using enter by simp
  next
    case 2
    then show ?thesis using rtranclp_trans [OF ran after_exit_steps] by simp
  next
    case 3
    then show ?thesis
      using rtranclp_trans [OF ran after_exit_steps [OF 3(1)]] traced.beside [OF 3(2,3), of run i j k1 q]
      by (auto intro: rtranclp.rtrancl_into_rtrancl)
  qed
qed

section \<open>The contract of an executor\<close>

locale native_executor =
  fixes exec :: "'k exec" and call :: word64
  assumes runs_natively: "ptrace_alternates run \<Longrightarrow> m \<noteq> r \<Longrightarrow> at_entry s \<Longrightarrow>
      orig_rax (regs (proc_of s r)) = call \<Longrightarrow> exec run m r s = Some (0, s') \<Longrightarrow>
      traced_call run (pid (vars s m)) (pid (vars s r)) (world s) (proc_of s m) (world s') (proc_of s' m)"

lemma native_executorI:
  fixes exec :: "'k exec"
  assumes "\<And>run m r s s'. \<lbrakk>m \<noteq> r; r \<noteq> m; pids_ok s; ps (proc_of s m) = EntryStop;
      ps (proc_of s r) = EntryStop; orig_rax (regs (proc_of s r)) = call;
      \<And>k i p. ps p = InSyscall \<Longrightarrow>
         checkVariantExit (wait_status (snd (run k i p))) = 0 \<Longrightarrow> ps (snd (run k i p)) = ExitStop;
      exec run m r s = Some (0, s')\<rbrakk> \<Longrightarrow>
      traced_call run (pid (vars s m)) (pid (vars s r)) (world s) (proc_of s m) (world s') (proc_of s' m)"
  shows "native_executor exec call"
proof
  fix m r :: vptr and s s' :: "'k mvee" and run :: "'k env"
  assume *: "ptrace_alternates run" "m \<noteq> r" "at_entry s" "orig_rax (regs (proc_of s r)) = call"
    "exec run m r s = Some (0, s')"
  have "ps (snd (run k i p)) = ExitStop"
    if "ps p = InSyscall" "checkVariantExit (wait_status (snd (run k i p))) = 0" for k i p
    using run_exit_stop [OF *(1) _ that(1), of k i] that(2) by (metis prod.collapse)
  with * show "traced_call run (pid (vars s m)) (pid (vars s r)) (world s) (proc_of s m) (world s') (proc_of s' m)"
    by (intro assms(1)) (auto simp: at_entry_def)
qed

interpretation n_getuid: native_executor exec_no_args SYS_getuid
  by (rule native_executorI) (auto simp: exec_no_args_def isolate_simps master_only_def split: if_splits)

interpretation n_geteuid: native_executor exec_no_args SYS_geteuid
  by (rule native_executorI) (auto simp: exec_no_args_def isolate_simps master_only_def split: if_splits)

interpretation n_getgid: native_executor exec_no_args SYS_getgid
  by (rule native_executorI) (auto simp: exec_no_args_def isolate_simps master_only_def split: if_splits)

interpretation n_getegid: native_executor exec_no_args SYS_getegid
  by (rule native_executorI) (auto simp: exec_no_args_def isolate_simps master_only_def split: if_splits)

interpretation n_brk: native_executor execSyscall_brk SYS_brk
  by (rule native_executorI) (auto simp: execSyscall_brk_def isolate_simps master_only_def split: if_splits)

interpretation n_mmap: native_executor execSyscall_mmap SYS_mmap
  by (rule native_executorI) (auto simp: execSyscall_mmap_def isolate_simps master_only_def split: if_splits option.splits Option.bind_splits)

interpretation n_read: native_executor execSyscall_read SYS_read
  by (rule native_executorI) (auto simp: execSyscall_read_def isolate_simps master_only_def split: if_splits)

interpretation n_arch_prctl: native_executor execSyscall_arch_prctl SYS_arch_prctl
  by (rule native_executorI) (auto simp: execSyscall_arch_prctl_def isolate_simps master_only_def split: if_splits)

interpretation n_openat: native_executor execSyscall_openat SYS_openat
  by (rule native_executorI) (auto simp: execSyscall_openat_def isolate_simps master_only_def split: if_splits)

interpretation n_close: native_executor execSyscall_close SYS_close
  by (rule native_executorI) (auto simp: execSyscall_close_def isolate_simps master_only_def split: if_splits)

interpretation n_write: native_executor execSyscall_write SYS_write
  by (rule native_executorI) (auto simp: execSyscall_write_def isolate_simps master_only_def split: if_splits)

interpretation n_pread64: native_executor execSyscall_pread64 SYS_pread64
  by (rule native_executorI) (auto simp: execSyscall_pread64_def isolate_simps master_only_def split: if_splits)

interpretation n_access: native_executor execSyscall_access SYS_access
  by (rule native_executorI) (auto simp: execSyscall_access_def isolate_simps master_only_def split: if_splits)

interpretation n_setTidAddress: native_executor execSyscall_setTidAddress SYS_set_tid_address
  by (rule native_executorI) (auto simp: execSyscall_setTidAddress_def isolate_simps master_only_def split: if_splits)

interpretation n_setRobustList: native_executor execSyscall_setRobustList SYS_set_robust_list
  by (rule native_executorI) (auto simp: execSyscall_setRobustList_def isolate_simps master_only_def split: if_splits)

interpretation n_mprotect: native_executor execSyscall_mprotect SYS_mprotect
  by (rule native_executorI) (auto simp: execSyscall_mprotect_def isolate_simps master_only_def split: if_splits option.splits Option.bind_splits)

interpretation n_munmap: native_executor execSyscall_munmap SYS_munmap
  by (rule native_executorI) (auto simp: execSyscall_munmap_def isolate_simps master_only_def split: if_splits option.splits Option.bind_splits)

interpretation n_rseq: native_executor execSyscall_rseq SYS_rseq
  by (rule native_executorI) (auto simp: execSyscall_rseq_def isolate_simps master_only_def split: if_splits)

interpretation n_fadvise64: native_executor execSyscall_fadvise64 SYS_fadvise64
  by (rule native_executorI) (auto simp: execSyscall_fadvise64_def isolate_simps master_only_def split: if_splits)

interpretation n_getrandom: native_executor execSyscall_getrandom SYS_getrandom
  by (rule native_executorI) (auto simp: execSyscall_getrandom_def isolate_simps master_only_def split: if_splits)

interpretation n_exit_group: native_executor execSyscall_exit_group SYS_exit_group
  by (rule native_executorI) (auto simp: execSyscall_exit_group_def isolate_simps master_only_def split: if_splits)

interpretation n_prlimit64: native_executor execSyscall_prlimit64 SYS_prlimit64
  by (rule native_executorI) (auto simp: execSyscall_prlimit64_def isolate_simps master_only_def split: if_splits)

interpretation n_rt_sigaction: native_executor execSyscall_rt_sigaction SYS_rt_sigaction
  by (rule native_executorI) (auto simp: execSyscall_rt_sigaction_def isolate_simps master_only_def split: if_splits)

interpretation n_rt_sigprocmask: native_executor execSyscall_rt_sigprocmask SYS_rt_sigprocmask
  by (rule native_executorI) (auto simp: execSyscall_rt_sigprocmask_def isolate_simps master_only_def split: if_splits)

interpretation n_unlink: native_executor execSyscall_unlink SYS_unlink
  by (rule native_executorI) (auto simp: execSyscall_unlink_def isolate_simps master_only_def split: if_splits)

interpretation n_utimensat: native_executor execSyscall_utimensat SYS_utimensat
  by (rule native_executorI) (auto simp: execSyscall_utimensat_def isolate_simps master_only_def split: if_splits)

interpretation n_fchown: native_executor execSyscall_fchown SYS_fchown
  by (rule native_executorI) (auto simp: execSyscall_fchown_def isolate_simps master_only_def split: if_splits)

interpretation n_fchmod: native_executor execSyscall_fchmod SYS_fchmod
  by (rule native_executorI) (auto simp: execSyscall_fchmod_def isolate_simps master_only_def split: if_splits)

interpretation n_lseek: native_executor execSyscall_lseek SYS_lseek
  by (rule native_executorI) (auto simp: execSyscall_lseek_def isolate_simps master_only_def split: if_splits)

interpretation n_getcwd: native_executor execSyscall_getcwd SYS_getcwd
  by (rule native_executorI) (auto simp: execSyscall_getcwd_def isolate_simps master_only_def split: if_splits)

interpretation n_getpid: native_executor execSyscall_getpid SYS_getpid
  by (rule native_executorI) (auto simp: execSyscall_getpid_def isolate_simps master_only_def split: if_splits)

interpretation n_chdir: native_executor execSyscall_chdir SYS_chdir
  by (rule native_executorI) (auto simp: execSyscall_chdir_def isolate_simps master_only_def split: if_splits)

interpretation n_socket: native_executor execSyscall_socket SYS_socket
  by (rule native_executorI) (auto simp: execSyscall_socket_def isolate_simps master_only_def split: if_splits)

interpretation n_setsockopt: native_executor execSyscall_setsockopt SYS_setsockopt
  by (rule native_executorI) (auto simp: execSyscall_setsockopt_def isolate_simps master_only_def split: if_splits)

interpretation n_bind: native_executor execSyscall_bind SYS_bind
  by (rule native_executorI) (auto simp: execSyscall_bind_def isolate_simps master_only_def split: if_splits)

interpretation n_listen: native_executor execSyscall_listen SYS_listen
  by (rule native_executorI) (auto simp: execSyscall_listen_def isolate_simps master_only_def split: if_splits)

interpretation n_accept4: native_executor execSyscall_accept4 SYS_accept4
  by (rule native_executorI) (auto simp: execSyscall_accept4_def isolate_simps master_only_def split: if_splits)

interpretation n_poll: native_executor execSyscall_poll SYS_poll
  by (rule native_executorI) (auto simp: execSyscall_poll_def isolate_simps master_only_def split: if_splits)

interpretation n_shutdown: native_executor execSyscall_shutdown SYS_shutdown
  by (rule native_executorI) (auto simp: execSyscall_shutdown_def isolate_simps master_only_def split: if_splits)

interpretation n_getsockname: native_executor execSyscall_getsockname SYS_getsockname
  by (rule native_executorI) (auto simp: execSyscall_getsockname_def isolate_simps master_only_def split: if_splits)

interpretation n_pselect6: native_executor execSyscall_pselect6 SYS_pselect6
  by (rule native_executorI) (auto simp: execSyscall_pselect6_def isolate_simps master_only_def split: if_splits)

lemma newfstatat_native: "native_executor execSyscall_newfstatat SYS_newfstatat"
proof (rule native_executorI)
  fix run :: "'k env" and m r :: vptr and s s' :: "'k mvee"
  assume *: "m \<noteq> r" "r \<noteq> m" "pids_ok s" "ps (proc_of s m) = EntryStop"
    "ps (proc_of s r) = EntryStop" "orig_rax (regs (proc_of s r)) = SYS_newfstatat"
    "\<And>k i p. ps p = InSyscall \<Longrightarrow>
       checkVariantExit (wait_status (snd (run k i p))) = 0 \<Longrightarrow> ps (snd (run k i p)) = ExitStop"
    "execSyscall_newfstatat run m r s = Some (0, s')"
  obtain b x where x: "fstatat_path m r s = (Inr b, x)"
    using fstatat_path_Inr by blast
  with * path_frames [OF x]
  show "traced_call run (pid (vars s m)) (pid (vars s r)) (world s) (proc_of s m) (world s') (proc_of s' m)"
    by (auto simp: execSyscall_newfstatat_def isolate_simps split: if_splits)
qed

interpretation n_newfstatat: native_executor execSyscall_newfstatat SYS_newfstatat
  by (rule newfstatat_native)

section \<open>The table\<close>

lemmas native_all =
  n_getuid.native_executor_axioms n_geteuid.native_executor_axioms n_getgid.native_executor_axioms
  n_getegid.native_executor_axioms n_brk.native_executor_axioms n_mmap.native_executor_axioms
  n_read.native_executor_axioms n_arch_prctl.native_executor_axioms
  n_openat.native_executor_axioms n_close.native_executor_axioms n_write.native_executor_axioms
  n_pread64.native_executor_axioms n_access.native_executor_axioms
  n_setTidAddress.native_executor_axioms n_setRobustList.native_executor_axioms
  n_mprotect.native_executor_axioms n_munmap.native_executor_axioms n_rseq.native_executor_axioms
  n_fadvise64.native_executor_axioms n_getrandom.native_executor_axioms
  n_exit_group.native_executor_axioms n_prlimit64.native_executor_axioms
  n_rt_sigaction.native_executor_axioms n_rt_sigprocmask.native_executor_axioms
  n_unlink.native_executor_axioms n_utimensat.native_executor_axioms
  n_fchown.native_executor_axioms n_fchmod.native_executor_axioms n_lseek.native_executor_axioms
  n_getcwd.native_executor_axioms n_getpid.native_executor_axioms n_chdir.native_executor_axioms
  n_socket.native_executor_axioms n_setsockopt.native_executor_axioms
  n_bind.native_executor_axioms n_listen.native_executor_axioms n_accept4.native_executor_axioms
  n_poll.native_executor_axioms n_shutdown.native_executor_axioms
  n_getsockname.native_executor_axioms n_pselect6.native_executor_axioms
  n_newfstatat.native_executor_axioms

lemma dispatch_native_all: "\<forall>(n, e) \<in> set dispatch_table. native_executor e n"
  unfolding dispatch_table_def by (simp add: native_all)

lemma sync_native:
  assumes "ptrace_alternates run" and "m \<noteq> r" and "at_entry s"
    and "orig_rax (regs (proc_of s r)) = nr s r" and "processSyscallSync run m r s = Some (0, s')"
  shows "(traced run (pid (vars s m)) (pid (vars s r)))\<^sup>*\<^sup>* (world s, proc_of s m) (world s', proc_of s' m)"
proof -
  obtain e where e: "nr s m = nr s r" "map_of dispatch_table (nr s m) = Some e" "e run m r s = Some (0, s')"
    using assms(5) by (rule processSyscallSync_0)
  then have "native_executor e (nr s r)"
    using dispatch_native_all map_of_SomeD by fastforce
  from native_executor.runs_natively [OF this assms(1-4) e(3)] assms(3) show ?thesis
    by (intro traced_call_steps) (auto simp: at_entry_def)
qed

section \<open>The rounds of the main loop\<close>

definition seen :: "'k mvee \<Rightarrow> 'k \<times> proc" where
  "seen s = (world s, proc_of s Vmaster)"

abbreviation traced_run :: "'k env \<Rightarrow> 'k mvee \<Rightarrow> 'k \<times> proc \<Rightarrow> 'k \<times> proc \<Rightarrow> bool" where
  "traced_run run s \<equiv> (traced run (pid (vars s Vmaster)) (pid (vars s Vreplica)))\<^sup>*\<^sup>*"

lemma arrived_traced:
  assumes "pids_ok s" and "is_running (ps (proc_of s v))" and "clean s"
    and "run (world s) (pid (vars s v)) (proc_of s v) = (k, p)"
  shows "traced_run run s (seen s) (k, proc_of (arrived v k p s) Vmaster)"
proof (cases v)
  case Vmaster
  then show ?thesis
    using traced.runs [OF assms(2), of run "pid (vars s Vmaster)" "pid (vars s Vreplica)" "world s"] assms(1,4)
    by (auto simp: seen_def)
next
  case Vreplica
  then show ?thesis
    using traced.beside [of "proc_of s Vreplica" run "pid (vars s Vmaster)" "pid (vars s Vreplica)" "world s"
        "proc_of s Vmaster"] assms
    by (auto simp: seen_def clean_def)
qed

lemma step_traced:
  assumes "ptrace_alternates run" and "safe n s" and "n < 2 ^ 64 - 1" and "clean s"
    and "child_event run v s = Some (Inr (), s')"
  shows "traced_run run s (seen s) (seen s')"
proof -
  have pids: "pids_ok s" using assms(2) by (simp add: safe_def well_typed_def)
  from assms(1-3,5) show ?thesis
  proof (cases rule: step_cases)
    case (exit_stop k p)
    have "traced_run run s (k, proc_of (arrived v k p s) Vmaster) (seen s')"
      using traced.resumes [of p run] exit_stop(2) pids by (auto simp: exit_stop(3) seen_def arrived_def)
    with arrived_traced [of s v run k p] exit_stop(1,4) pids assms(4) show ?thesis
      by (simp add: rtranclp_trans del: arrived_proc)
  next
    case (hold k p)
    with arrived_traced [of s v run k p] pids assms(4) show ?thesis
      by (simp add: seen_def hold_def arrived_def del: arrived_proc)
  next
    case (sync k p)
    note at = both_at_entry [OF assms(2) sync(4,2), of k]
    have "traced_run run s (k, proc_of (arrived v k p s) Vmaster) (seen s')"
      using sync_native [OF assms(1) _ at(1) at(3) [symmetric] sync(5)] pids
      by (cases v) (simp_all add: seen_def arrived_def)
    with arrived_traced [of s v run k p] sync(1,6) pids assms(4) show ?thesis
      by (simp add: rtranclp_trans del: arrived_proc)
  qed
qed

lemma reach_traced:
  assumes "reach run s0 n s" and "ptrace_alternates run" and "avoids run SYS_shutdown"
    and "safe 0 s0" and "clean s0" and "n < 2 ^ 64"
  shows "traced_run run s0 (seen s0) (seen s) \<and> (wedged s \<or> clean s)"
  using assms
proof (induction rule: reach.induct)
  case start
  then show ?case by simp
next
  case (more n s s')
  then have n: "n < 2 ^ 64 - 1" by simp
  have wedged: "\<not> wedged s" using more.hyps(2) wedged_no_step by blast
  then have safe: "safe n s" using reach_cases [OF more.hyps(1) more.prems(1-3)] n by simp
  obtain v where v: "child_event run v s = Some (Inr (), s')"
    using more.hyps(2) by (auto elim!: mvee_stepE dest!: main_round_child)
  have IH: "traced_run run s0 (seen s0) (seen s)" "clean s"
    using more n wedged by simp_all
  have "same_ids s0 s"
    using reach_same_ids [OF more.hyps(1) more.prems(1-3)] n by simp
  then have "traced_run run s0 (seen s) (seen s')"
    using step_traced [OF more.prems(1) safe n IH(2) v] by (simp add: same_ids_def)
  with IH step_clean [OF more.prems(1) safe n IH(2) v] show ?case by (simp add: rtranclp_trans)
qed

section \<open>The whole program\<close>

lemma start_world: "world (start_variants mpid rpid child maff mimg raff rimg s) = world s"
  by (simp add: start_variants_def initVariant_def createVariant_def configureChildProc_def Let_def
      upd_var_def upd_proc_def resumeVariantFromWait_def)

text \<open>C6: Transparency, for a program that does not call \<open>shutdown\<close>, started with two variants that
  could be created, pinned and loaded. In every state in which the loop is after less than 2^64
  rounds, the outside world and the image of the master are where they can be without the
  monitor: they are reached from the outside world before and the image that \<open>execvpe\<close> loaded by
  the master's own runs and the kernel's, by its being resumed from stops, by the register that
  \<open>execSyscall_write\<close> sets at an exit stop, and, in the outside world alone, by runs of the
  replica that are not in a call that belongs to the master. In such a run the monitor never
  writes to the master's memory and never changes a result or an argument of its calls.\<close>

theorem master_runs_natively:
  assumes "ptrace_alternates run" and "avoids run SYS_shutdown" and "mpid \<noteq> rpid"
    and "mmaps s = initial_heap" and "affinity (systemCores - 2)" and "affinity (systemCores - 3)"
    and "main_program run argc systemCores affinity mpid rpid child (Some p) (Some q) children s =
      Some (Inr (), t)"
    and "length children < 2 ^ 64"
  shows "(traced run mpid rpid)\<^sup>*\<^sup>* (world s, p\<lparr>ps := InUser, opts := PTRACE_O_TRACESYSGOOD\<rparr>)
     (world t, proc_of t Vmaster)"
proof -
  let ?s = "start_variants mpid rpid child True (Some p) True (Some q) s"
  have "main_loop run children ?s = Some (Inr (), t)"
    using assms(7) by (auto simp: main_enters assms(5,6) split: if_splits)
  then have "reach run ?s (length children) t" by (rule main_loop_reach)
  from reach_traced [OF this assms(1,2) start_safe [OF assms(3,4)] start_clean [OF assms(3,4)] assms(8)]
  show ?thesis
    by (simp add: seen_def start_sel(1,2) [OF assms(3,4) refl] start_image [OF assms(3)] start_world)
qed

theorem master_runs_natively_witness:
  "(traced (kernel SYS_brk 0) 1 2)\<^sup>*\<^sup>* ((), image InUser 0 no_args (filled 0))
     ((), image EntryStop SYS_brk no_args (filled 0))"
proof -
  let ?i = "image InUser 0 no_args (filled 0)"
  have "main_program (kernel SYS_brk 0) 1 4 (\<lambda>_. True) 1 2 ?i (Some ?i) (Some ?i) [1] both_user =
      Some (Inr (), one_waits)"
    using one_waits_round [of "kernel SYS_brk 0", OF kernel_arrives]
    by (simp add: main_program_def start_both_user)
  from master_runs_natively [OF kernel_alternates kernel_avoids _ _ _ _ this]
  have "(traced (kernel SYS_brk 0) 1 2)\<^sup>*\<^sup>* ((), ?i\<lparr>ps := InUser, opts := 1\<rparr>)
      ((), image EntryStop SYS_brk no_args (filled 0))"
    by (simp add: both_user_def one_waits_sel)
  then show ?thesis by (simp add: image_def)
qed

end
