(* ===== verification/Arrival.thy ===== *)
theory Arrival
  imports Start "HOL-Library.Multiset"
begin

text \<open>
  The order in which the two variants arrive at a call does not matter. The executors never look
  at the field \<open>state\<close> of a variant, which is all that tells who came first; so, if user
  code does not change the outside world, the monitor does the same whoever's stop is
  reported first.
\<close>

section \<open>Forgetting who waits\<close>

definition blur :: "'k mvee \<Rightarrow> 'k mvee" where
  "blur s = s\<lparr>vars := (\<lambda>v. (vars s v)\<lparr>state := VSTATE_RUNNING\<rparr>)\<rparr>"

lemma blur_sel [simp]:
  "procs (blur s) = procs s" "world (blur s) = world s" "bufA (blur s) = bufA s"
  "bufB (blur s) = bufB s" "newfstatat_bufA (blur s) = newfstatat_bufA s"
  "newfstatat_bufB (blur s) = newfstatat_bufB s" "mmaps (blur s) = mmaps s"
  "vars (blur s) v = (vars s v)\<lparr>state := VSTATE_RUNNING\<rparr>"
  "proc_of (blur s) v = proc_of s v" "arg (blur s) v i = arg s v i" "rval (blur s) v = rval s v"
  "nr (blur s) v = nr s v"
  by (simp_all add: blur_def proc_of_def arg_def rval_def nr_def)

lemma blur_updates [simp]:
  "upd_proc v f (blur s) = blur (upd_proc v f s)"
  "(blur s)\<lparr>world := k\<rparr> = blur (s\<lparr>world := k\<rparr>)"
  "(blur s)\<lparr>mmaps := mh\<rparr> = blur (s\<lparr>mmaps := mh\<rparr>)"
  "(blur s)\<lparr>bufA := b\<rparr> = blur (s\<lparr>bufA := b\<rparr>)"
  "(blur s)\<lparr>bufB := b\<rparr> = blur (s\<lparr>bufB := b\<rparr>)"
  "(blur s)\<lparr>newfstatat_bufA := b\<rparr> = blur (s\<lparr>newfstatat_bufA := b\<rparr>)"
  "(blur s)\<lparr>newfstatat_bufB := b\<rparr> = blur (s\<lparr>newfstatat_bufB := b\<rparr>)"
  by (simp_all add: blur_def upd_proc_def proc_of_def)

lemma blur_controls [simp]:
  "resumeVariantFromWait v (blur s) = blur (resumeVariantFromWait v s)"
  "resumeVariantFromExit v (blur s) = blur (resumeVariantFromExit v s)"
  "requestSyscallInfo v (blur s) = blur (requestSyscallInfo v s)"
  "setSyscall v n (blur s) = blur (setSyscall v n s)"
  "setNopSyscall v (blur s) = blur (setNopSyscall v s)"
  "setSyscallReturnValue v x (blur s) = blur (setSyscallReturnValue v x s)"
  "set_lseek_args v x y (blur s) = blur (set_lseek_args v x y s)"
  by (auto simp: ctl_defs set_lseek_args_def upd_var_def blur_def upd_proc_def proc_of_def fun_eq_iff)

lemma blur_memory [simp]:
  "readVariantMem v b a sz (blur s) = readVariantMem v b a sz s"
  "writeVariantMem v b a sz (blur s) = map_prod id blur (writeVariantMem v b a sz s)"
  "variantMemCmp v a w c sz (blur s) = map_prod id blur (variantMemCmp v a w c sz s)"
  "variantStrCmp v a w c (blur s) = map_prod id blur (variantStrCmp v a w c s)"
  "transferVariantMem v a w c sz (blur s) = map_prod id blur (transferVariantMem v a w c sz s)"
  "fstatat_path v w (blur s) = map_prod id blur (fstatat_path v w s)"
  by (simp_all add: readVariantMem_def writeVariantMem_def variantMemCmp_def variantStrCmp_def
      transferVariantMem_def fstatat_path_def Let_def case_prod_beta split: sum.splits)

lemma blur_wait [simp]:
  "waitVariant run v (blur s) = map_option (map_prod id blur) (waitVariant run v s)"
  by (simp add: waitVariant_def waitpid_def case_prod_beta)

section \<open>The contract of an executor\<close>

locale order_blind =
  fixes exec :: "'k exec"
  assumes blind: "exec run m r (blur s) = map_option (map_prod id blur) (exec run m r s)"

lemma map_option_bind:
  "map_option f (Option.bind x g) = Option.bind x (\<lambda>y. map_option f (g y))"
  by (cases x) simp_all

lemma map_option_if: "map_option f (if c then x else y) = (if c then map_option f x else map_option f y)"
  by simp

lemma map_option_pick:
  "map_option f (case x of None \<Rightarrow> a | Some c \<Rightarrow> b c) = (case x of None \<Rightarrow> map_option f a | Some c \<Rightarrow> map_option f (b c))"
  "map_option f (case y of Inl i \<Rightarrow> p i | Inr j \<Rightarrow> q j) = (case y of Inl i \<Rightarrow> map_option f (p i) | Inr j \<Rightarrow> map_option f (q j))"
  by (simp_all split: option.split sum.split)

lemma resume_both_blur [simp]: "resume_both m r (blur s) = blur (resume_both m r s)"
  by (simp add: resume_both_def)

lemma blur_if:
  "(if c then map_prod id blur x else (n, blur t)) = map_prod id blur (if c then x else (n, t))"
  "(if c then map_prod id blur x else map_prod id blur y) = map_prod id blur (if c then x else y)"
  "(if c then blur t else blur u) = blur (if c then t else u)"
  by simp_all

lemmas blind_simps = blur_if Let_def case_prod_beta map_option_bind map_option_if map_option_pick
  bind_map_option o_def

lemma blur_runs [simp]:
  "runMasterReplicateRet run m r (blur s) = map_option (map_prod id blur) (runMasterReplicateRet run m r s)"
  "runBothCopyMasterRet run m r (blur s) = map_option (map_prod id blur) (runBothCopyMasterRet run m r s)"
  by (simp_all add: runMasterReplicateRet_def runBothCopyMasterRet_def blind_simps cong: if_cong)

interpretation b_no_args: order_blind exec_no_args
  by unfold_locales (simp add: exec_no_args_def blind_simps cong: if_cong)

interpretation b_brk: order_blind execSyscall_brk
  by unfold_locales (simp add: execSyscall_brk_def blind_simps cong: if_cong)

interpretation b_mmap: order_blind execSyscall_mmap
  by unfold_locales (simp add: execSyscall_mmap_def blind_simps cong: if_cong)

interpretation b_read: order_blind execSyscall_read
  by unfold_locales (simp add: execSyscall_read_def blind_simps cong: if_cong)

interpretation b_arch_prctl: order_blind execSyscall_arch_prctl
  by unfold_locales (simp add: execSyscall_arch_prctl_def blind_simps cong: if_cong)

interpretation b_openat: order_blind execSyscall_openat
  by unfold_locales (simp add: execSyscall_openat_def blind_simps cong: if_cong)

interpretation b_close: order_blind execSyscall_close
  by unfold_locales (simp add: execSyscall_close_def blind_simps cong: if_cong)

interpretation b_write: order_blind execSyscall_write
  by unfold_locales (simp add: execSyscall_write_def blind_simps cong: if_cong)

interpretation b_pread64: order_blind execSyscall_pread64
  by unfold_locales (simp add: execSyscall_pread64_def blind_simps cong: if_cong)

lemma newfstatat_blind:
  "execSyscall_newfstatat run m r (blur s) = map_option (map_prod id blur) (execSyscall_newfstatat run m r s)"
proof -
  obtain b x where x: "fstatat_path m r s = (Inr b, x)"
    using fstatat_path_Inr by blast
  then show ?thesis
    using fstatat_path_Inr [of m r s]
    by (cases "arg s m 0 = arg s r 0")
      (simp_all add: execSyscall_newfstatat_def blind_simps cong: if_cong)
qed

interpretation b_newfstatat: order_blind execSyscall_newfstatat
  by unfold_locales (rule newfstatat_blind)

interpretation b_access: order_blind execSyscall_access
  by unfold_locales (simp add: execSyscall_access_def blind_simps cong: if_cong)

interpretation b_setTidAddress: order_blind execSyscall_setTidAddress
  by unfold_locales (simp add: execSyscall_setTidAddress_def blind_simps cong: if_cong)

interpretation b_setRobustList: order_blind execSyscall_setRobustList
  by unfold_locales (simp add: execSyscall_setRobustList_def blind_simps cong: if_cong)

interpretation b_mprotect: order_blind execSyscall_mprotect
  by unfold_locales (simp add: execSyscall_mprotect_def blind_simps cong: if_cong option.case_cong)

interpretation b_munmap: order_blind execSyscall_munmap
  by unfold_locales (simp add: execSyscall_munmap_def blind_simps case_prod_beta' cong: if_cong option.case_cong)

interpretation b_rseq: order_blind execSyscall_rseq
  by unfold_locales (simp add: execSyscall_rseq_def blind_simps cong: if_cong)

interpretation b_fadvise64: order_blind execSyscall_fadvise64
  by unfold_locales (simp add: execSyscall_fadvise64_def blind_simps cong: if_cong)

interpretation b_getrandom: order_blind execSyscall_getrandom
  by unfold_locales (simp add: execSyscall_getrandom_def blind_simps cong: if_cong)

interpretation b_exit_group: order_blind execSyscall_exit_group
  by unfold_locales (simp add: execSyscall_exit_group_def blind_simps cong: if_cong)

interpretation b_prlimit64: order_blind execSyscall_prlimit64
  by unfold_locales (simp add: execSyscall_prlimit64_def blind_simps cong: if_cong)

interpretation b_rt_sigaction: order_blind execSyscall_rt_sigaction
  by unfold_locales (simp add: execSyscall_rt_sigaction_def blind_simps cong: if_cong)

interpretation b_rt_sigprocmask: order_blind execSyscall_rt_sigprocmask
  by unfold_locales (simp add: execSyscall_rt_sigprocmask_def blind_simps cong: if_cong)

interpretation b_unlink: order_blind execSyscall_unlink
  by unfold_locales (simp add: execSyscall_unlink_def blind_simps cong: if_cong)

interpretation b_utimensat: order_blind execSyscall_utimensat
  by unfold_locales (simp add: execSyscall_utimensat_def blind_simps cong: if_cong)

interpretation b_fchown: order_blind execSyscall_fchown
  by unfold_locales (simp add: execSyscall_fchown_def blind_simps cong: if_cong)

interpretation b_fchmod: order_blind execSyscall_fchmod
  by unfold_locales (simp add: execSyscall_fchmod_def blind_simps cong: if_cong)

interpretation b_lseek: order_blind execSyscall_lseek
  by unfold_locales (simp add: execSyscall_lseek_def blind_simps cong: if_cong)

interpretation b_getcwd: order_blind execSyscall_getcwd
  by unfold_locales (simp add: execSyscall_getcwd_def blind_simps cong: if_cong)

interpretation b_getpid: order_blind execSyscall_getpid
  by unfold_locales (simp add: execSyscall_getpid_def blind_simps cong: if_cong)

interpretation b_chdir: order_blind execSyscall_chdir
  by unfold_locales (simp add: execSyscall_chdir_def blind_simps cong: if_cong)

interpretation b_socket: order_blind execSyscall_socket
  by unfold_locales (simp add: execSyscall_socket_def blind_simps cong: if_cong)

interpretation b_setsockopt: order_blind execSyscall_setsockopt
  by unfold_locales (simp add: execSyscall_setsockopt_def blind_simps cong: if_cong)

interpretation b_bind: order_blind execSyscall_bind
  by unfold_locales (simp add: execSyscall_bind_def blind_simps cong: if_cong)

interpretation b_listen: order_blind execSyscall_listen
  by unfold_locales (simp add: execSyscall_listen_def blind_simps cong: if_cong)

interpretation b_accept4: order_blind execSyscall_accept4
  by unfold_locales (simp add: execSyscall_accept4_def blind_simps cong: if_cong)

interpretation b_poll: order_blind execSyscall_poll
  by unfold_locales (simp add: execSyscall_poll_def blind_simps cong: if_cong)

interpretation b_shutdown: order_blind execSyscall_shutdown
  by unfold_locales (simp add: execSyscall_shutdown_def blind_simps cong: if_cong)

interpretation b_getsockname: order_blind execSyscall_getsockname
  by unfold_locales (simp add: execSyscall_getsockname_def blind_simps cong: if_cong)

interpretation b_pselect6: order_blind execSyscall_pselect6
  by unfold_locales (simp add: execSyscall_pselect6_def blind_simps cong: if_cong)

section \<open>The table\<close>

lemmas blind_all =
  b_no_args.order_blind_axioms b_brk.order_blind_axioms b_mmap.order_blind_axioms
  b_read.order_blind_axioms b_arch_prctl.order_blind_axioms b_openat.order_blind_axioms
  b_close.order_blind_axioms b_write.order_blind_axioms b_pread64.order_blind_axioms
  b_newfstatat.order_blind_axioms b_access.order_blind_axioms b_setTidAddress.order_blind_axioms
  b_setRobustList.order_blind_axioms b_mprotect.order_blind_axioms b_munmap.order_blind_axioms
  b_rseq.order_blind_axioms b_fadvise64.order_blind_axioms b_getrandom.order_blind_axioms
  b_exit_group.order_blind_axioms b_prlimit64.order_blind_axioms b_rt_sigaction.order_blind_axioms
  b_rt_sigprocmask.order_blind_axioms b_unlink.order_blind_axioms b_utimensat.order_blind_axioms
  b_fchown.order_blind_axioms b_fchmod.order_blind_axioms b_lseek.order_blind_axioms
  b_getcwd.order_blind_axioms b_getpid.order_blind_axioms b_chdir.order_blind_axioms
  b_socket.order_blind_axioms b_setsockopt.order_blind_axioms b_bind.order_blind_axioms
  b_listen.order_blind_axioms b_accept4.order_blind_axioms b_poll.order_blind_axioms
  b_shutdown.order_blind_axioms b_getsockname.order_blind_axioms b_pselect6.order_blind_axioms

lemma dispatch_blind_all: "\<forall>(n, e) \<in> set dispatch_table. order_blind e"
  unfolding dispatch_table_def by (simp add: blind_all)

lemma sync_blind:
  "processSyscallSync run m r (blur s) = map_option (map_prod id blur) (processSyscallSync run m r s)"
proof -
  have "e run m r (blur s) = map_option (map_prod id blur) (e run m r s)"
    if "map_of dispatch_table (nr s m) = Some e" for e
    using that dispatch_blind_all map_of_SomeD order_blind.blind by fastforce
  then show ?thesis
    by (simp add: processSyscallSync_def split: option.splits)
qed

section \<open>Two stops in either order\<close>

text \<open>
  The processes \<open>i\<close> and \<open>j\<close> do not interfere with each other: what each does up to its next
  stop, and what both together do to the outside world, does not depend on who runs first.
\<close>

definition commuting :: "'k env \<Rightarrow> int \<Rightarrow> int \<Rightarrow> bool" where
  "commuting run i j \<longleftrightarrow>
     (\<forall>k p q. is_running (ps p) \<longrightarrow> is_running (ps q) \<longrightarrow> (
        let (k1, p') = run k i p; (k2, q') = run k1 j q; (k3, q'') = run k j q
        in q'' = q' \<and> run k3 i p = (k2, p')))"

lemma commutingD:
  assumes "commuting run i j" and "is_running (ps p)" and "is_running (ps q)"
    and "run k i p = (k1, p')" and "run k1 j q = (k2, q')"
  obtains k3 where "run k j q = (k3, q')" and "run k3 i p = (k2, p')"
proof -
  obtain k3 q'' where k3: "run k j q = (k3, q'')" by fastforce
  have "let (k1, p') = run k i p; (k2, q') = run k1 j q; (k3, q'') = run k j q
        in q'' = q' \<and> run k3 i p = (k2, p')"
    using assms(1-3) unfolding commuting_def by blast
  then show ?thesis using that assms(4,5) k3 by simp
qed

lemma commuting_sym:
  assumes "commuting run i j"
  shows "commuting run j i"
  unfolding commuting_def
proof (intro allI impI)
  fix k and q p :: proc
  assume running: "is_running (ps q)" "is_running (ps p)"
  obtain k3 p' where 1: "run k i p = (k3, p')" by fastforce
  obtain k2 q' where 2: "run k3 j q = (k2, q')" by fastforce
  obtain k1 where "run k j q = (k1, q')" "run k1 i p = (k2, p')"
    using assms running(2,1) 1 2 by (rule commutingD)
  with 1 2 show "let (k1, p') = run k j q; (k2, q') = run k1 i p; (k3, q'') = run k i p
      in q'' = q' \<and> run k3 j q = (k2, p')"
    by simp
qed

text \<open>The three events of a round, for the stop that \<open>run\<close> gives.\<close>

definition met :: "int \<times> 'k mvee \<Rightarrow> (int + unit) \<times> 'k mvee" where
  "met = (\<lambda>(x, s). if x \<noteq> 0 then (Inl 1, upd_proc Vreplica kill9 (upd_proc Vmaster kill9 s))
                   else (Inr (), s))"

lemma met_blur: "map_prod id blur (met y) = met (map_prod id blur y)"
  by (simp add: met_def case_prod_beta)

lemma event_holds:
  assumes "pids_ok s" and "ps (proc_of s v) = InUser"
    and "run (world s) (pid (vars s v)) (proc_of s v) = (k, p)" and "ps p = EntryStop"
    and "num s w = num s v \<and> state (vars s w) \<noteq> VSTATE_WAIT \<or> num s w < num s v" and "w = other v"
  shows "child_event run v s = Some (Inr (), hold v (arrived v k p s))"
  using assms event_entry [OF assms(4,1), of v w run k]
  by (auto simp: child_event_def waitpid_def check_stop)

lemma event_meets:
  assumes "well_typed s" and "ps (proc_of s v) = InUser"
    and "run (world s) (pid (vars s v)) (proc_of s v) = (k, p)" and "ps p = EntryStop"
    and "num s (other v) = num s v" and "state (vars s (other v)) = VSTATE_WAIT"
  shows "child_event run v s =
    map_option met (processSyscallSync run Vmaster Vreplica (arrived v k p s))"
proof -
  have pids: "pids_ok s" using assms(1) by (simp add: well_typed_def)
  show ?thesis
    using assms(2-6) event_entry [OF assms(4) pids other_neq(2), of run v k]
    by (cases "processSyscallSync run Vmaster Vreplica (arrived v k p s)")
      (auto simp: child_event_def waitpid_def check_stop sync_variants [OF assms(1)] Let_def met_def
        case_prod_beta)
qed

lemma event_leaves:
  assumes "pids_ok s" and "ps (proc_of s v) = InSyscall"
    and "run (world s) (pid (vars s v)) (proc_of s v) = (k, p)" and "ps p = ExitStop"
  shows "child_event run v s = Some (Inr (), resumeVariantFromExit v (arrived v k p s))"
  using assms(2,3,4) event_exit [OF assms(4,1), of run v "other v" k]
  by (simp add: child_event_def waitpid_def check_stop)

text \<open>The states after two events, in either order.\<close>

lemma two_stops:
  assumes "pids_ok s" and "v \<noteq> w"
  shows "blur (arrived w k q (hold v (arrived v k1 p s))) = blur (arrived v k p (hold w (arrived w k2 q s)))"
    and "resumeVariantFromExit w (arrived w k q (hold v (arrived v k1 p s))) =
      hold v (arrived v k p (resumeVariantFromExit w (arrived w k2 q s)))"
    and "resumeVariantFromExit w (arrived w k q (resumeVariantFromExit v (arrived v k1 p s))) =
      resumeVariantFromExit v (arrived v k p (resumeVariantFromExit w (arrived w k2 q s)))"
  using assms pid_inj [OF assms(1), of v w]
  by (auto simp: blur_def arrived_def hold_def upd_var_def upd_proc_def ctl_defs proc_of_def fun_eq_iff)

text \<open>In lockstep the field \<open>state\<close> tells nothing new: who waits is at its entry stop.\<close>

lemma safe_blur_inj:
  assumes "safe n s" and "safe n' t" and "blur s = blur t"
  shows "s = t"
proof -
  have st: "state (vars u v) = (if ps (proc_of u v) = EntryStop then VSTATE_WAIT else VSTATE_RUNNING)"
    if "safe i u" for i u v
    using that unfolding safe_def lockstep_two [OF other_neq(2) [of v]]
    by (auto simp: level_def ahead_def in_user_def in_call_def waiting_def)
  have vs: "(vars s v)\<lparr>state := VSTATE_RUNNING\<rparr> = (vars t v)\<lparr>state := VSTATE_RUNNING\<rparr>"
    "proc_of s v = proc_of t v" for v
    using arg_cong [OF assms(3), of "\<lambda>u. vars u v"] arg_cong [OF assms(3), of "\<lambda>u. proc_of u v"] by simp_all
  have "vars s v = vars t v" for v
  proof (rule variant.equality)
    show "state (vars s v) = state (vars t v)" using st [OF assms(1)] st [OF assms(2)] vs(2) by simp
  qed (use vs(1) [of v] in \<open>metis variant.select_convs variant.surjective variant.update_convs\<close>)+
  then have "vars s = vars t" by (rule ext)
  moreover have "s = (blur s)\<lparr>vars := vars s\<rparr>" "t = (blur t)\<lparr>vars := vars t\<rparr>"
    by (simp_all add: blur_def)
  ultimately show ?thesis using assms(3) by metis
qed

section \<open>The diamond\<close>

lemma child_safe:
  assumes "ptrace_alternates run" and "avoids run SYS_shutdown" and "avoids run SYS_access"
    and "safe n s" and "n < 2 ^ 64 - 1" and "child_event run v s = Some (Inr (), s')"
  shows "safe (Suc n) s'"
proof -
  have "pids_ok s" using assms(4) by (simp add: safe_def well_typed_def)
  then have "mvee_step run s s'"
    using assms(6) main_round_pid [of s run v] by (intro mvee_step.round [of run "pid (vars s v)"]) simp
  with step_safe [OF assms(1,2,4,5)] assms(3) show ?thesis by blast
qed

text \<open>How two running variants stand to each other.\<close>

lemma both_running:
  assumes "safe n s" and "n < 2 ^ 64 - 1" and "ps (proc_of s v) = InUser"
  shows "ps (proc_of s (other v)) = InUser \<Longrightarrow> num s (other v) = num s v \<and> state (vars s (other v)) = VSTATE_RUNNING"
    and "ps (proc_of s (other v)) = InSyscall \<Longrightarrow>
      num s v = num s (other v) + 1 \<and> num s (other v) < num s v \<and> state (vars s (other v)) = VSTATE_RUNNING"
proof -
  have "unat (num s (other v)) \<le> n" using assms(1) by (simp add: safe_def counted_def)
  then have "num s (other v) < num s (other v) + 1"
    using assms(2) by (simp add: word_less_nat_alt unat_count)
  then show "ps (proc_of s (other v)) = InUser \<Longrightarrow> num s (other v) = num s v \<and> state (vars s (other v)) = VSTATE_RUNNING"
    "ps (proc_of s (other v)) = InSyscall \<Longrightarrow>
      num s v = num s (other v) + 1 \<and> num s (other v) < num s v \<and> state (vars s (other v)) = VSTATE_RUNNING"
    using assms(1,3) unfolding safe_def lockstep_two [OF other_neq(2) [of v]]
    by (auto simp: level_def ahead_def in_user_def in_call_def waiting_def)
qed

lemma arrived_world [simp]:
  "world (arrived v k p s) = k" "world (hold v s) = world s"
  by (simp_all add: hold_def arrived_def)

lemma diamond:
  assumes "ptrace_alternates run" and "avoids run SYS_shutdown" and "avoids run SYS_access"
    and "safe n s" and "Suc n < 2 ^ 64 - 1"
    and "commuting run (pid (vars s v)) (pid (vars s (other v)))"
    and "child_event run v s = Some (Inr (), s1)" and "is_running (ps (proc_of s (other v)))"
    and "child_event run (other v) s1 = Some (Inr (), s2)"
  shows "\<exists>t. child_event run (other v) s = Some (Inr (), t) \<and> child_event run v t = Some (Inr (), s2)"
proof -
  let ?w = "other v"
  have n: "n < 2 ^ 64 - 1" using assms(5) by simp
  have pids: "pids_ok s" and wt: "well_typed s"
    using assms(4) by (simp_all add: safe_def well_typed_def)
  note safe1 = child_safe [OF assms(1-4) n assms(7)]
  note safe2 = child_safe [OF assms(1-3) safe1 assms(5,9)]
  have swap: "\<exists>k3. run (world s) (pid (vars s ?w)) (proc_of s ?w) = (k3, q) \<and>
      run k3 (pid (vars s v)) (proc_of s v) = (k2, p)"
    if "run (world s) (pid (vars s v)) (proc_of s v) = (k, p)"
      and "run k (pid (vars s ?w)) (proc_of s ?w) = (k2, q)" for k p k2 q
  proof -
    have "is_running (ps (proc_of s v))"
      using assms(7) by (auto simp: child_event_def waitpid_def bindE split: if_splits)
    from commutingD [OF assms(6) this assms(8) that] show ?thesis by blast
  qed
  from assms(1,4) n assms(7) show ?thesis
  proof (cases rule: step_cases)
    case v: (exit_stop k p)
    from assms(1) safe1 assms(5,9) show ?thesis
    proof (cases rule: step_cases)
      case w: (exit_stop k2 q)
      obtain k3 where k3: "run (world s) (pid (vars s ?w)) (proc_of s ?w) = (k3, q)"
          "run k3 (pid (vars s v)) (proc_of s v) = (k2, p)"
        using swap [OF v(4)] w(4) v(3) pids by auto
      let ?t = "resumeVariantFromExit ?w (arrived ?w k3 q s)"
      have "child_event run ?w s = Some (Inr (), ?t)"
        using w(1,2) v(3) pids k3(1) by (intro event_leaves) simp_all
      moreover have "child_event run v ?t = Some (Inr (), resumeVariantFromExit v (arrived v k2 p ?t))"
        using v(1,2) pids k3(2) by (intro event_leaves) simp_all
      ultimately show ?thesis
        using two_stops(3) [OF pids other_neq(2), of v k2 q k p k3] v(3) w(3) by simp
    next
      case w: (hold k2 q)
      obtain k3 where k3: "run (world s) (pid (vars s ?w)) (proc_of s ?w) = (k3, q)"
          "run k3 (pid (vars s v)) (proc_of s v) = (k2, p)"
        using swap [OF v(4)] w(5) v(3) pids by auto
      let ?t = "hold ?w (arrived ?w k3 q s)"
      have u: "ps (proc_of s ?w) = InUser" using w(1) v(3) pids by simp
      have "child_event run ?w s = Some (Inr (), ?t)"
        using both_running(2) [OF assms(4) n u, unfolded other_other, OF v(1), THEN conjunct2] w(2) k3(1)
        by (intro event_holds [where w = v, OF pids u]) simp_all
      moreover have "child_event run v ?t = Some (Inr (), resumeVariantFromExit v (arrived v k2 p ?t))"
        using v(1,2) pids k3(2) by (intro event_leaves) simp_all
      ultimately show ?thesis
        using two_stops(2) [OF pids other_neq(1), of v k2 p k3 q k] v(3) w(4) by simp
    next
      case (sync k2 q)
      then show ?thesis using v(2,3) pids by (simp add: waiting_def)
    qed
  next
    case v: (hold k p)
    from assms(1) safe1 assms(5,9) show ?thesis
    proof (cases rule: step_cases)
      case w: (exit_stop k2 q)
      obtain k3 where k3: "run (world s) (pid (vars s ?w)) (proc_of s ?w) = (k3, q)"
          "run k3 (pid (vars s v)) (proc_of s v) = (k2, p)"
        using swap [OF v(5)] w(4) v(4) pids by auto
      let ?t = "resumeVariantFromExit ?w (arrived ?w k3 q s)"
      have c: "ps (proc_of s ?w) = InSyscall" using w(1) v(4) pids by simp
      have "child_event run ?w s = Some (Inr (), ?t)"
        using w(2) pids k3(1) c by (intro event_leaves) simp_all
      moreover have "child_event run v ?t = Some (Inr (), hold v (arrived v k2 p ?t))"
        using both_running(2) [OF assms(4) n v(1) c] v(1,2) pids k3(2)
        by (intro event_holds [where w = ?w]) (simp_all add: num_def)
      ultimately show ?thesis
        using two_stops(2) [OF pids other_neq(2), of v k2 q k p k3] v(4) w(3) by simp
    next
      case w: (hold k2 q)
      have "ps (proc_of s ?w) = InUser" using w(1) v(4) pids by simp
      from both_running(1) [OF assms(4) n v(1) this] w(3) v(4) pids show ?thesis
        by (simp add: num_def)
    next
      case w: (sync k2 q)
      obtain k3 where k3: "run (world s) (pid (vars s ?w)) (proc_of s ?w) = (k3, q)"
          "run k3 (pid (vars s v)) (proc_of s v) = (k2, p)"
        using swap [OF v(5)] w(6) v(4) pids by auto
      let ?t = "hold ?w (arrived ?w k3 q s)"
      have u: "ps (proc_of s ?w) = InUser" using w(1) v(4) pids by simp
      note eq = both_running(1) [OF assms(4) n v(1) u]
      have st: "state (vars s v) = VSTATE_RUNNING"
        using both_running(1) [OF assms(4) n u] v(1) by simp
      have t: "child_event run ?w s = Some (Inr (), ?t)"
        using eq st w(2) k3(1) by (intro event_holds [where w = v, OF pids u]) simp_all
      have meet: "child_event run v ?t = map_option met (processSyscallSync run Vmaster Vreplica (arrived v k2 p ?t))"
        using wt v(1,2) k3(2) pids eq
        by (intro event_meets) (simp_all add: well_typed_def maps_ok_def num_def)
      have "map_option (map_prod id blur) (processSyscallSync run Vmaster Vreplica (arrived v k2 p ?t)) =
          Some (0, blur s2)"
        using two_stops(1) [OF pids other_neq(2), of v k2 q k p k3] w(5) v(4)
          sync_blind [of run Vmaster Vreplica "arrived v k2 p ?t"]
          sync_blind [of run Vmaster Vreplica "arrived ?w k2 q s1"]
        by simp
      then obtain t' where t': "processSyscallSync run Vmaster Vreplica (arrived v k2 p ?t) = Some (0, t')"
          "blur t' = blur s2"
        by auto
      then have vt: "child_event run v ?t = Some (Inr (), t')" using meet by (simp add: met_def)
      have "safe (Suc (Suc n)) t'"
        using child_safe [OF assms(1-3) child_safe [OF assms(1-4) n t] assms(5) vt] .
      from safe_blur_inj [OF this safe2 t'(2)] t vt show ?thesis by blast
    qed
  next
    case (sync k p)
    then show ?thesis using assms(8) by (simp add: waiting_def)
  qed
qed

section \<open>Whole schedules\<close>

lemma still_running:
  assumes "ptrace_alternates run" and "safe n s" and "n < 2 ^ 64 - 1"
    and "child_event run v s = Some (Inr (), s')" and "is_running (ps (proc_of s (other v)))"
  shows "proc_of s' (other v) = proc_of s (other v)"
proof -
  have pids: "pids_ok s" using assms(2) by (simp add: safe_def well_typed_def)
  from assms(1-4) show ?thesis
    by (cases rule: step_cases) (use assms(5) pids in \<open>simp_all add: waiting_def\<close>)
qed

lemma round_of_variant:
  assumes "pids_ok s" and "main_round run c s = Some (Inr (), s')"
  obtains v where "c = pid (vars s v)" and "child_event run v s = Some (Inr (), s')"
  using assms by (auto simp: main_round_def split: if_splits)

lemma commuting_other:
  "commuting run (pid (vars s Vmaster)) (pid (vars s Vreplica)) \<Longrightarrow>
   commuting run (pid (vars s v)) (pid (vars s (other v)))"
  by (cases v) (simp_all add: commuting_sym)

lemma loop_first:
  assumes "main_loop run (c # cs) s = Some (Inr (), t)"
  obtains s1 where "main_round run c s = Some (Inr (), s1)" and "main_loop run cs s1 = Some (Inr (), t)"
  using assms unfolding main_loop_Cons by blast

text \<open>A stop that can be reported now can be reported before those that come first.\<close>

lemma pull_front:
  assumes "ptrace_alternates run" and "avoids run SYS_shutdown" and "avoids run SYS_access"
    and "safe n s" and "n + length cs < 2 ^ 64"
    and "commuting run (pid (vars s Vmaster)) (pid (vars s Vreplica))"
    and "main_loop run cs s = Some (Inr (), t)" and "pid (vars s v) \<in> set cs"
    and "is_running (ps (proc_of s v))"
  shows "main_loop run (pid (vars s v) # remove1 (pid (vars s v)) cs) s = Some (Inr (), t)"
  using assms(4-)
proof (induction cs arbitrary: n s)
  case (Cons c cs)
  show ?case
  proof (cases "c = pid (vars s v)")
    case True
    then show ?thesis using Cons.prems(4) by simp
  next
    case False
    have pids: "pids_ok s" using Cons.prems(1) by (simp add: safe_def well_typed_def)
    obtain s1 where s1: "main_round run c s = Some (Inr (), s1)" "main_loop run cs s1 = Some (Inr (), t)"
      using Cons.prems(4) by (rule loop_first)
    obtain w where w: "c = pid (vars s w)" "child_event run w s = Some (Inr (), s1)"
      using round_of_variant [OF pids s1(1)] .
    have "v = other w" using False w(1) by (cases v; cases w) auto
    have c: "pid (vars s v) \<in> set cs" using Cons.prems(5) False by simp
    then have "cs \<noteq> []" by auto
    then have n: "Suc n < 2 ^ 64 - 1" "n < 2 ^ 64 - 1" "Suc n + length cs < 2 ^ 64"
      using Cons.prems(2) by (cases cs; simp)+
    note safe1 = child_safe [OF assms(1-3) Cons.prems(1) n(2) w(2)]
    have ids: "pid (vars s1 u) = pid (vars s u)" for u
      using step_same_ids [OF assms(1,2) Cons.prems(1) n(2) w(2)] by (simp add: same_ids_def)
    have r: "is_running (ps (proc_of s (other w)))" "is_running (ps (proc_of s1 v))"
      using still_running [OF assms(1) Cons.prems(1) n(2) w(2)] Cons.prems(6) \<open>v = other w\<close> by simp_all
    have "main_loop run (pid (vars s v) # remove1 (pid (vars s v)) cs) s1 = Some (Inr (), t)"
      using Cons.IH [OF safe1 n(3) _ s1(2)] c r(2) Cons.prems(3) by (simp add: ids)
    then obtain s2 where s2: "main_round run (pid (vars s v)) s1 = Some (Inr (), s2)"
        "main_loop run (remove1 (pid (vars s v)) cs) s2 = Some (Inr (), t)"
      by (rule loop_first)
    have "child_event run (other w) s1 = Some (Inr (), s2)"
      using s2(1) main_round_pid [of s1 run v] safe1 \<open>v = other w\<close>
      by (simp add: ids safe_def well_typed_def)
    from diamond [OF assms(1-3) Cons.prems(1) n(1) commuting_other [OF Cons.prems(3)] w(2) r(1) this]
    obtain u where u: "child_event run v s = Some (Inr (), u)" "child_event run w u = Some (Inr (), s2)"
      using \<open>v = other w\<close> by blast
    have safeu: "safe (Suc n) u" using child_safe [OF assms(1-3) Cons.prems(1) n(2) u(1)] .
    moreover have "pid (vars u w) = c"
      using step_same_ids [OF assms(1,2) Cons.prems(1) n(2) u(1)] w(1) by (simp add: same_ids_def)
    ultimately have "main_round run c u = Some (Inr (), s2)"
      using main_round_pid [of u run w] u(2) by (simp add: safe_def well_typed_def)
    moreover have "main_round run (pid (vars s v)) s = Some (Inr (), u)"
      using main_round_pid [OF pids] u(1) by simp
    ultimately show ?thesis using s2(2) False by (simp add: main_loop_Cons)
  qed
qed simp

lemma loop_pids:
  assumes "ptrace_alternates run" and "avoids run SYS_shutdown" and "avoids run SYS_access"
    and "safe n s" and "n + length cs < 2 ^ 64" and "main_loop run cs s = Some (Inr (), t)"
    and "c \<in> set cs"
  shows "\<exists>v. c = pid (vars s v)"
  using assms(4-)
proof (induction cs arbitrary: n s)
  case (Cons d cs)
  have pids: "pids_ok s" using Cons.prems(1) by (simp add: safe_def well_typed_def)
  have n: "n < 2 ^ 64 - 1" using Cons.prems(2) by simp
  obtain s1 where s1: "main_round run d s = Some (Inr (), s1)" "main_loop run cs s1 = Some (Inr (), t)"
    using Cons.prems(3) by (rule loop_first)
  obtain w where w: "d = pid (vars s w)" "child_event run w s = Some (Inr (), s1)"
    using round_of_variant [OF pids s1(1)] .
  have "pid (vars s1 u) = pid (vars s u)" for u
    using step_same_ids [OF assms(1,2) Cons.prems(1) n w(2)] by (simp add: same_ids_def)
  then show ?case
    using Cons.IH [OF child_safe [OF assms(1-3) Cons.prems(1) n w(2)] _ s1(2)] Cons.prems(2,4) w(1) by auto
qed simp

text \<open>A report of a child that does not run cannot be made; the model gives it no next state.\<close>

lemma impossible_report:
  "\<not> is_running (ps (procs s c)) \<Longrightarrow> main_round run c s \<noteq> Some (Inr (), s')"
  by (auto simp: main_round_def child_event_def waitpid_def proc_of_def)

lemma schedules_agree:
  assumes "ptrace_alternates run" and "avoids run SYS_shutdown" and "avoids run SYS_access"
    and "safe n s" and "n + length cs < 2 ^ 64"
    and "commuting run (pid (vars s Vmaster)) (pid (vars s Vreplica))"
    and "main_loop run cs s = Some (Inr (), t)" and "mset ds = mset cs"
  shows "main_loop run ds s = Some (Inr (), t) \<or>
     (\<exists>es c fs u. ds = es @ c # fs \<and> main_loop run es s = Some (Inr (), u) \<and>
        \<not> is_running (ps (procs u c)))"
  using assms(4-)
proof (induction ds arbitrary: n s cs)
  case Nil
  then show ?case by simp
next
  case (Cons d ds)
  have pids: "pids_ok s" using Cons.prems(1) by (simp add: safe_def well_typed_def)
  have d: "d \<in> set cs" using Cons.prems(5) by (metis list.set_intros(1) set_mset_mset)
  then obtain v where v: "d = pid (vars s v)"
    using loop_pids [OF assms(1-3) Cons.prems(1,2,4)] by blast
  have round: "main_round run d s = child_event run v s" using main_round_pid [OF pids] v by simp
  show ?case
  proof (cases "is_running (ps (proc_of s v))")
    case False
    then have "d # ds = [] @ d # ds \<and> main_loop run [] s = Some (Inr (), s) \<and>
        \<not> is_running (ps (procs s d))"
      by (simp add: proc_of_def v)
    then show ?thesis by blast
  next
    case True
    have "main_loop run (d # remove1 d cs) s = Some (Inr (), t)"
      using pull_front [OF assms(1-3) Cons.prems(1-4) _ True] d v by simp
    then obtain s1 where s1: "main_round run d s = Some (Inr (), s1)"
        "main_loop run (remove1 d cs) s1 = Some (Inr (), t)"
      by (rule loop_first)
    have "length cs = Suc (length (remove1 d cs))"
      using length_pos_if_in_set [OF d] d by (simp add: length_remove1)
    then have n: "n < 2 ^ 64 - 1" "Suc n + length (remove1 d cs) < 2 ^ 64"
      using Cons.prems(2) by simp_all
    have ev: "child_event run v s = Some (Inr (), s1)" using s1(1) round by simp
    have "pid (vars s1 u) = pid (vars s u)" for u
      using step_same_ids [OF assms(1,2) Cons.prems(1) n(1) ev] by (simp add: same_ids_def)
    moreover have "mset ds = mset (remove1 d cs)"
      using Cons.prems(5) [symmetric] by simp
    ultimately consider (same) "main_loop run ds s1 = Some (Inr (), t)"
      | (not) es c fs u where "ds = es @ c # fs" "main_loop run es s1 = Some (Inr (), u)"
          "\<not> is_running (ps (procs u c))"
      using Cons.IH [OF child_safe [OF assms(1-3) Cons.prems(1) n(1) ev] n(2) _ s1(2)] Cons.prems(3) by auto
    then show ?thesis
    proof cases
      case same
      then show ?thesis using s1(1) by simp
    next
      case not
      then have "d # ds = (d # es) @ c # fs \<and> main_loop run (d # es) s = Some (Inr (), u) \<and>
          \<not> is_running (ps (procs u c))"
        using s1(1) by simp
      then show ?thesis by blast
    qed
  qed
qed

text \<open>C7: The order in which stops are reported does not matter. Let the program call neither
  \<open>shutdown\<close> nor \<open>access\<close>, and let the two processes not interfere with each other between
  stops. If the loop, entered from \<open>main\<close>, goes on after one sequence of reported children (of
  less than 2^64), then after any reordering of the sequence it is in exactly the same state;
  unless the reordering is not an order of stops: after some first part of it, which leads the
  loop to a state \<open>u\<close>, it reports a child that does not run in \<open>u\<close> and so has no stop to
  report.\<close>

theorem schedule_irrelevant:
  assumes "ptrace_alternates run" and "avoids run SYS_shutdown" and "avoids run SYS_access"
    and "mpid \<noteq> rpid" and "mmaps s = initial_heap" and "commuting run mpid rpid"
    and "affinity (systemCores - 2)" and "affinity (systemCores - 3)"
    and "main_program run argc systemCores affinity mpid rpid child (Some p) (Some q) cs s =
      Some (Inr (), t)"
    and "length cs < 2 ^ 64" and "mset ds = mset cs"
  shows "main_program run argc systemCores affinity mpid rpid child (Some p) (Some q) ds s =
      Some (Inr (), t) \<or>
    (\<exists>es c fs u. ds = es @ c # fs \<and>
       main_program run argc systemCores affinity mpid rpid child (Some p) (Some q) es s = Some (Inr (), u) \<and>
       \<not> is_running (ps (procs u c)))"
proof -
  let ?s = "start_variants mpid rpid child True (Some p) True (Some q) s"
  have enters: "main_program run argc systemCores affinity mpid rpid child (Some p) (Some q) xs s =
      main_loop run xs ?s" for xs
    using assms(9) by (auto simp: main_enters [OF assms(7,8)] split: if_splits)
  note start = start_sel [OF assms(4,5) refl]
  show ?thesis
    unfolding enters using assms(6,9,10,11) start(1,2)
    by (intro schedules_agree [OF assms(1-3) start_safe [OF assms(4,5)], where cs = cs])
      (simp_all add: enters)
qed

theorem schedule_irrelevant_witness:
  "main_program (kernel SYS_brk 0) 1 4 (\<lambda>_. True) 1 2 (image InUser 0 no_args (filled 0))
     (Some (image InUser 0 no_args (filled 0))) (Some (image InUser 0 no_args (filled 0))) [2, 1] both_user
   = Some (Inr (), both_go)"
proof -
  let ?run = "kernel SYS_brk 0" and ?i = "image InUser 0 no_args (filled 0)"
  have two: "main_program ?run 1 4 (\<lambda>_. True) 1 2 ?i (Some ?i) (Some ?i) cs both_user = main_loop ?run cs both_user" for cs
    by (simp add: main_program_def start_both_user del: main_loop.simps)
  have com: "commuting ?run 1 2" by (simp add: commuting_def kernel_def Let_def)
  obtain u where u: "main_round ?run 2 both_user = Some (Inr (), u)" "main_round ?run 1 u = Some (Inr (), both_go)"
    using pull_front [OF kernel_alternates kernel_avoids kernel_avoids both_user_safe _ _ both_go_loop,
        of Vreplica] com
    by (auto simp: both_user_def main_loop_Cons simp del: main_loop.simps(2))
  have "is_running (ps (procs w c))" if "[2, 1] = es @ c # fs" "main_loop ?run es both_user = Some (Inr (), w)"
    for es c fs w
    using that u impossible_report [of w c ?run] by (cases es; cases "tl es") auto
  moreover have "mmaps both_user = initial_heap" by (simp add: both_user_def)
  ultimately show ?thesis
    using schedule_irrelevant [OF kernel_alternates kernel_avoids kernel_avoids _ _ com _ _
        both_go_loop [folded two], of "[2, 1]"]
    by (auto simp: two simp del: main_loop.simps)
qed

end
