(* ===== verification/Agreement.thy ===== *)
theory Agreement
  imports Start
begin

text \<open>In a reachable state of a program that gets no signals and makes
  only the calls of \<open>plain_calls\<close> or \<open>exit_group\<close>, if the variants' calls are permitted
  whenever the two meet, the round for a running variant goes on; the monitor exits only when
  a variant has exited in \<open>exit_group\<close>, and then with success.\<close>

lemma agreeing_run_goes_on:
  assumes "plain_program run" and "avoids run SYS_shutdown" and "safe 0 s0"
    and "reach run s0 n s" and "n < 2 ^ 64 - 1" and "is_running (ps (proc_of s v))"
    and "\<And>k p. run (world s) (pid (vars s v)) (proc_of s v) = (k, p) \<Longrightarrow> waiting s (other v) \<Longrightarrow>
      ps p = EntryStop \<Longrightarrow> num s v = num s (other v) \<Longrightarrow>
      permitted (arrived v k p s) Vmaster Vreplica"
  shows "\<exists>s'. main_round run (pid (vars s v)) s = Some (Inr (), s') \<or>
     ps (proc_of s v) = InSyscall \<and> orig_rax (regs (proc_of s v)) = SYS_exit_group \<and>
     main_round run (pid (vars s v)) s = Some (Inl 0, s')"
proof -
  have "n < 2 ^ 64" using assms(5) by simp
  from reach_cases [OF assms(4) plain_alternates [OF assms(1)] assms(2,3) this]
  have safe: "safe n s" using assms(6) by (auto simp: wedged_def)
  then have "main_round run (pid (vars s v)) s = child_event run v s"
    by (cases v) (auto simp: main_round_def safe_def well_typed_def pids_ok_def)
  moreover have "\<exists>s'. child_event run v s = Some (Inr (), s') \<or>
     ps (proc_of s v) = InSyscall \<and> orig_rax (regs (proc_of s v)) = SYS_exit_group \<and>
     child_event run v s = Some (Inl 0, s')"
    by (rule plain_round [OF assms(1) safe assms(5,6)]) (fact assms(7))
  ultimately show ?thesis by simp
qed

definition always_permitted :: "'k env \<Rightarrow> 'k mvee \<Rightarrow> bool" where
  "always_permitted run s0 \<longleftrightarrow>
     (\<forall>n s v k p. reach run s0 n s \<longrightarrow> n < 2 ^ 64 - 1 \<longrightarrow>
        run (world s) (pid (vars s v)) (proc_of s v) = (k, p) \<longrightarrow>
        ps p = EntryStop \<longrightarrow> waiting s (other v) \<longrightarrow> num s v = num s (other v) \<longrightarrow>
        permitted (arrived v k p s) Vmaster Vreplica)"

lemma agreeing_round:
  assumes "plain_program run" and "avoids run SYS_shutdown" and "safe 0 s0" and "always_permitted run s0"
    and "reach run s0 n s" and "n < 2 ^ 64 - 1" and "is_running (ps (proc_of s v))"
  shows "\<exists>x s'. main_round run (pid (vars s v)) s = Some (x, s') \<and> (x = Inr () \<or> x = Inl 0)"
  using agreeing_run_goes_on [OF assms(1-3,5-7)] assms(4-6) unfolding always_permitted_def by blast

lemma agreeing_loop:
  assumes "plain_program run" and "avoids run SYS_shutdown" and "safe 0 s0" and "always_permitted run s0"
    and "reach run s0 n s" and "n + length cs < 2 ^ 64"
    and "set cs \<subseteq> {pid (vars s0 Vmaster), pid (vars s0 Vreplica)}"
    and "main_loop run cs s = Some (x, t)"
  shows "x = Inr () \<or> x = Inl 0"
  using assms(5-8)
proof (induction cs arbitrary: n s)
  case (Cons c cs)
  have ids: "pid (vars s v) = pid (vars s0 v)" for v
    using reach_same_ids [OF Cons.prems(1) plain_alternates [OF assms(1)] assms(2,3)] Cons.prems(2)
    by (simp add: same_ids_def)
  obtain v where v: "c = pid (vars s v)"
    using Cons.prems(3) ids by auto
  have pids: "pids_ok s"
    using reach_cases [OF Cons.prems(1) plain_alternates [OF assms(1)] assms(2,3)] Cons.prems(2)
    by (simp add: well_typed_def)
  have round: "main_round run c s = child_event run v s"
    using v main_round_pid [OF pids] by simp
  have "is_running (ps (proc_of s v))"
    using Cons.prems(4) round by (auto simp: child_event_def waitpid_def bindE split: if_splits)
  from agreeing_round [OF assms(1-4) Cons.prems(1) _ this] Cons.prems(2) v
  obtain y s' where y: "main_round run c s = Some (y, s')" "y = Inr () \<or> y = Inl 0"
    by auto
  from y(2) show ?case
  proof
    assume "y = Inr ()"
    then have "reach run s0 (Suc n) s'"
      using reach.more [OF Cons.prems(1) mvee_step.round] y(1) by blast
    then show ?case
      using Cons.IH [of "Suc n" s'] Cons.prems \<open>y = Inr ()\<close> y(1) by simp
  next
    assume "y = Inl 0"
    then show ?case using Cons.prems(4) y(1) by simp
  qed
qed simp

lemma agreeing_schedule:
  assumes "plain_program run" and "avoids run SYS_shutdown" and "avoids run SYS_access"
    and "safe 0 s0" and "always_permitted run s0" and "n < 2 ^ 64"
  shows "\<exists>cs x t. main_loop run cs s0 = Some (x, t) \<and>
     set cs \<subseteq> {pid (vars s0 Vmaster), pid (vars s0 Vreplica)} \<and>
     (x = Inr () \<and> length cs = n \<or> x = Inl 0 \<and> length cs \<le> n)"
  using assms(6)
proof (induction n)
  case 0
  show ?case by (intro exI [of _ "[]"]) simp
next
  case (Suc n)
  then obtain cs x t where IH: "main_loop run cs s0 = Some (x, t)"
      "set cs \<subseteq> {pid (vars s0 Vmaster), pid (vars s0 Vreplica)}"
      "x = Inr () \<and> length cs = n \<or> x = Inl 0 \<and> length cs \<le> n" by auto
  from IH(3) show ?case
  proof
    assume x: "x = Inr () \<and> length cs = n"
    then have reach: "reach run s0 n t" using main_loop_reach IH(1) by blast
    note alt = plain_alternates [OF assms(1)]
    have "safe n t" using reach_cases [OF reach alt assms(2,4)] assms(3) Suc.prems by auto
    then obtain v where "is_running (ps (proc_of t v))" using lockstep_runs by (auto simp: safe_def)
    from agreeing_round [OF assms(1,2,4,5) reach _ this] Suc.prems
    obtain y s' where y: "main_round run (pid (vars t v)) t = Some (y, s')" "y = Inr () \<or> y = Inl 0"
      by auto
    have "main_loop run (cs @ [pid (vars t v)]) s0 = Some (y, s')"
      using IH(1) x y by (auto simp: main_loop_snoc)
    moreover have "pid (vars t v) = pid (vars s0 v)"
      using reach_same_ids [OF reach alt assms(2,4)] Suc.prems by (simp add: same_ids_def)
    then have "set (cs @ [pid (vars t v)]) \<subseteq> {pid (vars s0 Vmaster), pid (vars s0 Vreplica)}"
      using IH(2) by (cases v) auto
    ultimately show ?thesis using x y(2) by (intro exI [of _ "cs @ [pid (vars t v)]"]) auto
  next
    assume "x = Inl 0 \<and> length cs \<le> n"
    then show ?thesis using IH(1,2) by (intro exI [of _ cs]) auto
  qed
qed

text \<open>C10: No false alarm, for whole runs of plain programs. Let the program get no signals, make
  only calls of \<open>plain_calls\<close> other than \<open>shutdown\<close> (26 calls) or \<open>exit_group\<close>, die in none
  of them but \<open>exit_group\<close>, and let the variants' calls be permitted whenever the two meet. Then
  the loop does not end with an error within 2^64 - 1 rounds, in whatever order the stops of the
  two are reported; and it does not get stuck: for every smaller number of rounds there is an
  order of stops with which it gets that far, or ends before with success. Calls such as
  \<open>openat\<close>, \<open>mmap\<close> and \<open>read\<close> are outside this class.\<close>

theorem agreeing_runs_end_well:
  assumes "plain_program run" and "avoids run SYS_shutdown" and "avoids run SYS_access"
    and "safe 0 s0" and "always_permitted run s0"
  shows "(\<forall>cs x t. set cs \<subseteq> {pid (vars s0 Vmaster), pid (vars s0 Vreplica)} \<longrightarrow> length cs < 2 ^ 64 \<longrightarrow>
       main_loop run cs s0 = Some (x, t) \<longrightarrow> x = Inr () \<or> x = Inl 0) \<and>
     (\<forall>n < 2 ^ 64. \<exists>cs x t. main_loop run cs s0 = Some (x, t) \<and>
       set cs \<subseteq> {pid (vars s0 Vmaster), pid (vars s0 Vreplica)} \<and>
       (x = Inr () \<and> length cs = n \<or> x = Inl 0 \<and> length cs \<le> n))"
  using agreeing_loop [OF assms(1,2,4,5) reach.start] agreeing_schedule [OF assms] by simp

text \<open>The image of a variant that waits is one that \<open>run\<close> has given.\<close>

lemma waiting_image:
  assumes "reach run s0 n s" and "ptrace_alternates run" and "avoids run SYS_shutdown"
    and "avoids run SYS_access" and "safe 0 s0" and "n < 2 ^ 64" and "\<And>v. \<not> waiting s0 v"
    and "waiting s w"
  shows "\<exists>k i q. proc_of s w = snd (run k i q)"
  using assms(1,6,8)
proof (induction arbitrary: w rule: reach.induct)
  case start
  then show ?case using assms(7) by simp
next
  case (more n s s')
  then have n: "n < 2 ^ 64 - 1" by simp
  have safe: "safe n s" using reach_cases [OF more.hyps(1) assms(2,3,5)] assms(4) n by simp
  then have pids: "pids_ok s" by (simp add: safe_def well_typed_def)
  obtain v where v: "child_event run v s = Some (Inr (), s')"
    using more.hyps(2) by (auto elim!: mvee_stepE dest!: main_round_child)
  have old: "\<exists>k i q. proc_of s w = snd (run k i q)" if "waiting s w"
    using more.IH [OF _ that] n by simp
  from assms(2) safe n v show ?case
  proof (cases rule: step_cases)
    case (exit_stop k p)
    then have "w \<noteq> v" using more.prems(2) pids by (auto simp: waiting_def)
    with exit_stop(3) more.prems(2) pids old show ?thesis by (simp add: waiting_def)
  next
    case (hold k p)
    show ?thesis
    proof (cases "w = v")
      case True
      have "proc_of s' w = snd (run (world s) (pid (vars s v)) (proc_of s v))"
        using True hold(4,5) pids by simp
      then show ?thesis by blast
    next
      case False
      with hold(4) more.prems(2) pids old show ?thesis by (simp add: waiting_def)
    qed
  next
    case (sync k p)
    note at = both_at_entry [OF safe sync(4,2), of k]
    have "orig_rax (regs p) \<noteq> SYS_shutdown" "orig_rax (regs p) \<noteq> SYS_access"
      using arrived_avoids [OF assms(3) sync(6,2)] arrived_avoids [OF assms(4) sync(6,2)] by simp_all
    then have "released Vmaster Vreplica (arrived v k p s) s'"
      using sync_released [OF assms(2) _ at(1) sync(5)] sync_call [OF safe sync(4,2,5)] by auto
    then show ?thesis using more.prems(2) by (simp add: released_def waiting_def)
  qed
qed

lemma kernel_always_permitted: "always_permitted (kernel SYS_brk 0) both_user"
  unfolding always_permitted_def
proof (intro allI impI)
  fix n s v k p
  let ?run = "kernel SYS_brk 0"
  assume *: "reach ?run both_user n s" "n < 2 ^ 64 - 1" "ps p = EntryStop" "waiting s (other v)"
    "?run (world s) (pid (vars s v)) (proc_of s v) = (k, p)"
  have stop: "orig_rax (regs (snd (?run k i q))) = SYS_brk" if "ps (snd (?run k i q)) = EntryStop" for k i q
    using that by (simp add: kernel_def split: pstate.splits)
  have "\<not> waiting both_user v" for v by (cases v) (simp_all add: waiting_def both_user_def)
  then obtain k' i q where q: "proc_of s (other v) = snd (?run k' i q)"
    using waiting_image [OF *(1) kernel_alternates kernel_avoids kernel_avoids both_user_safe _ _ *(4)] *(2)
    by auto
  have "pids_ok s"
    using reach_cases [OF *(1) kernel_alternates kernel_avoids both_user_safe] *(2)
    by (simp add: well_typed_def)
  moreover have "orig_rax (regs p) = SYS_brk" using stop [of "world s" "pid (vars s v)" "proc_of s v"] *(3,5) by simp
  moreover have "orig_rax (regs (proc_of s (other v))) = SYS_brk"
    using stop *(4) by (simp add: q waiting_def)
  ultimately have "nr (arrived v k p s) w = SYS_brk" for w
    using *(3,4) by (cases v; cases w) (simp_all add: nr_def entry_info_sel waiting_def)
  then show "permitted (arrived v k p s) Vmaster Vreplica"
    by (simp add: permitted_def arg_checks_def agree_def)
qed

theorem agreeing_runs_end_well_witness:
  "\<exists>cs x t. main_loop (kernel SYS_brk 0) cs both_user = Some (x, t) \<and>
     (x = Inr () \<and> length cs = 1000 \<or> x = Inl 0)"
proof -
  have "plain_program (kernel SYS_brk 0)" by (rule kernel_plain) (simp add: plain_calls_def)
  from agreeing_runs_end_well [OF this kernel_avoids kernel_avoids both_user_safe kernel_always_permitted]
  have "\<forall>n < 2 ^ 64. \<exists>cs x t. main_loop (kernel SYS_brk 0) cs both_user = Some (x, t) \<and>
      (x = Inr () \<and> length cs = n \<or> x = Inl 0)"
    by (simp, blast)
  from this [rule_format, of 1000] show ?thesis by simp
qed

end
