(* ===== verification/Spec2Isabelle.thy ===== *)
theory Spec2Isabelle
  imports CallProps ReplyProps SpaceProps MemoryProps DefectProps DispatchProps DirectTransfer
    Isolation Native Arrival Agreement
begin

text \<open>
  AuroraMVEE, a monitor that runs two variants of a program in lockstep under \<open>ptrace\<close>: a
  shallow embedding of the C code under \<open>src/Monitor/src\<close> and the theorems about it.

  The program. \<open>main\<close> (\<open>monitor.c\<close>) starts a master and a replica and waits for the stops of
  either. A variant that reaches a system call waits until the other one has reached its own
  (\<open>processVariantEvent\<close>); then \<open>processSyscallSync\<close> compares the two calls and hands them to
  the executor of the call (one file of \<open>sys/\<close> each), which checks the arguments, lets one or
  both variants make the call, copies results and data to the replica (\<open>variant.c\<close>), and lets
  both go on. Any difference ends in both being killed. The executors of mmap, mprotect and
  munmap keep a list of the master's mappings (\<open>mappings.c\<close>) and a rule for shared memory
  (\<open>security_manager.c\<close>).

  The theories.
    \<open>Prelude\<close>: machine words, C conversions, bytes of a long, local buffers, \<open>strnlen\<close>,
      \<open>strncmp\<close>, \<open>memcmp\<close>, and the shared fact collections.
    \<open>Ptrace\<close>: a tracee (stop, registers, byte-addressed memory with unmapped addresses,
      options) and the documented effect of each ptrace request and wait macro used.
    \<open>Mappings\<close>: \<open>mappings.c\<close> in an explicit store of nodes; it refines a list of entries, and
      its interface to the executors is the locale \<open>mapping_store\<close>.
    \<open>Syscalls\<close>: call numbers and \<open>syscall_util.h\<close>.
    \<open>Variant\<close>: the \<open>variant\<close> struct, the whole state \<open>mvee\<close>, the control operations of
      \<open>variant.c\<close>. \<open>VariantMem\<close>: its memory operations, with their loops.
    \<open>ExecPlain\<close>, \<open>ExecPath\<close>, \<open>ExecData\<close>, \<open>ExecMap\<close>: the executors, one definition each.
    \<open>Monitor\<close>: the switch as a table, \<open>processVariantEvent\<close>, the rounds of the main loop.
    \<open>Scenario\<close>: a concrete kernel and concrete states on which the properties are evaluated.
    \<open>Lockstep\<close>, \<open>Checks\<close>, \<open>Total\<close>: the three contracts of an executor (what it does to the
      stops and counts of the variants, what it checks, that it returns), each a locale with an
      interpretation for every executor that keeps it; \<open>PathCheck\<close> is the part about the path
      loop of newfstatat.
    \<open>Protocol\<close>: the main loop as a step relation, its invariant, progress.
    \<open>Barrier\<close>: the abstract specification of the monitor, two parties that meet at a barrier
      before every call, and the proof that each round of the main loop is one of its steps.
    \<open>Accepts\<close>: the fourth contract of an executor, that it accepts when its checks hold and
      nobody dies, and the calls whose executors only let both variants go on; runs of two
      variants that agree.
    \<open>Start\<close>: the state in which \<open>main\<close> enters its loop, and the first states of a concrete run.
    \<open>Isolation\<close>: the fifth contract of an executor, that it keeps the replica from making certain
      calls, as a noninterference; lifted to the whole program.
    \<open>Native\<close>: the sixth, that it leaves the master and the outside world as the master's own call
      (or a call of the replica that is not the master's alone) has made them; lifted.
    \<open>Arrival\<close>: the seventh, that it does not depend on who came first; from it that events of
      the two variants commute, and that the order of a whole schedule does not matter.
    \<open>Agreement\<close>: whole runs of two variants that agree.
    \<open>Effects\<close>, \<open>CallProps\<close>, \<open>ReplyProps\<close>, \<open>DispatchProps\<close>, \<open>SpaceProps\<close>, \<open>MemoryProps\<close>,
      \<open>DefectProps\<close>: the properties of single executors and operations.
    \<open>DirectTransfer\<close>: the code that is built with \<open>USE_DIRECT_TRANSFER\<close> only, and what it
      replaces.
    This theory: the properties of the monitor as a whole.

  State and effects. A function of the code that changes state takes and returns the record
  \<open>mvee\<close>: the processes by pid, the rest of the outside world, the two \<open>variant\<close> structs, the
  global buffers, the mapping list. An \<open>int\<close> result is an \<open>int\<close>, sizes and registers are
  64-bit words, comparisons are signed where the C types make them so. A call that can block
  or that would follow a dangling pointer is an option, with None for "does not return", so
  that a theorem that ends in \<open>Some\<close> is a theorem that the code returns.

  What is a parameter. The tracees' own code and the kernel are the function \<open>run\<close>: given the
  outside world, a pid and a resumed tracee it gives the outside world and the tracee at its
  next stop. The hypothesis \<open>ptrace_alternates run\<close> is the documented alternation of the stops
  under \<open>PTRACE_SYSCALL\<close>; \<open>avoids run n\<close> says that the program does not make call \<open>n\<close>. The
  outcomes of \<open>fork\<close>, \<open>execvpe\<close> and \<open>sched_setaffinity\<close> in a child are arguments of
  \<open>createVariant\<close>, and the \<open>waitpid\<close> of \<open>initVariant\<close>, which waits for the stop after
  \<open>execvpe\<close>, is part of \<open>child_start\<close>, which gives the child at that stop.

  Bounds. All loops are recursive functions with termination proofs, or partial functions on
  the list of mappings proved to return on well-formed lists; there is no fuel. The invariant
  of the main loop holds for the first 2^64 - 1 rounds, since a round adds at most 1 to a count
  of 64 bits. \<open>STR_LIMIT\<close> (9,999,900) and \<open>PATH_LIMIT\<close> (9,999,951) are the largest sizes the
  two string loops read.

  What the properties show: what the monitor lets through and what it refuses, and that for
  27 calls the table of checks is the exact condition (C1 to C3). For the whole program, from
  \<open>main\<close> on: it implements the barrier, keeps the replica's own calls from the kernel, changes
  neither the master nor what the master's calls do to the outside world, and does the same in
  whatever order stops are reported (C4 to C7); no variant enters a call alone, divergence is
  fatal and agreement is not (C8 to C10); the invariant, progress and termination (C11 to C15).
  Which variant runs which call, and the data and results that reach the replica (C16 to C24);
  the mapping list, the memory operations and the address space (C25 to C32); the points where
  the code does not do what it is meant to (C33 to C39); the code of the other configuration
  (C40).

  The properties of the main loop (C4 to C12 and C15) are about programs that do not call
  \<open>shutdown\<close>, since its executor leaves the two variants out of step (C37), and C4, C7, C10 and
  C12 also about programs without \<open>access\<close>, whose executor hides a death (C39). The properties about data that is copied
  hold for sizes below 8 and multiples of 8, as other sizes are copied wrongly (C34).

  Hypotheses about \<open>run\<close> beyond the alternation of stops are named where they are used: a program
  without signals and deaths (\<open>plain_program\<close>), two processes that do not interfere between
  stops (\<open>commuting\<close>), two kernels that agree but on some calls (\<open>same_outside\<close>). Each of the
  properties has a concrete kernel for which they hold.

  Not modelled. Output to stderr, but for the lines of \<open>printSyscallDebug\<close> and
  \<open>printMappings\<close>, which are functions of the state. A monitor buffer is the memory from its
  first byte on: an access past its end reads or changes bytes of that function and not
  another object. A failing ptrace request has no effect and, as in the code, is not noticed.
  A tracee killed from outside while it is stopped is outside the model, and so are a call that
  blocks a tracee for ever, as \<open>run\<close> always gives a next stop, and a failing \<open>fork\<close>. With
  \<open>USE_DIRECT_TRANSFER\<close>, which \<open>compile_options.h\<close> switches off, \<open>transferVariantMemDirect\<close>
  passes a struct to \<open>ptrace\<close> by value: the effect of these two requests is a parameter.
\<close>

section \<open>What the monitor lets through\<close>

text \<open>C1: Soundness. Whenever \<open>processSyscallSync\<close> lets the variants go on, they are at stops of
  the same kind with the same call number, the number is one of the switch, and the arguments
  pass every check that the table \<open>arg_checks\<close> lists for it: equal values, equal buffers,
  equal strings.\<close>

theorem accepted_calls_agree:
  assumes "processSyscallSync run m r s = Some (0, s')"
  shows "si_op (syscallInfo (vars s m)) = si_op (syscallInfo (vars s r)) \<and>
     nr s m = nr s r \<and> (\<exists>cs. map_of arg_checks (nr s m) = Some cs \<and> agree cs s m r)"
  using sync_permitted [OF assms] assms
  by (auto simp: permitted_def processSyscallSync_def split: option.splits if_splits)

theorem accepted_calls_agree_witness:
  "agree [Same 0, Same 1, Same 2] (pair_call SYS_lseek [3, 7, 1, 0, 0, 0] 0 [3, 7, 1, 0, 0, 0] 0)
     Vmaster Vreplica"
proof -
  let ?s = "pair_call SYS_lseek [3, 7, 1, 0, 0, 0] 0 [3, 7, 1, 0, 0, 0] 0"
  have "processSyscallSync (kernel 0 0) Vmaster Vreplica ?s = Some (0, resume_both Vmaster Vreplica ?s)"
    by (simp add: processSyscallSync_def dispatch_table_def execSyscall_lseek_def)
  from accepted_calls_agree [OF this] show ?thesis
    by (simp add: arg_checks_def)
qed

text \<open>C2: Divergence is refused. If the call numbers differ, the number is not one of the switch,
  or a check of its row fails, \<open>processSyscallSync\<close> reports -1 before it has touched a
  variant, the outside world or the list of mappings; \<open>fadvise64\<close> and \<open>rseq\<close>, which resume
  first, are excepted.\<close>

theorem divergence_refused:
  assumes "\<not> permitted s m r" and "nr s m \<notin> {SYS_fadvise64, SYS_rseq}"
  shows "\<exists>s'. processSyscallSync run m r s = Some (- 1, s') \<and> untouched s s'"
  using assms sync_not_permitted by blast

theorem divergence_refused_witness:
  "\<exists>s'. processSyscallSync (kernel 0 0) Vmaster Vreplica
     (pair_call SYS_write [1, 64, 5, 0, 0, 0] 65 [1, 64, 5, 0, 0, 0] 66) = Some (- 1, s')"
proof -
  have "\<not> permitted (pair_call SYS_write [1, 64, 5, 0, 0, 0] 65 [1, 64, 5, 0, 0, 0] 66) Vmaster Vreplica"
    by (auto simp: permitted_def arg_checks_def machine_simps intro!: exI [of _ 0])
  from divergence_refused [OF this, of "kernel 0 0"] show ?thesis by auto
qed

text \<open>C13: With both variants at their entry stops and a well-formed list of mappings,
  \<open>processSyscallSync\<close> returns, whatever the variants do, for every call but \<open>pselect6\<close>. The
  list stays well formed: it is as it was, or with one mapping more that is not both writable
  and shared, or with one mapping less.\<close>

theorem sync_returns:
  assumes "m \<noteq> r" and "at_entry s" and "maps_rep (mmaps s) es" and "nr s m \<noteq> SYS_pselect6"
  shows "\<exists>x s' es'. processSyscallSync run m r s = Some (x, s') \<and> maps_rep (mmaps s') es' \<and>
     evolves es es'"
proof -
  have "\<exists>x s'. e run m r s = Some (x, s') \<and> maps_after es (mmaps s')"
    if "map_of dispatch_table (nr s m) = Some e" for e
    using total_executor.returns [OF dispatch_total [OF that assms(4)] assms(1-3)] .
  then have "\<exists>x s'. processSyscallSync run m r s = Some (x, s') \<and> maps_after es (mmaps s')"
    using assms(3) by (fastforce simp: processSyscallSync_def split: option.splits)
  then show ?thesis by (auto simp: maps_after_def)
qed

theorem sync_returns_witness:
  "\<exists>x s'. processSyscallSync (deadly_kernel 0) Vmaster Vreplica
     (pair_call SYS_read [3, 64, 8, 0, 0, 0] 0 [3, 64, 8, 0, 0, 0] 0) = Some (x, s')"
  using sync_returns [of Vmaster Vreplica "pair_call SYS_read [3, 64, 8, 0, 0, 0] 0 [3, 64, 8, 0, 0, 0] 0"
      "[]" "deadly_kernel 0"]
  by (auto simp: initial_heap_rep)

text \<open>C14: The contract of the executors. An accepted call other than \<open>shutdown\<close> and \<open>access\<close>
  leaves no variant at a stop or marked as waiting, and counts the call in step: both
  variants are in the call, or both are past it and it is counted in both or in neither, or
  the master is past it, counted, and the replica in it.\<close>

theorem sync_releases_both:
  assumes "ptrace_alternates run" and "m \<noteq> r" and "at_entry s"
    and "nr s m \<noteq> SYS_shutdown" and "nr s m \<noteq> SYS_access"
    and "processSyscallSync run m r s = Some (0, s')"
  shows "released m r s s'"
  using sync_released [OF assms(1-3,6,4)] assms(5) by blast

theorem sync_releases_both_witness:
  "released Vmaster Vreplica (pair_call SYS_brk no_args 0 no_args 0)
     (resume_both Vmaster Vreplica (pair_call SYS_brk no_args 0 no_args 0))"
  by (rule sync_releases_both [OF kernel_alternates [of 0 0]])
    (simp_all add: processSyscallSync_def dispatch_table_def execSyscall_brk_def)

section \<open>The monitor as a state machine\<close>

text \<open>C11: The invariant. Let the program not call \<open>shutdown\<close>. In every state the loop reaches in
  less than 2^64 rounds the variants are in lockstep: they have completed the same number of
  calls and both run user code, or both are in a call, or one waits at its entry stop for the
  other, which runs user code; or one is a call ahead, in user code or waiting, and the other is
  in the call. The exception, if the program calls \<open>access\<close>, is a state in which no variant
  runs: a variant has died in \<open>access\<close>, and no stop will be reported any more.\<close>

theorem lockstep_invariant:
  assumes "ptrace_alternates run" and "avoids run SYS_shutdown" and "safe 0 s0"
    and "reach run s0 n s" and "n < 2 ^ 64"
  shows "well_typed s \<and> (counted n s \<and> lockstep s \<or> wedged s \<and> \<not> avoids run SYS_access)"
  using reach_cases [OF assms(4,1,2,3,5)] by (auto simp: safe_def)

theorem lockstep_invariant_witness: "counted 1 one_waits \<and> lockstep one_waits"
  using lockstep_invariant [OF kernel_alternates kernel_avoids both_user_safe one_waits_reached]
    kernel_avoids [of SYS_access SYS_brk 0]
  by auto

text \<open>C15: Well-formedness. Let the program not call \<open>shutdown\<close>. In every state the loop reaches in
  less than 2^64 rounds: the two variants are different processes, the master and the replica;
  the mapping list is a proper doubly linked list, and no recorded mapping is writable and shared
  (bit 1 of the protection is \<open>PROT_WRITE\<close>, bit 1 of the flags is \<open>MAP_PRIVATE\<close>).\<close>

theorem recorded_mappings_private:
  assumes "ptrace_alternates run" and "avoids run SYS_shutdown" and "safe 0 s0"
    and "reach run s0 n s" and "n < 2 ^ 64"
  shows "pids_ok s \<and> vtype (vars s Vmaster) = VTYPE_master \<and> vtype (vars s Vreplica) = VTYPE_replica \<and>
     (\<exists>es. maps_rep (mmaps s) es \<and> (\<forall>e \<in> set es. bit (prot e) 1 \<longrightarrow> bit (flags e) 1))"
proof -
  have "sealed e \<longleftrightarrow> (bit (prot e) 1 \<longrightarrow> bit (flags e) 1)" for e
    by (simp add: sealed_def checkMMapPerms_exact del: One_nat_def)
  with reach_cases [OF assms(4,1,2,3,5)] show ?thesis
    by (auto simp: well_typed_def maps_ok_def list_all_iff)
qed

theorem recorded_mappings_private_witness: "\<exists>es. maps_rep (mmaps one_waits) es"
  using recorded_mappings_private [OF kernel_alternates kernel_avoids both_user_safe one_waits_reached]
  by auto

text \<open>C12: No deadlock. In every such state, if the program calls neither \<open>shutdown\<close> nor
  \<open>access\<close> nor \<open>pselect6\<close>, some variant runs, so that a stop will be reported, and the round
  of the loop for a running variant always ends, with the monitor going on or exiting.\<close>

theorem some_variant_runs:
  assumes "ptrace_alternates run" and "avoids run SYS_shutdown" and "avoids run SYS_access"
    and "avoids run SYS_pselect6" and "safe 0 s0" and "reach run s0 n s" and "n < 2 ^ 64"
  shows "(\<exists>v. is_running (ps (proc_of s v))) \<and>
     (\<forall>v. is_running (ps (proc_of s v)) \<longrightarrow> main_round run (pid (vars s v)) s \<noteq> None)"
proof -
  have safe: "safe n s"
    using reach_cases [OF assms(6,1,2,5,7)] assms(3) by blast
  have "main_round run (pid (vars s v)) s = child_event run v s" for v
    using safe by (cases v) (auto simp: main_round_def safe_def well_typed_def pids_ok_def)
  with event_handled [OF assms(1,4) safe] lockstep_runs [of s] safe show ?thesis
    by (simp add: safe_def)
qed

theorem some_variant_runs_witness: "\<exists>v. is_running (ps (proc_of one_waits v))"
  using some_variant_runs [OF kernel_alternates kernel_avoids kernel_avoids kernel_avoids
      both_user_safe one_waits_reached]
  by simp

text \<open>C8: No variant goes on into a call on its own. Let the program not call \<open>shutdown\<close>, and let a
  round of the loop, from a state reached in less than 2^64 - 1 rounds, end with the loop going
  on. If in this round a variant has left its entry stop, then in this round the other variant
  has arrived at an entry stop as well, \<open>processSyscallSync\<close> has accepted the two calls on the
  information of these stops, and they are permitted by the table. A round that ends the
  monitor is not covered: there a refusing executor may have let a variant into the call.\<close>

theorem entry_only_left_together:
  assumes "ptrace_alternates run" and "avoids run SYS_shutdown" and "safe 0 s0"
    and "reach run s0 n s" and "n < 2 ^ 64 - 1" and "mvee_step run s s'"
    and "ps (proc_of s w) = EntryStop" and "ps (proc_of s' w) \<noteq> EntryStop"
  shows "\<exists>t. at_entry t \<and> proc_of t w = proc_of s w \<and>
     (\<forall>v. syscallInfo (vars t v) = get_syscall_info (proc_of t v)) \<and>
     processSyscallSync run Vmaster Vreplica t = Some (0, s') \<and> permitted t Vmaster Vreplica"
proof -
  have "\<not> wedged s" using wedged_no_step assms(6) by blast
  then have safe: "safe n s"
    using reach_cases [OF assms(4,1,2,3)] assms(5) by simp
  then have pids: "pids_ok s" by (simp add: safe_def well_typed_def)
  obtain v where "child_event run v s = Some (Inr (), s')"
    using assms(6) by (auto elim!: mvee_stepE dest!: main_round_child)
  from assms(1) safe assms(5) this show ?thesis
  proof (cases rule: step_cases)
    case (exit_stop k p)
    with assms(7,8) pids show ?thesis by (cases "w = v") simp_all
  next
    case (hold k p)
    with assms(7,8) pids show ?thesis by (cases "w = v") simp_all
  next
    case (sync k p)
    have "w \<noteq> v" using sync(1) assms(7) by auto
    with both_at_entry [OF safe sync(4,2), of k] sync(5) sync_permitted [OF sync(5)] pids
    show ?thesis by (intro exI [of _ "arrived v k p s"]) simp
  qed
qed

theorem entry_only_left_together_witness:
  "\<exists>t. processSyscallSync (kernel SYS_brk 0) Vmaster Vreplica t = Some (0, both_go) \<and>
     permitted t Vmaster Vreplica"
proof -
  have "ps (proc_of both_go Vmaster) \<noteq> EntryStop"
    by (simp add: both_go_def resume_both_def one_waits_sel)
  from entry_only_left_together [OF kernel_alternates kernel_avoids both_user_safe one_waits_reached
      _ both_go_step _ this] show ?thesis
    by (auto simp: one_waits_sel)
qed

text \<open>C9: Divergence kills. Let the program not call \<open>shutdown\<close>. If, in a state reached in less
  than 2^64 - 1 rounds, a variant arrives at a call for which the other one waits, the two calls
  are not permitted, and the master's is neither \<open>fadvise64\<close> nor \<open>rseq\<close> (whose executors resume
  both variants before they refuse), the round ends the monitor with status 1 and both variants
  are killed, at the stop, with the memory and the registers they had there; the outside world
  has seen neither call.\<close>

theorem divergence_kills:
  assumes "ptrace_alternates run" and "avoids run SYS_shutdown" and "safe 0 s0"
    and "reach run s0 n s" and "n < 2 ^ 64 - 1"
    and "ps (proc_of s v) = InUser" and "waiting s (other v)" and "num s v = num s (other v)"
    and "run (world s) (pid (vars s v)) (proc_of s v) = (k, p)" and "ps p = EntryStop"
    and "\<not> permitted (arrived v k p s) Vmaster Vreplica"
    and "orig_rax (regs (proc_of (arrived v k p s) Vmaster)) \<notin> {SYS_fadvise64, SYS_rseq}"
  shows "\<exists>s'. child_event run v s = Some (Inl 1, s') \<and> world s' = k \<and>
     (\<forall>w. proc_of s' w = (proc_of (arrived v k p s) w)\<lparr>ps := Killed 9\<rparr>)"
proof -
  let ?t = "arrived v k p s"
  have "\<not> wedged s"
    using assms(6) by (auto simp: wedged_def intro: exI [of _ v])
  then have "safe n s"
    using reach_cases [OF assms(4,1,2,3)] assms(5) by simp
  then have safe: "safe n s" and pids: "pids_ok s" and wt: "well_typed s"
    by (simp_all add: safe_def well_typed_def)
  note at = both_at_entry [OF safe assms(7,10), of k]
  obtain t' where sync: "processSyscallSync run Vmaster Vreplica ?t = Some (- 1, t')" "untouched ?t t'"
    using sync_not_permitted [OF assms(11)] assms(12) at(3) by auto
  have ids: "pids_ok t'" "world t' = k" "proc_of t' w = proc_of ?t w" for w
    using sync(2) pids by (auto simp: untouched_def pids_ok_def proc_of_def)
  let ?s' = "upd_proc Vreplica kill9 (upd_proc Vmaster kill9 t')"
  have "processVariantEvent run v (other v) (upd_proc v (\<lambda>_. p) (s\<lparr>world := k\<rparr>)) =
      Some (Returned (- 1), ?s')"
    using assms(7,8) sync(1)
    by (simp add: event_entry [OF assms(10) pids other_neq(2)] sync_variants [OF wt] waiting_def Let_def)
  then have "child_event run v s = Some (Inl 1, ?s')"
    using assms(6,9,10) by (simp add: child_event_def waitpid_def check_stop)
  moreover have "proc_of ?s' w = (proc_of ?t w)\<lparr>ps := Killed 9\<rparr>" for w
  proof -
    have "ps (proc_of ?t w) = EntryStop" using at(1) by (simp only: at_entry_def)
    moreover have "proc_of ?s' w = kill9 (proc_of ?t w)"
      using ids by (cases w) (simp_all del: arrived_proc)
    ultimately show ?thesis by (simp only: kill9_def is_dead.simps if_False)
  qed
  ultimately show ?thesis using ids(2) by auto
qed

text \<open>The master waits at \<open>brk\<close>, the replica arrives at \<open>exit_group\<close>.\<close>

definition two_kernels :: "word64 \<Rightarrow> word64 \<Rightarrow> unit env" where
  "two_kernels n n' k i p = (if i = 1 then kernel n 0 k i p else kernel n' 0 k i p)"

theorem divergence_kills_witness:
  "\<exists>s'. child_event (two_kernels SYS_brk SYS_exit_group) Vreplica one_waits = Some (Inl 1, s') \<and>
     (\<forall>w. ps (proc_of s' w) = Killed 9)"
proof -
  let ?run = "two_kernels SYS_brk SYS_exit_group"
  let ?p = "image EntryStop SYS_exit_group no_args (filled 0)"
  have "ptrace_alternates ?run"
    using kernel_alternates by (simp add: ptrace_alternates_def two_kernels_def)
  moreover have "avoids ?run SYS_shutdown"
    using kernel_avoids [of SYS_shutdown] by (simp add: avoids_def two_kernels_def)
  moreover have "reach ?run both_user 1 one_waits"
    by (rule one_waits_reachable) (simp add: two_kernels_def kernel_arrives)
  moreover have "waiting one_waits (other Vreplica)" "num one_waits Vreplica = num one_waits (other Vreplica)"
    by (simp_all add: waiting_def one_waits_sel)
  moreover have "?run (world one_waits) (pid (vars one_waits Vreplica)) (proc_of one_waits Vreplica) = ((), ?p)"
    by (simp add: two_kernels_def one_waits_sel kernel_arrives)
  moreover have "(1 :: nat) < 2 ^ 64 - 1"
    by (simp del: One_nat_def)
  moreover have "\<not> permitted (arrived Vreplica () ?p one_waits) Vmaster Vreplica"
    by (simp add: permitted_def nr_def one_waits_sel)
  ultimately have "\<exists>s'. child_event ?run Vreplica one_waits = Some (Inl 1, s') \<and> world s' = () \<and>
     (\<forall>w. proc_of s' w = (proc_of (arrived Vreplica () ?p one_waits) w)\<lparr>ps := Killed 9\<rparr>)"
    by (intro divergence_kills [OF _ _ both_user_safe, where n = 1]) (assumption | simp add: one_waits_sel)+
  then show ?thesis by fastforce
qed

section \<open>No false alarm, and the monitor as a whole\<close>

lemma names_distinct: "distinct (map fst syscall_names)" "distinct (map snd syscall_names)"
  by (simp_all add: syscall_names_def)

text \<open>C3: The exact condition. For the calls of \<open>plain_calls\<close>, if no variant dies in its call,
  \<open>processSyscallSync\<close> lets the variants go on if and only if they make the same call and the
  checks of its row hold.\<close>

theorem accepted_iff_permitted:
  assumes "survives run" and "m \<noteq> r" and "at_entry s" and "info_current s"
    and "nr s m \<in> set plain_calls"
  shows "(\<exists>s'. processSyscallSync run m r s = Some (0, s')) \<longleftrightarrow> permitted s m r"
  using sync_permitted sync_accepts [OF assms] by blast

theorem accepted_iff_permitted_witness:
  "(\<exists>s'. processSyscallSync (kernel 0 0) Vmaster Vreplica
      (pair_call SYS_bind [3, 64, 16, 0, 0, 0] 65 [3, 128, 16, 0, 0, 0] 65) = Some (0, s')) \<and>
   (\<nexists>s'. processSyscallSync (kernel 0 0) Vmaster Vreplica
      (pair_call SYS_bind [3, 64, 16, 0, 0, 0] 65 [3, 128, 16, 0, 0, 0] 66) = Some (0, s'))"
proof -
  let ?s = "\<lambda>b. pair_call SYS_bind [3, 64, 16, 0, 0, 0] 65 [3, 128, 16, 0, 0, 0] b"
  have "permitted (?s b) Vmaster Vreplica \<longleftrightarrow> b = 65" for b
    by (auto simp: permitted_def arg_checks_def agree_def holds_def buf_size_def zext32_def
        BUF_SIZE_def intro!: exI [of _ 0])
  moreover have "nr (?s b) Vmaster \<in> set plain_calls" for b
    by (simp add: plain_calls_def)
  ultimately have "(\<exists>s'. processSyscallSync (kernel 0 0) Vmaster Vreplica (?s b) = Some (0, s')) \<longleftrightarrow>
      b = 65" for b
    using accepted_iff_permitted [OF kernel_survives _ at_entry_pair_call info_current_pair] by simp
  from this [of 65] this [of 66] show ?thesis by simp
qed

text \<open>C4: Refinement. Let \<open>main\<close> be started with two variants that could be created, pinned and
  loaded, for a program that calls neither \<open>shutdown\<close> nor \<open>access\<close>. Then every state in which
  the loop is after \<open>n\<close> rounds, \<open>n\<close> less than 2^64, is one that \<open>n\<close> steps of the barrier lead
  to: no party enters a call without the other one waiting for it, the counts of completed calls
  differ by at most one, and only while the one behind is in the call. After a \<open>shutdown\<close> this
  is not so (the calls are counted when they are entered), nor after a death in \<open>access\<close>.\<close>

theorem main_refines_barrier:
  assumes "ptrace_alternates run" and "avoids run SYS_shutdown" and "avoids run SYS_access"
    and "mpid \<noteq> rpid" and "mmaps s = initial_heap"
    and "affinity (systemCores - 2)" and "affinity (systemCores - 3)"
    and "main_program run argc systemCores affinity mpid rpid child (Some p) (Some q) children s =
      Some (Inr (), t)"
    and "length children < 2 ^ 64"
  shows "(barrier_step ^^ length children) barrier_start (barrier_of t) \<and> aligned (barrier_of t)"
proof -
  let ?s = "start_variants mpid rpid child True (Some p) True (Some q) s"
  have safe: "safe 0 ?s" by (rule start_safe [OF assms(4,5)])
  have "main_loop run children ?s = Some (Inr (), t)"
    using assms(6-8) by (auto simp: main_program_def split: if_splits)
  then have "reach run ?s (length children) t" by (rule main_loop_reach)
  from reach_refines [OF this assms(1-3) safe assms(9)]
  have "(barrier_step ^^ length children) (barrier_of ?s) (barrier_of t)" .
  moreover have "barrier_of ?s = barrier_start"
    using start_sel [OF assms(4,5) refl]
    by (intro barrier_eqI) (simp_all add: barrier_start_def num_def)
  ultimately show ?thesis
    using aligned_run aligned_start by metis
qed

theorem main_refines_barrier_witness:
  "barrier_step barrier_start (barrier_of one_waits) \<and> ph (barrier_of one_waits) Vmaster = Ph_Wait"
proof -
  let ?i = "image InUser 0 no_args (filled 0)"
  have "main_program (kernel SYS_brk 0) 1 4 (\<lambda>_. True) 1 2 ?i (Some ?i) (Some ?i) [1] both_user =
      Some (Inr (), one_waits)"
    using one_waits_round [of "kernel SYS_brk 0", OF kernel_arrives]
    by (simp add: main_program_def start_both_user)
  from main_refines_barrier [OF kernel_alternates kernel_avoids kernel_avoids _ _ _ _ this]
  show ?thesis by (auto simp: both_user_def one_waits_sel relcompp_apply)
qed

section \<open>Names\<close>

lemma getSyscallName_entry: "(n, x) \<in> set syscall_names \<Longrightarrow> getSyscallName n = x"
  using map_of_is_SomeI [OF names_distinct(1)] by (simp add: getSyscallName_def)

text \<open>\<open>getSyscallName\<close> knows every number of the switch of \<open>processSyscallSync\<close>, and the
  names it knows are different from each other and from "unknown".\<close>

lemma dispatched_calls_have_names:
  "fst ` set dispatch_table \<subseteq> fst ` set syscall_names \<and>
   inj_on getSyscallName (fst ` set syscall_names) \<and>
   ''unknown'' \<notin> getSyscallName ` fst ` set syscall_names"
proof -
  have "inj_on getSyscallName (fst ` set syscall_names)"
  proof (rule inj_onI)
    fix n n' assume "n \<in> fst ` set syscall_names" "n' \<in> fst ` set syscall_names"
      and eq: "getSyscallName n = getSyscallName n'"
    then obtain x x' where x: "(n, x) \<in> set syscall_names" "(n', x') \<in> set syscall_names"
      by fastforce
    then have "x = x'" using eq getSyscallName_entry by simp
    moreover have "inj_on snd (set syscall_names)"
      using names_distinct(2) by (simp add: distinct_map)
    ultimately show "n = n'"
      using x inj_onD [of snd "set syscall_names" "(n, x)" "(n', x')"] by simp
  qed
  moreover have "''unknown'' \<notin> snd ` set syscall_names"
    by (simp add: syscall_names_def)
  then have "''unknown'' \<notin> getSyscallName ` fst ` set syscall_names"
    using getSyscallName_entry by force
  moreover have "fst ` set dispatch_table \<subseteq> fst ` set syscall_names"
    by (simp add: dispatch_table_def syscall_names_def)
  ultimately show ?thesis by blast
qed

end
